(* ===== verification/Prelude.thy ===== *)
theory Prelude
  imports Main "HOL-Library.Word" "HOL-Library.Signed_Division"
begin

text \<open>
  Shared vocabulary of the development.  Go's fixed-width integers are read as \<open>int\<close>
  with the wrap-around written out at every arithmetic operation whose operands the code does
  not bound (\<open>wrap16\<close>, \<open>wrap32\<close>, \<open>wrap64\<close>); Go's \<open>/\<close> and \<open>%\<close> truncate towards
  zero and are \<open>sdiv\<close> and \<open>smod\<close>.  Instants and durations are integers counting
  nanoseconds, as \<open>time.Duration\<close> does.
\<close>

named_theorems frame_rules \<open>what an operation leaves unchanged\<close>
named_theorems inv_rules \<open>preservation of the data invariants\<close>

subsection \<open>Fixed-width integers\<close>

definition wrap16 :: "int \<Rightarrow> int" where
  "wrap16 x = signed_take_bit 15 x"

definition wrap32 :: "int \<Rightarrow> int" where
  "wrap32 x = signed_take_bit 31 x"

definition wrap64 :: "int \<Rightarrow> int" where
  "wrap64 x = signed_take_bit 63 x"

lemma wrap16_id: "- (2 ^ 15) \<le> x \<Longrightarrow> x < 2 ^ 15 \<Longrightarrow> wrap16 x = x"
  by (simp add: wrap16_def signed_take_bit_int_eq_self)

lemma wrap32_id: "- (2 ^ 31) \<le> x \<Longrightarrow> x < 2 ^ 31 \<Longrightarrow> wrap32 x = x"
  by (simp add: wrap32_def signed_take_bit_int_eq_self)

lemma wrap64_id: "- (2 ^ 63) \<le> x \<Longrightarrow> x < 2 ^ 63 \<Longrightarrow> wrap64 x = x"
  by (simp add: wrap64_def signed_take_bit_int_eq_self)

definition int64_range :: "int \<Rightarrow> bool" where
  "int64_range x \<longleftrightarrow> - (2 ^ 63) \<le> x \<and> x < 2 ^ 63"

subsection \<open>Durations\<close>

abbreviation second :: int where "second \<equiv> 1000000000"
abbreviation minute :: int where "minute \<equiv> 60000000000"
abbreviation hour :: int where "hour \<equiv> 3600000000000"

subsection \<open>Lists\<close>

lemma filter_disj_partition:
  "(\<And>x. x \<in> set xs \<Longrightarrow> \<not> (P x \<and> Q x)) \<Longrightarrow>
   length (filter (\<lambda>x. P x \<or> Q x) xs) = length (filter P xs) + length (filter Q xs)"
  by (induction xs) auto

lemma distinct_map_filterI: "distinct (map f xs) \<Longrightarrow> distinct (map f (filter P xs))"
  by (induction xs) auto

text \<open>A key that occurs once: filtering on it leaves one element, or none.\<close>

lemma filter_unique_key:
  "distinct (map f xs) \<Longrightarrow> x \<in> set xs \<Longrightarrow> filter (\<lambda>y. f y = f x) xs = [x]"
proof (induction xs)
  case Nil
  then show ?case by simp
next
  case (Cons a xs)
  show ?case
  proof (cases "a = x")
    case True
    with Cons.prems(1) have "\<forall>y \<in> set xs. f y \<noteq> f x" by (metis distinct.simps(2) image_eqI list.simps(9) list.set_map)
    with True show ?thesis by (simp add: filter_empty_conv)
  next
    case False
    with Cons.prems have "f a \<noteq> f x" by auto
    with Cons False show ?thesis by simp
  qed
qed

lemma filter_unique_key_None:
  "k \<notin> f ` set xs \<Longrightarrow> filter (\<lambda>y. f y = k) xs = []"
  by (auto simp: filter_empty_conv)

lemma sum_list_filter_split:
  "sum_list (map g xs) =
   sum_list (map g (filter P xs)) + sum_list (map g (filter (\<lambda>x. \<not> P x) xs))"
  for g :: "'a \<Rightarrow> 'b::comm_monoid_add"
  by (induction xs) (auto simp: ac_simps)

lemma concat_pages:
  "concat (map (\<lambda>p. take l (drop (p * l) xs)) [0..<n]) = take (n * l) xs"
proof (induction n)
  case 0
  then show ?case by simp
next
  case (Suc n)
  have "take (Suc n * l) xs = take (n * l) xs @ take l (drop (n * l) xs)"
    by (simp add: take_add [symmetric] add.commute)
  with Suc show ?case by simp
qed

end
