(* ===== verification/Go_Errors.thy ===== *)
theory Go_Errors
  imports Prelude
begin

text \<open>
  The error values of the program.  A Go error is one of the sentinels of
  \<open>internal/domain/entities/errors/errors.go\<close>, an error that code outside the repository
  returned (context, database, driver, gRPC, operating system), a fresh
  \<open>errors.New\<close> value, or a \<open>fmt.Errorf\<close> wrapper with \<open>%w\<close>, kept as the text before
  the wrapped error, the wrapped error and the text after it.
\<close>

datatype sentinel =
    ErrAliasTaken | ErrFileNotFound | ErrNoDownloadsLeft | ErrFileSizeTooBig
  | ErrUploadLimitExceeded | ErrTooManyRequests
  | ErrForbidden | ErrUserNotFound | ErrRoleNotExist | ErrUserAlreadyExists
  | ErrAccessTokenExpired | ErrAccessTokenRevoked | ErrInvalidAccessToken
  | ErrInvalidRefreshToken | ErrInvalidCredentials | ErrInvalidArgument
  | ErrFilePasswordRequired | ErrFilePasswordInvalid

fun sentinel_text :: "sentinel \<Rightarrow> string" where
  "sentinel_text ErrAliasTaken = ''current alias is already taken''"
| "sentinel_text ErrFileNotFound = ''file does not exist''"
| "sentinel_text ErrNoDownloadsLeft = ''there is no downloads left''"
| "sentinel_text ErrFileSizeTooBig = ''file size too big''"
| "sentinel_text ErrUploadLimitExceeded = ''upload limit exceeded''"
| "sentinel_text ErrTooManyRequests = ''too many requests''"
| "sentinel_text ErrForbidden = ''forbidden''"
| "sentinel_text ErrUserNotFound = ''user not found''"
| "sentinel_text ErrRoleNotExist = ''role does not exist''"
| "sentinel_text ErrUserAlreadyExists = ''user already exists''"
| "sentinel_text ErrAccessTokenExpired = ''access token expired''"
| "sentinel_text ErrAccessTokenRevoked = ''access token revoked''"
| "sentinel_text ErrInvalidAccessToken = ''invalid access token''"
| "sentinel_text ErrInvalidRefreshToken = ''invalid refresh token''"
| "sentinel_text ErrInvalidCredentials = ''invalid login or password''"
| "sentinel_text ErrInvalidArgument = ''invalid argument''"
| "sentinel_text ErrFilePasswordRequired = ''file password required for access''"
| "sentinel_text ErrFilePasswordInvalid = ''invalid file password''"

text \<open>The gRPC status codes that the code names; every other code is \<open>OtherCode\<close>.\<close>

datatype grpc_code =
    CodeCanceled | CodeInvalidArgument | CodeDeadlineExceeded | CodeNotFound
  | CodeAlreadyExists | CodeResourceExhausted | CodeUnauthenticated | OtherCode nat

text \<open>
  Errors that reach the program from outside: the two context errors, \<open>sql.ErrNoRows\<close>,
  \<open>sql.ErrTxDone\<close>, a MySQL server error with its number, a gRPC status, the operating
  system's "does not exist", the two broken-pipe errors, and anything else by its text.
\<close>

datatype ext_err =
    Canceled | DeadlineExceeded | NoRows | TxDone | MySQLError nat string
  | GrpcStatus grpc_code string | NotExist | EPIPE | ClosedPipe | OtherErr string

datatype goerr =
    Sentinel sentinel
  | Ext ext_err
  | NewErr string
  | Wrapf string goerr string

type_synonym 'a result = "goerr + 'a"

text \<open>\<open>errors.Is(err, target)\<close>: the chain of wrapped errors is searched for the target.\<close>

fun errors_Is :: "goerr \<Rightarrow> goerr \<Rightarrow> bool" where
  "errors_Is (Wrapf p e s) t = (Wrapf p e s = t \<or> errors_Is e t)"
| "errors_Is e t = (e = t)"

text \<open>\<open>errors.As(err, &mysqlErr)\<close>: the number of the first MySQL error in the chain.\<close>

fun errors_As_mysql :: "goerr \<Rightarrow> nat option" where
  "errors_As_mysql (Wrapf p e s) = errors_As_mysql e"
| "errors_As_mysql (Ext (MySQLError n m)) = Some n"
| "errors_As_mysql e = None"

text \<open>\<open>isCtxError\<close> of the file service; \<open>util.IsCtxError\<close> of the handlers is the same test.\<close>

definition isCtxError :: "goerr \<Rightarrow> bool" where
  "isCtxError err \<longleftrightarrow> errors_Is err (Ext Canceled) \<or> errors_Is err (Ext DeadlineExceeded)"

definition is_domain :: "goerr \<Rightarrow> sentinel \<Rightarrow> bool" where
  "is_domain err s \<longleftrightarrow> errors_Is err (Sentinel s)"

text \<open>\<open>fmt.Errorf("\<dots>%w", \<dots>, err)\<close> with the wrapped error last.\<close>

abbreviation errorf :: "string \<Rightarrow> goerr \<Rightarrow> goerr" where
  "errorf pre e \<equiv> Wrapf pre e []"

lemma is_domain_simps [simp]:
  "is_domain (Sentinel a) s \<longleftrightarrow> a = s"
  "is_domain (Ext x) s \<longleftrightarrow> False"
  "is_domain (NewErr m) s \<longleftrightarrow> False"
  "is_domain (Wrapf p e q) s \<longleftrightarrow> is_domain e s"
  by (simp_all add: is_domain_def)

lemma isCtxError_simps [simp]:
  "isCtxError (Sentinel a) \<longleftrightarrow> False"
  "isCtxError (Ext x) \<longleftrightarrow> x = Canceled \<or> x = DeadlineExceeded"
  "isCtxError (NewErr m) \<longleftrightarrow> False"
  "isCtxError (Wrapf p e q) \<longleftrightarrow> isCtxError e"
  by (auto simp: isCtxError_def)

text \<open>An error chain ends in one leaf, so it matches one sentinel at most.\<close>

fun leaf_of :: "goerr \<Rightarrow> goerr" where
  "leaf_of (Wrapf p e s) = leaf_of e"
| "leaf_of e = e"

lemma is_domain_leaf: "is_domain e s \<longleftrightarrow> leaf_of e = Sentinel s"
  by (induction e) auto

lemma is_domain_unique: "is_domain e s \<Longrightarrow> is_domain e t \<Longrightarrow> s = t"
  by (simp add: is_domain_leaf)

lemma isCtxError_leaf: "isCtxError e \<longleftrightarrow> leaf_of e = Ext Canceled \<or> leaf_of e = Ext DeadlineExceeded"
  by (induction e) auto

lemma ctx_not_domain: "isCtxError e \<Longrightarrow> \<not> is_domain e s"
  by (auto simp: isCtxError_leaf is_domain_leaf)

text \<open>A call of Go code: it returns a value, panics, or runs forever.\<close>

datatype 'a run = Returns 'a | Panics string | Diverges

definition bind_run :: "'a run \<Rightarrow> ('a \<Rightarrow> 'b run) \<Rightarrow> 'b run" where
  "bind_run r f = (case r of Returns x \<Rightarrow> f x | Panics m \<Rightarrow> Panics m | Diverges \<Rightarrow> Diverges)"

lemma bind_run_simps [simp]:
  "bind_run (Returns x) f = f x" "bind_run (Panics m) f = Panics m" "bind_run Diverges f = Diverges"
  by (simp_all add: bind_run_def)

lemma bind_run_Returns:
  "bind_run r f = Returns y \<longleftrightarrow> (\<exists>x. r = Returns x \<and> f x = Returns y)"
  by (cases r) auto

lemma bind_run_answer:
  "bind_run m (\<lambda>(x, s1). Returns (g x s1, s1)) = Returns (y, s') \<longleftrightarrow>
   (\<exists>x. m = Returns (x, s') \<and> g x s' = y)"
  by (cases m) auto

text \<open>Building a part of the program: it is built, or the process exits, or it panics.\<close>

datatype 'a boot = Built 'a | Exits int | Crashes string

definition bind_boot :: "'a boot \<Rightarrow> ('a \<Rightarrow> 'b boot) \<Rightarrow> 'b boot" where
  "bind_boot b f = (case b of Built x \<Rightarrow> f x | Exits n \<Rightarrow> Exits n | Crashes m \<Rightarrow> Crashes m)"

lemma bind_boot_simps [simp]:
  "bind_boot (Built x) f = f x" "bind_boot (Exits n) f = Exits n" "bind_boot (Crashes m) f = Crashes m"
  by (simp_all add: bind_boot_def)

lemma bind_boot_Built:
  "bind_boot b f = Built y \<longleftrightarrow> (\<exists>x. b = Built x \<and> f x = Built y)"
  by (cases b) auto

definition nil_panic :: string where
  "nil_panic = ''invalid memory address or nil pointer dereference''"

end
