(* ===== verification/Entities.thy ===== *)
theory Entities
  imports Go_Errors
begin

text \<open>
  The data of the program: the entities of \<open>internal/domain/entities\<close>, the commands and
  results of \<open>internal/domain/dto\<close> and the parts of \<open>internal/config\<close> the code reads.
  Instants (\<open>time.Time\<close>) and durations are nanosecond counts.  Field names carry a short
  prefix for the record they belong to.
\<close>

type_synonym user_role = string
type_synonym instant = int
type_synonym duration = int

definition RoleUser :: user_role where "RoleUser = ''user''"
definition RoleVip :: user_role where "RoleVip = ''vip''"
definition RoleAdmin :: user_role where "RoleAdmin = ''admin''"

lemma role_distinct [simp]:
  "RoleUser \<noteq> RoleVip" "RoleVip \<noteq> RoleUser" "RoleUser \<noteq> RoleAdmin"
  "RoleAdmin \<noteq> RoleUser" "RoleVip \<noteq> RoleAdmin" "RoleAdmin \<noteq> RoleVip"
  by (simp_all add: RoleUser_def RoleVip_def RoleAdmin_def)

subsection \<open>Entities\<close>

record file_info =
  f_Name :: string
  f_Size :: int
  f_Alias :: string
  f_DownloadsLeft :: int
  f_PasswordHash :: string
  f_LoadedAt :: instant
  f_ExpiresAt :: instant
  f_UserID :: int

record files_stat =
  fst_UserID :: int
  fst_Count :: int
  fst_Size :: int

record user =
  u_ID :: int
  u_Login :: string
  u_Email :: string
  u_Roles :: "user_role list"
  u_IsAdmin :: bool
  u_CreatedAt :: instant

record token_pair =
  tp_AccessToken :: string
  tp_RefreshToken :: string

subsection \<open>File commands and results\<close>

record user_info =
  ui_UserID :: int
  ui_Roles :: "user_role list"

record upload_file =
  uf_File :: string
  uf_Filesize :: int
  uf_Filename :: string
  uf_MaxDownloads :: int
  uf_Password :: string
  uf_TTL :: duration
  uf_User :: user_info

record download_file =
  df_Alias :: string
  df_Password :: string

record get_file =
  gf_Alias :: string
  gf_User :: user_info

record get_files_stat =
  gs_User :: user_info

record get_all_files =
  ga_Page :: int
  ga_Limit :: int
  ga_UserID :: int

record delete_file =
  del_Alias :: string
  del_User :: user_info

record add_file =
  af_Filename :: string
  af_Filesize :: int
  af_Alias :: string
  af_MaxDownloads :: int
  af_PasswordHash :: string
  af_TTL :: duration
  af_UserID :: int

text \<open>
  \<open>results.DownloadFile\<close>: the reader, the file information and the \<open>Close\<close> function.  The
  reader is an open file, so its bytes are those of the file when it was opened; \<open>dr_fd\<close>
  names the open file that \<open>Close\<close> releases.
\<close>

record download_result =
  dr_File :: string
  dr_Name :: string
  dr_Size :: int
  dr_fd :: nat

record get_file_result =
  gr_Alias :: string
  gr_Filename :: string
  gr_Filesize :: int
  gr_DownloadsLeft :: int
  gr_ExpiresIn :: duration

record get_all_files_result =
  gar_Total :: int
  gar_Files :: "get_file_result list"

record get_files_stat_result =
  gsr_Stat :: files_stat
  gsr_MaxSize :: int
  gsr_MaxCount :: int

text \<open>\<open>dto/auth/commands\<close> and \<open>dto/users/commands\<close>.\<close>

record login_command =
  lc_Login :: string
  lc_Password :: string

record register_command =
  rg_Login :: string
  rg_Email :: string
  rg_Password :: string

record logout_command =
  oc_RefreshToken :: string
  oc_AccessToken :: string

record refresh_command =
  fc_RefreshToken :: string

record get_all_users =
  gu_Page :: int
  gu_Limit :: int
  gu_Role :: "user_role option"

record assign_role =
  ar_UserID :: int
  ar_Role :: user_role

record revoke_role =
  vk_UserID :: int
  vk_Role :: user_role

subsection \<open>Configuration\<close>

record permissions =
  MaxFilesSizeForUser :: string
  MaxFilesSizeForVip :: string
  MaxUploadedFiles :: int
  MaxFilesSizeForUserInBytes :: int
  MaxFilesSizeForVipInBytes :: int

record service_cfg =
  DefaultTtl :: duration
  DefaultMaxDownloads :: int
  AliasLength :: int
  FileWorkerDelay :: duration
  Permissions :: permissions

record rate_limiter_params =
  rp_Field :: string
  rp_MaxAttempts :: int
  rp_Window :: duration
  rp_BlockDuration :: duration

subsection \<open>Transactions\<close>

text \<open>
  A value of the interface \<open>tx.Tx\<close>: a \<open>*sql.Tx\<close>, named by a number, or a value of some
  other type, which the repository's type assertion refuses.
\<close>

datatype tx = SqlTx nat | OtherTx

end
