(* ===== verification/Interfaces.thy ===== *)
theory Interfaces
  imports Entities
begin

text \<open>
  The interfaces of \<open>internal/domain/interfaces\<close>.  A Go interface value is a record of its
  methods over a state type \<open>'w\<close> (everything the methods may change).  Each interface comes with
  a locale: the laws its clients rely on, stated over abstract views of the state.
\<close>

subsection \<open>The method tables\<close>

record 'w file_repo =
  repo_BeginTx :: "'w \<Rightarrow> tx result \<times> 'w"
  repo_Commit :: "tx \<Rightarrow> 'w \<Rightarrow> goerr option \<times> 'w"
  repo_Rollback :: "tx \<Rightarrow> 'w \<Rightarrow> goerr option \<times> 'w"
  repo_GetFileByAlias :: "string \<Rightarrow> 'w \<Rightarrow> file_info result \<times> 'w"
  repo_GetFilesByUserID :: "get_all_files \<Rightarrow> 'w \<Rightarrow> (file_info list \<times> int) result \<times> 'w"
  repo_GetFilesStatByUserID :: "int \<Rightarrow> 'w \<Rightarrow> files_stat result \<times> 'w"
  repo_AddFileTx :: "tx \<Rightarrow> add_file \<Rightarrow> 'w \<Rightarrow> int result \<times> 'w"
  repo_DecrementDownloadsByAliasTx :: "tx \<Rightarrow> string \<Rightarrow> 'w \<Rightarrow> int result \<times> 'w"
  repo_DeleteFileTx :: "tx \<Rightarrow> string \<Rightarrow> 'w \<Rightarrow> goerr option \<times> 'w"
  repo_DeleteExpiredFilesTx :: "tx \<Rightarrow> int \<Rightarrow> 'w \<Rightarrow> string list result \<times> 'w"

record 'w file_storage =
  st_Delete :: "string \<Rightarrow> 'w \<Rightarrow> goerr option \<times> 'w"
  st_Download :: "string \<Rightarrow> 'w \<Rightarrow> download_result result \<times> 'w"
  st_Close :: "nat \<Rightarrow> 'w \<Rightarrow> goerr option \<times> 'w"
  st_Upload :: "string \<Rightarrow> string \<Rightarrow> string \<Rightarrow> 'w \<Rightarrow> goerr option \<times> 'w"

subsection \<open>Rows under a comparison of aliases\<close>

text \<open>
  The database compares aliases under its collation: two aliases are the same when their
  \<open>key\<close>s are.  A row answers for an alias at time \<open>t\<close> when it matches and has not expired.
\<close>

definition same_alias :: "(string \<Rightarrow> string) \<Rightarrow> string \<Rightarrow> file_info \<Rightarrow> bool" where
  "same_alias key a f \<longleftrightarrow> key (f_Alias f) = key a"

definition live_as :: "(string \<Rightarrow> string) \<Rightarrow> instant \<Rightarrow> string \<Rightarrow> file_info \<Rightarrow> bool" where
  "live_as key t a f \<longleftrightarrow> same_alias key a f \<and> f_ExpiresAt f > t"

definition set_downloads :: "(string \<Rightarrow> string) \<Rightarrow> string \<Rightarrow> int \<Rightarrow> file_info list \<Rightarrow> file_info list" where
  "set_downloads key a n fs = map (\<lambda>f. if same_alias key a f then f\<lparr>f_DownloadsLeft := n\<rparr> else f) fs"

definition drop_live :: "(string \<Rightarrow> string) \<Rightarrow> instant \<Rightarrow> string \<Rightarrow> file_info list \<Rightarrow> file_info list" where
  "drop_live key t a fs = filter (\<lambda>f. \<not> live_as key t a f) fs"

text \<open>The invariant of the table: no two rows with the same alias key, every counter positive.\<close>

definition unique_aliases :: "(string \<Rightarrow> string) \<Rightarrow> file_info list \<Rightarrow> bool" where
  "unique_aliases key fs \<longleftrightarrow> distinct (map (key \<circ> f_Alias) fs)"

definition counters_ok :: "file_info list \<Rightarrow> bool" where
  "counters_ok fs \<longleftrightarrow> list_all (\<lambda>f. 1 \<le> f_DownloadsLeft f \<and> f_DownloadsLeft f < 2 ^ 15) fs"

lemma map_alias_set_downloads [simp]:
  "map f_Alias (set_downloads key a n fs) = map f_Alias fs"
  by (induction fs) (auto simp: set_downloads_def)

lemma unique_set_downloads [inv_rules, simp]:
  "unique_aliases key (set_downloads k a n fs) = unique_aliases key fs"
  unfolding unique_aliases_def
  by (metis (no_types, opaque_lifting) list.map_comp map_alias_set_downloads)

lemma unique_drop_live [inv_rules]:
  "unique_aliases key fs \<Longrightarrow> unique_aliases key (drop_live k t a fs)"
  by (simp add: unique_aliases_def drop_live_def distinct_map_filterI)

lemma counters_drop_live [inv_rules]:
  "counters_ok fs \<Longrightarrow> counters_ok (drop_live k t a fs)"
  by (auto simp: counters_ok_def drop_live_def list_all_iff)

lemma counters_set_downloads [inv_rules]:
  "counters_ok fs \<Longrightarrow> 1 \<le> n \<Longrightarrow> n < 2 ^ 15 \<Longrightarrow> counters_ok (set_downloads k a n fs)"
  by (auto simp: counters_ok_def set_downloads_def list_all_iff)

subsection \<open>The contract of the repository\<close>

text \<open>
  \<open>rows\<close> is the committed table, \<open>view\<close> what an open transaction sees, \<open>clock\<close> the time,
  \<open>dbnow\<close> the database's reading of it, \<open>key\<close> the collation of aliases and \<open>outside\<close>
  everything the repository does not touch.  A failed statement changes nothing outside its
  transaction; a failed commit may have taken effect or not.  Time never runs backwards, and a
  condition on \<open>expires_at\<close> is evaluated at some moment of the call.
\<close>

definition moment :: "instant \<Rightarrow> instant \<Rightarrow> instant \<Rightarrow> bool" where
  "moment t0 t t1 \<longleftrightarrow> t0 \<le> t \<and> t \<le> t1"

locale repo_contract =
  fixes repo :: "'w file_repo"
    and rows :: "'w \<Rightarrow> file_info list"
    and view :: "'w \<Rightarrow> tx \<Rightarrow> file_info list option"
    and clock :: "'w \<Rightarrow> instant"
    and dbnow :: "instant \<Rightarrow> instant"
    and key :: "string \<Rightarrow> string"
    and outside :: "'w \<Rightarrow> 'o"
  assumes begin_ok: "repo_BeginTx repo w = (Inr t, w') \<Longrightarrow>
      rows w' = rows w \<and> outside w' = outside w \<and> clock w \<le> clock w' \<and> view w t = None \<and>
      view w' = (view w)(t \<mapsto> rows w)"
    and begin_err: "repo_BeginTx repo w = (Inl e, w') \<Longrightarrow>
      rows w' = rows w \<and> outside w' = outside w \<and> clock w \<le> clock w' \<and> view w' = view w \<and>
      (\<forall>s. \<not> is_domain e s)"
    and commit_ok: "repo_Commit repo t w = (None, w') \<Longrightarrow>
      view w t = Some (rows w') \<and> outside w' = outside w \<and> clock w \<le> clock w' \<and>
      view w' = (view w)(t := None)"
    and commit_err: "repo_Commit repo t w = (Some e, w') \<Longrightarrow>
      (rows w' = rows w \<or> view w t = Some (rows w')) \<and> outside w' = outside w \<and>
      clock w \<le> clock w' \<and> view w' = (view w)(t := None) \<and> (\<forall>s. \<not> is_domain e s)"
    and rollback: "repo_Rollback repo t w = (r, w') \<Longrightarrow>
      rows w' = rows w \<and> outside w' = outside w \<and> clock w \<le> clock w' \<and>
      view w' = (view w)(t := None)"
    and get_ok: "repo_GetFileByAlias repo a w = (Inr f, w') \<Longrightarrow>
      f \<in> set (rows w) \<and> (\<exists>c. moment (clock w) c (clock w') \<and> live_as key (dbnow c) a f) \<and>
      rows w' = rows w \<and> outside w' = outside w \<and> clock w \<le> clock w' \<and> view w' = view w"
    and get_err: "repo_GetFileByAlias repo a w = (Inl e, w') \<Longrightarrow>
      rows w' = rows w \<and> outside w' = outside w \<and> clock w \<le> clock w' \<and> view w' = view w \<and>
      (\<forall>s. is_domain e s \<longrightarrow> s = ErrFileNotFound)"
    and list_frame: "repo_GetFilesByUserID repo lc w = (lr, w') \<Longrightarrow>
      rows w' = rows w \<and> outside w' = outside w \<and> clock w \<le> clock w' \<and> view w' = view w"
    and stat_ok: "repo_GetFilesStatByUserID repo u w = (Inr s, w') \<Longrightarrow>
      fst_Count s = int (length (filter (\<lambda>f. f_UserID f = u) (rows w))) \<and>
      fst_Size s = sum_list (map f_Size (filter (\<lambda>f. f_UserID f = u) (rows w))) \<and>
      int64_range (fst_Size s) \<and>
      rows w' = rows w \<and> outside w' = outside w \<and> clock w \<le> clock w' \<and> view w' = view w"
    and stat_err: "repo_GetFilesStatByUserID repo u w = (Inl e, w') \<Longrightarrow>
      rows w' = rows w \<and> outside w' = outside w \<and> clock w \<le> clock w' \<and> view w' = view w \<and>
      (\<forall>s. is_domain e s \<longrightarrow> s = ErrUserNotFound)"
    and add_ok: "repo_AddFileTx repo t c w = (Inr i, w') \<Longrightarrow>
      \<exists>v f. view w t = Some v \<and> view w' = (view w)(t \<mapsto> v @ [f]) \<and>
        key (f_Alias f) \<notin> (key \<circ> f_Alias) ` set v \<and>
        f_Alias f = af_Alias c \<and> f_Name f = af_Filename c \<and> f_Size f = af_Filesize c \<and>
        f_DownloadsLeft f = af_MaxDownloads c \<and> f_PasswordHash f = af_PasswordHash c \<and>
        f_UserID f = af_UserID c \<and> rows w' = rows w \<and> outside w' = outside w \<and> clock w \<le> clock w'"
    and add_err: "repo_AddFileTx repo t c w = (Inl e, w') \<Longrightarrow>
      rows w' = rows w \<and> outside w' = outside w \<and> clock w \<le> clock w' \<and>
      (\<forall>t'. t' \<noteq> t \<longrightarrow> view w' t' = view w t') \<and> (\<forall>s. is_domain e s \<longrightarrow> s = ErrAliasTaken)"
    and decrement_ok: "repo_DecrementDownloadsByAliasTx repo t a w = (Inr n, w') \<Longrightarrow>
      \<exists>v f d. view w t = Some v \<and> f \<in> set v \<and> moment (clock w) d (clock w') \<and>
        live_as key (dbnow d) a f \<and> f_DownloadsLeft f \<noteq> 0 \<and> n = wrap16 (f_DownloadsLeft f - 1) \<and>
        view w' = (view w)(t \<mapsto> set_downloads key a n v) \<and>
        rows w' = rows w \<and> outside w' = outside w \<and> clock w \<le> clock w'"
    and decrement_err: "repo_DecrementDownloadsByAliasTx repo t a w = (Inl e, w') \<Longrightarrow>
      rows w' = rows w \<and> outside w' = outside w \<and> clock w \<le> clock w' \<and>
      (\<forall>t'. t' \<noteq> t \<longrightarrow> view w' t' = view w t') \<and>
      (\<forall>s. is_domain e s \<longrightarrow> s = ErrFileNotFound \<or> s = ErrNoDownloadsLeft)"
    and delete_ok: "repo_DeleteFileTx repo t a w = (None, w') \<Longrightarrow>
      \<exists>v d. view w t = Some v \<and> moment (clock w) d (clock w') \<and>
        (\<exists>f \<in> set v. live_as key (dbnow d) a f) \<and>
        view w' = (view w)(t \<mapsto> drop_live key (dbnow d) a v) \<and>
        rows w' = rows w \<and> outside w' = outside w \<and> clock w \<le> clock w'"
    and delete_err: "repo_DeleteFileTx repo t a w = (Some e, w') \<Longrightarrow>
      rows w' = rows w \<and> outside w' = outside w \<and> clock w \<le> clock w' \<and>
      (\<forall>t'. t' \<noteq> t \<longrightarrow> view w' t' = view w t') \<and> (\<forall>s. is_domain e s \<longrightarrow> s = ErrFileNotFound)"
    and expired_ok: "repo_DeleteExpiredFilesTx repo t lim w = (Inr aliases, w') \<Longrightarrow>
      \<exists>v gone d. view w t = Some v \<and> moment (clock w) d (clock w') \<and>
        set gone \<subseteq> set v \<and> aliases = map f_Alias gone \<and> int (length gone) \<le> max 0 lim \<and>
        (\<forall>f \<in> set gone. f_ExpiresAt f < dbnow d) \<and>
        view w' = (view w)(t \<mapsto> filter (\<lambda>f. \<forall>g \<in> set gone. key (f_Alias f) \<noteq> key (f_Alias g)) v) \<and>
        rows w' = rows w \<and> outside w' = outside w \<and> clock w \<le> clock w'"
    and expired_err: "repo_DeleteExpiredFilesTx repo t lim w = (Inl e, w') \<Longrightarrow>
      rows w' = rows w \<and> outside w' = outside w \<and> clock w \<le> clock w' \<and>
      (\<forall>t'. t' \<noteq> t \<longrightarrow> view w' t' = view w t')"

text \<open>A repository that leaves \<open>outside\<close> alone leaves alone what can be read off it.\<close>

context repo_contract
begin

lemma coarsen:
  assumes o: "\<And>w w'. outside w' = outside w \<Longrightarrow> part w' = part w"
  shows "repo_contract repo rows view clock dbnow key part"
  apply unfold_locales
                   apply (drule begin_ok begin_err commit_ok commit_err rollback get_ok get_err
      list_frame stat_ok stat_err add_ok add_err decrement_ok decrement_err delete_ok delete_err
      expired_ok expired_err, insert o, blast)+
  done

end

subsection \<open>The contract of the file storage\<close>

text \<open>
  \<open>folder\<close> is what is stored for an alias, \<open>opened\<close> the open files, \<open>outside\<close> what the
  storage does not touch, \<open>good\<close> the aliases whose folders are apart from each other.  A
  download opens one file; a failed deletion may have removed the folder or not.
\<close>

locale storage_contract =
  fixes storage :: "'w file_storage"
    and folder :: "'w \<Rightarrow> string \<Rightarrow> (string \<times> string) list option"
    and opened :: "'w \<Rightarrow> nat list"
    and clock :: "'w \<Rightarrow> instant"
    and outside :: "'w \<Rightarrow> 'o"
    and good :: "string \<Rightarrow> bool"
  assumes download_ok: "st_Download storage a w = (Inr r, w') \<Longrightarrow>
      outside w' = outside w \<and> clock w \<le> clock w' \<and> folder w' = folder w \<and>
      (\<exists>rest. folder w a = Some ((dr_Name r, dr_File r) # rest)) \<and>
      dr_Size r = int (length (dr_File r)) \<and>
      dr_fd r \<notin> set (opened w) \<and> opened w' = dr_fd r # opened w"
    and download_err: "st_Download storage a w = (Inl e, w') \<Longrightarrow>
      outside w' = outside w \<and> clock w \<le> clock w' \<and> folder w' = folder w \<and>
      (opened w' = opened w \<or> (\<exists>fd. fd \<notin> set (opened w) \<and> opened w' = fd # opened w)) \<and>
      (\<forall>s. is_domain e s \<longrightarrow> s = ErrFileNotFound)"
    and close: "st_Close storage fd w = (cr, w') \<Longrightarrow>
      outside w' = outside w \<and> clock w \<le> clock w' \<and> folder w' = folder w \<and>
      opened w' = removeAll fd (opened w)"
    and delete_ok: "st_Delete storage a w = (None, w') \<Longrightarrow>
      outside w' = outside w \<and> clock w \<le> clock w' \<and> opened w' = opened w \<and> folder w' a = None \<and>
      (good a \<longrightarrow> (\<forall>b. good b \<longrightarrow> b \<noteq> a \<longrightarrow> folder w' b = folder w b))"
    and delete_err: "st_Delete storage a w = (Some e, w') \<Longrightarrow>
      outside w' = outside w \<and> clock w \<le> clock w' \<and> opened w' = opened w \<and>
      (good a \<longrightarrow> (\<forall>b. good b \<longrightarrow> b \<noteq> a \<longrightarrow> folder w' b = folder w b)) \<and>
      (\<forall>s. is_domain e s \<longrightarrow> s = ErrFileNotFound)"
    and upload_ok: "st_Upload storage content a name w = (None, w') \<Longrightarrow>
      outside w' = outside w \<and> clock w \<le> clock w' \<and> opened w' = opened w \<and>
      (\<exists>d n. folder w' a = Some d \<and> map_of d n = Some content) \<and>
      (good a \<longrightarrow> (\<forall>b. good b \<longrightarrow> b \<noteq> a \<longrightarrow> folder w' b = folder w b))"
    and upload_err: "st_Upload storage content a name w = (Some e, w') \<Longrightarrow>
      outside w' = outside w \<and> clock w \<le> clock w' \<and> opened w' = opened w \<and>
      (good a \<longrightarrow> (\<forall>b. good b \<longrightarrow> b \<noteq> a \<longrightarrow> folder w' b = folder w b)) \<and>
      (\<forall>s. \<not> is_domain e s)"

context storage_contract
begin

lemma coarsen:
  assumes o: "\<And>w w'. outside w' = outside w \<Longrightarrow> part w' = part w"
  shows "storage_contract storage folder opened clock part good"
  by unfold_locales
    (drule download_ok download_err close delete_ok delete_err upload_ok upload_err,
     insert o, blast)+

end

end
