(* ===== verification/Alias_Gen.thy ===== *)
theory Alias_Gen
  imports Go_Errors
begin

text \<open>
  \<open>internal/lib/alias/alias.go\<close>: the random alias of an uploaded file.  The stream of
  \<open>rand.Int63()\<close> values is the parameter \<open>rnd\<close> (the n-th call returns \<open>rnd n\<close>); the
  loop draws six bits at a time, skips the two values that index no letter, and may run as
  long as the stream keeps yielding those, so it is a partial function.
\<close>

unbundle bit_operations_syntax

definition letterBytes :: string where
  "letterBytes = ''abcdefghijklmnopqrstuvwxyzABCDEFGHIJKLMNOPQRSTUVWXYZ0123456789''"

definition letterIdxBits :: nat where "letterIdxBits = 6"
definition letterIdxMask :: "64 word" where "letterIdxMask = push_bit letterIdxBits 1 - 1"
definition letterIdxMax :: nat where "letterIdxMax = 63 div letterIdxBits"

text \<open>
  One pass through the loop body: the word and the counter are refilled when the counter is 0,
  the six low bits may give a letter, then the word is shifted and the counter lowered.
\<close>

definition gen_refill :: "(nat \<Rightarrow> 64 word) \<Rightarrow> nat \<Rightarrow> 64 word \<Rightarrow> nat \<Rightarrow> nat \<times> 64 word \<times> nat" where
  "gen_refill rnd n cache remain =
     (if remain = 0 then (Suc n, rnd n, letterIdxMax) else (n, cache, remain))"

definition gen_idx :: "64 word \<Rightarrow> nat" where
  "gen_idx cache = unat (cache AND letterIdxMask)"

text \<open>
  The loop, from index \<open>i\<close> down to 0: \<open>i\<close> is the int16 variable of the source, \<open>result\<close> the
  byte slice, \<open>n\<close> the number of random words drawn so far.
\<close>

partial_function (option) gen_loop ::
  "(nat \<Rightarrow> 64 word) \<Rightarrow> int \<Rightarrow> nat \<Rightarrow> 64 word \<Rightarrow> nat \<Rightarrow> string \<Rightarrow> string option" where
  "gen_loop rnd i n cache remain result =
     (if i < 0 then Some result
      else (case gen_refill rnd n cache remain of (n', cache', remain') \<Rightarrow>
        (if gen_idx cache' < length letterBytes
         then gen_loop rnd (i - 1) n' (drop_bit letterIdxBits cache') (remain' - 1)
                (result[nat i := letterBytes ! gen_idx cache'])
         else gen_loop rnd i n' (drop_bit letterIdxBits cache') (remain' - 1) result)))"

text \<open>
  \<open>Gen(length int16)\<close>: \<open>Inl\<close> is the panic of \<open>make\<close> on a negative length, \<open>None\<close> a loop that
  does not end.
\<close>

definition Gen :: "(nat \<Rightarrow> 64 word) \<Rightarrow> int \<Rightarrow> (string + string) option" where
  "Gen rnd len =
     (if len < 0 then Some (Inl ''makeslice: len out of range'')
      else map_option Inr
        (gen_loop rnd (len - 1) 1 (rnd 0) letterIdxMax (replicate (nat len) (CHR 0x00))))"

subsection \<open>What a returned alias looks like\<close>

lemma letterBytes_length [simp]: "length letterBytes = 62"
  by (simp add: letterBytes_def)

lemma letterIdxMax_eq [simp]: "letterIdxMax = 10"
  by (simp add: letterIdxMax_def letterIdxBits_def)

text \<open>
  The loop writes positions \<open>i\<close> down to 0 with letters and leaves the others alone.
\<close>

lemma gen_loop_result:
  assumes ret: "gen_loop rnd i n cache remain res = Some a"
  shows "i < int (length res) \<longrightarrow> length a = length res \<and>
    (\<forall>j < length res. (if int j \<le> i then a ! j \<in> set letterBytes else a ! j = res ! j))"
proof (rule gen_loop.raw_induct [where P = "\<lambda>rnd i n cache remain res a. i < int (length res) \<longrightarrow>
    length a = length res \<and>
    (\<forall>j < length res. (if int j \<le> i then a ! j \<in> set letterBytes else a ! j = res ! j))", OF _ ret])
  fix f rnd i n cache remain res a
  assume IH: "\<And>rnd i n cache remain res a. f rnd i n cache remain res = Some a \<Longrightarrow>
      i < int (length res) \<longrightarrow> length a = length res \<and>
      (\<forall>j < length res. (if int j \<le> i then a ! j \<in> set letterBytes else a ! j = res ! j))"
    and eq: "(if i < 0 then Some res
      else (case gen_refill rnd n cache remain of (n', cache', remain') \<Rightarrow>
        (if gen_idx cache' < length letterBytes
         then f rnd (i - 1) n' (drop_bit letterIdxBits cache') (remain' - 1)
                (res[nat i := letterBytes ! gen_idx cache'])
         else f rnd i n' (drop_bit letterIdxBits cache') (remain' - 1) res))) = Some a"
  show "i < int (length res) \<longrightarrow> length a = length res \<and>
      (\<forall>j < length res. (if int j \<le> i then a ! j \<in> set letterBytes else a ! j = res ! j))"
  proof
    assume bound: "i < int (length res)"
    show "length a = length res \<and>
      (\<forall>j < length res. (if int j \<le> i then a ! j \<in> set letterBytes else a ! j = res ! j))"
    proof (cases "i < 0")
      case True
      with eq show ?thesis by auto
    next
      case False
      obtain n' c' r' where st: "gen_refill rnd n cache remain = (n', c', r')"
        by (cases "gen_refill rnd n cache remain")
      show ?thesis
      proof (cases "gen_idx c' < length letterBytes")
        case True
        with False st eq have
          "f rnd (i - 1) n' (drop_bit letterIdxBits c') (r' - 1)
             (res[nat i := letterBytes ! gen_idx c']) = Some a" by simp
        from IH [OF this] bound have len: "length a = length res"
          and rest: "\<forall>j < length res. (if int j \<le> i - 1 then a ! j \<in> set letterBytes
                       else a ! j = (res[nat i := letterBytes ! gen_idx c']) ! j)"
          by auto
        have "if int j \<le> i then a ! j \<in> set letterBytes else a ! j = res ! j"
          if j: "j < length res" for j
        proof (cases "int j = i")
          case True
          with rest j False have "a ! j = letterBytes ! gen_idx c'"
            by (auto split: if_splits)
          with True \<open>gen_idx c' < length letterBytes\<close> show ?thesis by simp
        next
          case False
          with rest j \<open>\<not> i < 0\<close> show ?thesis
            by (auto split: if_splits simp: nth_list_update)
        qed
        with len show ?thesis by blast
      next
        case bad: False
        with False st eq have
          "f rnd i n' (drop_bit letterIdxBits c') (r' - 1) res = Some a" by simp
        from IH [OF this] bound show ?thesis by blast
      qed
    qed
  qed
qed

lemma Gen_letters:
  assumes "Gen rnd len = Some (Inr a)"
  shows "length a = nat len \<and> set a \<subseteq> set letterBytes"
proof -
  from assms have len: "\<not> len < 0"
    and loop: "gen_loop rnd (len - 1) 1 (rnd 0) letterIdxMax (replicate (nat len) (CHR 0x00)) = Some a"
    by (auto simp: Gen_def split: if_splits)
  from gen_loop_result [OF loop] len have "length a = nat len"
    and "\<forall>j < nat len. a ! j \<in> set letterBytes"
    by (auto split: if_splits)
  then show ?thesis by (auto simp: set_conv_nth [of a])
qed

subsection \<open>Termination\<close>

text \<open>
  A random word is usable if one of its ten six-bit groups indexes a letter.  If every word of
  the stream is usable, the loop ends.
\<close>

definition usable_group :: "64 word \<Rightarrow> nat \<Rightarrow> bool" where
  "usable_group w k \<longleftrightarrow> gen_idx (drop_bit (letterIdxBits * k) w) < length letterBytes"

definition usable_word :: "64 word \<Rightarrow> bool" where
  "usable_word w \<longleftrightarrow> (\<exists>k < letterIdxMax. usable_group w k)"

lemma usable_group_shift: "usable_group (drop_bit letterIdxBits w) k = usable_group w (Suc k)"
  by (simp add: usable_group_def add.commute)

text \<open>From a fresh enough word the loop reaches the next position.\<close>

lemma gen_loop_group:
  assumes next_pos: "\<And>n c r res. gen_loop rnd (i - 1) n c r res \<noteq> None"
    and group: "k < r" "usable_group c k" and i: "0 \<le> i"
  shows "gen_loop rnd i n c r res \<noteq> None"
  using group
proof (induction k arbitrary: c r)
  case 0
  then have "gen_idx c < length letterBytes" by (simp add: usable_group_def)
  with 0 i next_pos show ?case
    by (subst gen_loop.simps) (simp add: gen_refill_def)
next
  case (Suc k)
  from Suc.prems have "k < r - 1" and "usable_group (drop_bit letterIdxBits c) k"
    by (simp_all add: usable_group_shift)
  then have "gen_loop rnd i n (drop_bit letterIdxBits c) (r - 1) res \<noteq> None"
    by (rule Suc.IH)
  with Suc.prems i next_pos show ?case
    by (subst gen_loop.simps) (simp add: gen_refill_def)
qed

lemma gen_loop_position:
  assumes next_pos: "\<And>n c r res. gen_loop rnd (i - 1) n c r res \<noteq> None"
    and words: "\<And>n. usable_word (rnd n)" and i: "0 \<le> i"
  shows "gen_loop rnd i n c r res \<noteq> None"
proof (induction r arbitrary: n c)
  case 0
  obtain k where k: "k < letterIdxMax" "usable_group (rnd n) k"
    using words [of n] by (auto simp: usable_word_def)
  have "gen_loop rnd i (Suc n) (rnd n) letterIdxMax res \<noteq> None"
    using next_pos k i by (rule gen_loop_group)
  moreover have "gen_loop rnd i n c 0 res = gen_loop rnd i (Suc n) (rnd n) letterIdxMax res"
    by (subst (1 2) gen_loop.simps) (simp add: gen_refill_def)
  ultimately show ?case by simp
next
  case (Suc r)
  with i next_pos show ?case
    by (subst gen_loop.simps) (simp add: gen_refill_def)
qed

lemma gen_loop_total:
  assumes "\<And>n. usable_word (rnd n)"
  shows "gen_loop rnd (int m - 1) n c r res \<noteq> None"
proof (induction m arbitrary: n c r res)
  case 0
  show ?case by (subst gen_loop.simps) simp
next
  case (Suc m)
  have "gen_loop rnd (int m) n c r res \<noteq> None"
    by (rule gen_loop_position [OF Suc.IH assms]) simp
  then show ?case by simp
qed

lemma Gen_total:
  assumes "\<And>n. usable_word (rnd n)"
  shows "Gen rnd len \<noteq> None"
proof (cases "len < 0")
  case True
  then show ?thesis by (simp add: Gen_def)
next
  case False
  then have "gen_loop rnd (len - 1) 1 (rnd 0) letterIdxMax (replicate (nat len) (CHR 0x00)) \<noteq> None"
    using gen_loop_total [OF assms, where m = "nat len"] by simp
  with False show ?thesis by (simp add: Gen_def)
qed

subsection \<open>The groups of six bits\<close>

text \<open>
  The reference: number the groups of six bits of all random words, ten to a word, from the low end;
  the letters are those of the groups below 62, in this order.
\<close>

definition bit_group :: "(nat \<Rightarrow> 64 word) \<Rightarrow> nat \<Rightarrow> nat" where
  "bit_group rnd k = unat (drop_bit (6 * (k mod 10)) (rnd (k div 10)) AND 63)"

definition letters_between :: "(nat \<Rightarrow> 64 word) \<Rightarrow> nat \<Rightarrow> nat \<Rightarrow> string" where
  "letters_between rnd k N = map ((!) letterBytes) (filter (\<lambda>g. g < 62) (map (bit_group rnd) [k..<N]))"

text \<open>The variables of the loop when it is about to look at group \<open>k\<close>.\<close>

definition at_group :: "(nat \<Rightarrow> 64 word) \<Rightarrow> nat \<Rightarrow> nat \<Rightarrow> 64 word \<Rightarrow> nat \<Rightarrow> bool" where
  "at_group rnd k n c r \<longleftrightarrow> 0 < n \<and> r \<le> 10 \<and> k + r = 10 * n \<and> c = drop_bit (6 * (10 - r)) (rnd (n - 1))"

lemma gen_idx_mask: "gen_idx c = unat (c AND 63)"
  by (simp add: gen_idx_def letterIdxMask_def letterIdxBits_def)

lemma letters_step:
  "k < N \<Longrightarrow> letters_between rnd k N =
     (if bit_group rnd k < 62 then [letterBytes ! bit_group rnd k] else []) @ letters_between rnd (Suc k) N"
  by (simp add: letters_between_def upt_conv_Cons del: upt_Suc)

lemma letters_empty: "N \<le> k \<Longrightarrow> letters_between rnd k N = []"
  by (simp add: letters_between_def)

lemma at_group_step:
  assumes a: "at_group rnd k n c r" and s: "gen_refill rnd n c r = (n', c', r')"
  shows "gen_idx c' = bit_group rnd k \<and> at_group rnd (Suc k) n' (drop_bit letterIdxBits c') (r' - 1)"
proof (cases "r = 0")
  case True
  with a have "k = 10 * n" by (simp add: at_group_def)
  with True s show ?thesis
    by (auto simp: gen_refill_def at_group_def gen_idx_mask bit_group_def letterIdxBits_def)
next
  case False
  with a s have st: "n' = n" "c' = c" "r' = r" by (simp_all add: gen_refill_def)
  from a False have n: "0 < n" "r \<le> 10" "k + r = 10 * n" "0 < r" by (auto simp: at_group_def)
  then have k: "k = 10 * (n - 1) + (10 - r)" by (cases n) auto
  define s where "s = 10 - r"
  have "s < 10" "k = 10 * (n - 1) + s" using n k by (simp_all add: s_def)
  then have "k mod 10 = s" "k div 10 = n - 1" by simp_all
  with a st have "gen_idx c' = bit_group rnd k" by (simp add: gen_idx_mask bit_group_def at_group_def s_def)
  moreover have "6 + 6 * (10 - r) = 6 * (10 - (r - 1))" using n by auto
  then have "drop_bit 6 c = drop_bit (6 * (10 - (r - 1))) (rnd (n - 1))"
    using a by (simp add: at_group_def drop_bit_drop_bit add.commute)
  ultimately show ?thesis using st n by (auto simp: at_group_def letterIdxBits_def)
qed

lemma gen_loop_step:
  assumes "at_group rnd k n c r" "0 \<le> i"
  shows "\<exists>n' c' r'. at_group rnd (Suc k) n' c' r' \<and> gen_loop rnd i n c r res =
    (if bit_group rnd k < 62 then gen_loop rnd (i - 1) n' c' r' (res[nat i := letterBytes ! bit_group rnd k])
     else gen_loop rnd i n' c' r' res)"
proof -
  obtain n' c' r' where s: "gen_refill rnd n c r = (n', c', r')" by (cases "gen_refill rnd n c r")
  from at_group_step [OF assms(1) s] assms(2) s show ?thesis
    by (subst gen_loop.simps) (intro exI [of _ n'] exI [of _ "drop_bit letterIdxBits c'"] exI [of _ "r' - 1"], simp)
qed

text \<open>With enough usable groups the loop fills the slice from the right with the first of them.\<close>

lemma gen_loop_letters:
  assumes "at_group rnd k n c r" "m \<le> length (letters_between rnd k N)" "m \<le> length res"
  shows "gen_loop rnd (int m - 1) n c r res = Some (rev (take m (letters_between rnd k N)) @ drop m res)"
  using assms
proof (induction "N - k" arbitrary: k n c r m res)
  case 0
  then have "m = 0" by (simp add: letters_empty)
  then show ?case by (simp add: gen_loop.simps)
next
  case (Suc d)
  show ?case
  proof (cases m)
    case 0
    then show ?thesis by (simp add: gen_loop.simps)
  next
    case m: (Suc l)
    let ?L = "letters_between rnd (Suc k) N" and ?g = "bit_group rnd k"
    have L: "letters_between rnd k N = (if ?g < 62 then [letterBytes ! ?g] else []) @ ?L"
      using Suc.hyps(2) by (intro letters_step) simp
    have d: "d = N - Suc k" using Suc.hyps(2) by simp
    from gen_loop_step [OF Suc.prems(1), of "int l" res] obtain n' c' r' where
      at: "at_group rnd (Suc k) n' c' r'" and g: "gen_loop rnd (int l) n c r res =
        (if ?g < 62 then gen_loop rnd (int l - 1) n' c' r' (res[l := letterBytes ! ?g]) else gen_loop rnd (int l) n' c' r' res)"
      by auto
    show ?thesis
    proof (cases "?g < 62")
      case True
      let ?res = "res[l := letterBytes ! ?g]"
      have "gen_loop rnd (int l - 1) n' c' r' ?res = Some (rev (take l ?L) @ drop l ?res)"
        by (rule Suc.hyps(1) [OF d at]) (use Suc.prems(2,3) m L True in simp_all)
      moreover have "drop l ?res = letterBytes ! ?g # drop (Suc l) res"
        using Suc.prems(3) m Cons_nth_drop_Suc [of l ?res] by simp
      ultimately show ?thesis using g True L m by simp
    next
      case False
      have "gen_loop rnd (int m - 1) n' c' r' res = Some (rev (take m ?L) @ drop m res)"
        by (rule Suc.hyps(1) [OF d at]) (use Suc.prems(2,3) L False in simp_all)
      with g False L m show ?thesis by simp
    qed
  qed
qed

text \<open>And it returns only after as many usable groups.\<close>

lemma gen_loop_enough:
  assumes ret: "gen_loop rnd i n c r res = Some a" and "at_group rnd k n c r"
  shows "\<exists>N. nat (i + 1) \<le> length (letters_between rnd k N)"
proof -
  have "\<forall>k. at_group rnd k n c r \<longrightarrow> (\<exists>N. nat (i + 1) \<le> length (letters_between rnd k N))"
  proof (rule gen_loop.raw_induct [where P = "\<lambda>rnd i n c r res a. \<forall>k. at_group rnd k n c r \<longrightarrow>
      (\<exists>N. nat (i + 1) \<le> length (letters_between rnd k N))", OF _ ret])
    fix f rnd i n c r res a
    assume IH: "\<And>rnd i n c r res a. f rnd i n c r res = Some a \<Longrightarrow>
        \<forall>k. at_group rnd k n c r \<longrightarrow> (\<exists>N. nat (i + 1) \<le> length (letters_between rnd k N))"
      and eq: "(if i < 0 then Some res
        else (case gen_refill rnd n c r of (n', cache', remain') \<Rightarrow>
          (if gen_idx cache' < length letterBytes
           then f rnd (i - 1) n' (drop_bit letterIdxBits cache') (remain' - 1)
                  (res[nat i := letterBytes ! gen_idx cache'])
           else f rnd i n' (drop_bit letterIdxBits cache') (remain' - 1) res))) = Some a"
    show "\<forall>k. at_group rnd k n c r \<longrightarrow> (\<exists>N. nat (i + 1) \<le> length (letters_between rnd k N))"
    proof (intro allI impI)
      fix k assume at: "at_group rnd k n c r"
      obtain n' c' r' where s: "gen_refill rnd n c r = (n', c', r')" by (cases "gen_refill rnd n c r")
      note g = at_group_step [OF at s]
      show "\<exists>N. nat (i + 1) \<le> length (letters_between rnd k N)"
      proof (cases "i < 0")
        case True
        then show ?thesis by simp
      next
        case False
        obtain N where N: "nat (if bit_group rnd k < 62 then i else i + 1) \<le> length (letters_between rnd (Suc k) N)"
          using eq False s g IH by (cases "bit_group rnd k < 62") fastforce+
        show ?thesis
        proof (cases "k < N")
          case True
          with N False letters_step [OF True, of rnd] show ?thesis by (intro exI [of _ N]) (auto split: if_splits)
        next
          case le: False
          then have "letters_between rnd (Suc k) N = []" by (simp add: letters_empty)
          with N False have "bit_group rnd k < 62" "i = 0" by (auto split: if_splits)
          then show ?thesis by (intro exI [of _ "Suc k"]) (simp add: letters_between_def)
        qed
      qed
    qed
  qed
  with assms(2) show ?thesis by blast
qed

lemma Gen_reference:
  assumes "0 \<le> len"
  shows "Gen rnd len = Some (Inr a) \<longleftrightarrow>
    (\<exists>N. nat len \<le> length (letters_between rnd 0 N) \<and> a = rev (take (nat len) (letters_between rnd 0 N)))"
proof -
  let ?loop = "gen_loop rnd (len - 1) 1 (rnd 0) letterIdxMax (replicate (nat len) (CHR 0x00))"
  have at: "at_group rnd 0 1 (rnd 0) 10" by (simp add: at_group_def)
  have run: "?loop = Some (rev (take (nat len) (letters_between rnd 0 N)))" if "nat len \<le> length (letters_between rnd 0 N)" for N
    using gen_loop_letters [OF at that, of "replicate (nat len) (CHR 0x00)"] assms by simp
  have "\<exists>N. nat len \<le> length (letters_between rnd 0 N)" if "?loop = Some b" for b
    using gen_loop_enough [OF that] at by simp
  with run assms show ?thesis unfolding Gen_def by (auto; metis option.sel)
qed

subsection \<open>What the generator promises\<close>

text \<open>A stream of random words in which every group of six bits is 0, that is, the letter a.\<close>

lemma Gen_zeros: "Gen (\<lambda>_. 0) 2 = Some (Inr ''aa'')"
proof -
  have "gen_refill (\<lambda>_. 0) k 0 m = (if m = 0 then (Suc k, 0, 10) else (k, 0, m))" for k m
    by (simp add: gen_refill_def)
  moreover have "gen_idx 0 = 0" by (simp add: gen_idx_def)
  moreover have "gen_loop (\<lambda>_. 0) (- 1) k c r res = Some res" for k c r res
    by (simp add: gen_loop.simps)
  moreover have "letterBytes ! 0 = CHR ''a''" by (simp add: letterBytes_def)
  ultimately show ?thesis
    by (simp add: Gen_def gen_loop.simps [of "\<lambda>_. 0" 1] gen_loop.simps [of "\<lambda>_. 0" 0] numeral_2_eq_2)
qed

text \<open>
  An alias has exactly the length asked for, and every one of its characters is a letter or a
  digit, whatever the random words are.
\<close>

theorem alias_is_letters:
  assumes "Gen rnd len = Some (Inr a)"
  shows "length a = nat len \<and> set a \<subseteq> set letterBytes"
  using assms by (rule Gen_letters)

theorem alias_is_letters_witness: "length ''aa'' = nat 2 \<and> set ''aa'' \<subseteq> set letterBytes"
  by (rule alias_is_letters [OF Gen_zeros])

text \<open>
  C37: The generator that keeps one random word and shifts it gives what the plain description gives:
  number the groups of six bits of the random words, ten to a word; the alias of length n is the
  letters of the first n groups below 62, written from the last to the first.  The loop ends exactly
  when there are so many.
\<close>

theorem alias_of_bit_groups:
  "(Gen rnd len = Some (Inr a) \<longleftrightarrow> 0 \<le> len \<and>
     (\<exists>N. nat len \<le> length (letters_between rnd 0 N) \<and> a = rev (take (nat len) (letters_between rnd 0 N)))) \<and>
   (Gen rnd len = None \<longleftrightarrow> 0 \<le> len \<and> (\<nexists>N. nat len \<le> length (letters_between rnd 0 N)))"
proof (cases "0 \<le> len")
  case True
  have "Gen rnd len = None \<longleftrightarrow> (\<nexists>a. Gen rnd len = Some (Inr a))"
    using True by (cases "Gen rnd len") (auto simp: Gen_def)
  with True Gen_reference [OF True] show ?thesis by auto
qed (simp add: Gen_def)

text \<open>
  The generator ends, for every length, when each of the random words has one group of six bits
  among its ten that indexes a letter.
\<close>

theorem alias_generator_ends:
  assumes "\<And>n. usable_word (rnd n)"
  shows "Gen rnd len \<noteq> None"
  using assms by (rule Gen_total)

theorem alias_generator_ends_witness: "Gen (\<lambda>_. 0) 100 \<noteq> None"
  by (rule alias_generator_ends) (auto simp: usable_word_def usable_group_def gen_idx_def intro!: exI [of _ 0])

end
