(* ===== verification/Go_Strings.thy ===== *)
theory Go_Strings
  imports Go_Errors
begin

text \<open>
  The functions of Go's \<open>strings\<close>, \<open>strconv\<close> and \<open>net\<close> packages that the program
  calls, on ASCII strings: the white space of \<open>TrimSpace\<close> and the letters of \<open>ToLower\<close> are
  the ASCII ones.
\<close>

subsection \<open>Characters\<close>

definition code :: "char \<Rightarrow> nat" where
  "code c = of_char c"

definition isDigit :: "char \<Rightarrow> bool" where
  "isDigit c \<longleftrightarrow> 48 \<le> code c \<and> code c \<le> 57"

definition isSpace :: "char \<Rightarrow> bool" where
  "isSpace c \<longleftrightarrow> code c = 32 \<or> (9 \<le> code c \<and> code c \<le> 13)"

definition lowerChar :: "char \<Rightarrow> char" where
  "lowerChar c = (if 65 \<le> code c \<and> code c \<le> 90 then char_of (code c + 32) else c)"

definition digitChar :: "nat \<Rightarrow> char" where
  "digitChar d = char_of (48 + d)"

definition digitVal :: "char \<Rightarrow> nat" where
  "digitVal c = code c - 48"

lemma code_less: "code c < 256"
  by (simp add: code_def)

lemma code_char_of [simp]: "n < 256 \<Longrightarrow> code (char_of n) = n"
  by (simp add: code_def)

lemma code_eq_iff [simp]: "code c = code d \<longleftrightarrow> c = d"
  by (simp add: code_def)

lemma digitChar_simps [simp]:
  "d < 10 \<Longrightarrow> isDigit (digitChar d)"
  "d < 10 \<Longrightarrow> digitVal (digitChar d) = d"
  by (simp_all add: isDigit_def digitChar_def digitVal_def)

lemma lowerChar_digit [simp]: "isDigit c \<Longrightarrow> lowerChar c = c"
  by (simp add: isDigit_def lowerChar_def)

lemma lowerChar_space [simp]: "isSpace (lowerChar c) = isSpace c"
  by (auto simp: isSpace_def lowerChar_def)

lemma lowerChar_isDigit [simp]: "isDigit (lowerChar c) = isDigit c"
  by (auto simp: isDigit_def lowerChar_def)

lemma digit_not_space [simp]: "isDigit c \<Longrightarrow> \<not> isSpace c"
  by (auto simp: isDigit_def isSpace_def)

subsection \<open>strings.ToLower, strings.TrimSpace\<close>

definition ToLower :: "string \<Rightarrow> string" where
  "ToLower s = map lowerChar s"

definition TrimSpace :: "string \<Rightarrow> string" where
  "TrimSpace s = rev (dropWhile isSpace (rev (dropWhile isSpace s)))"

lemma ToLower_append [simp]: "ToLower (a @ b) = ToLower a @ ToLower b"
  by (simp add: ToLower_def)

lemma ToLower_digits [simp]: "list_all isDigit s \<Longrightarrow> ToLower s = s"
  by (simp add: ToLower_def list_all_iff map_idI)

lemma ToLower_spaces [simp]: "list_all isSpace (ToLower s) = list_all isSpace s"
  by (simp add: ToLower_def list_all_iff)

lemma dropWhile_all: "list_all P s \<Longrightarrow> dropWhile P (s @ t) = dropWhile P t"
  by (induction s) auto

text \<open>Trimming removes surrounding white space and nothing of a core without it at its ends.\<close>

lemma TrimSpace_core:
  assumes "list_all isSpace l" "list_all isSpace r"
    and "s \<noteq> []" "\<not> isSpace (hd s)" "\<not> isSpace (last s)"
  shows "TrimSpace (l @ s @ r) = s"
proof -
  have "dropWhile isSpace (l @ s @ r) = s @ r"
    using assms by (cases s) (simp_all add: dropWhile_all)
  moreover have "dropWhile isSpace (rev r @ rev s) = rev s"
    using assms by (subst dropWhile_all) (auto simp: list_all_iff dropWhile_eq_self_iff hd_rev)
  ultimately show ?thesis by (simp add: TrimSpace_def)
qed

subsection \<open>Decimal numbers: strconv.ParseInt, strconv.Atoi, decimal printing\<close>

fun decVal :: "string \<Rightarrow> nat \<Rightarrow> nat option" where
  "decVal [] acc = Some acc"
| "decVal (c # cs) acc = (if isDigit c then decVal cs (acc * 10 + digitVal c) else None)"

definition signedResult :: "bool \<Rightarrow> nat \<Rightarrow> nat \<Rightarrow> int result" where
  "signedResult neg n cutoff =
     (if \<not> neg \<and> n \<ge> cutoff then Inl (NewErr ''value out of range'')
      else if neg \<and> n > cutoff then Inl (NewErr ''value out of range'')
      else Inr (if neg then - int n else int n))"

text \<open>
  \<open>strconv.ParseInt(s, 10, bitSize)\<close>: an optional sign, at least one digit and only digits, and
  a value in the signed range of the size.
\<close>

definition ParseInt :: "string \<Rightarrow> nat \<Rightarrow> int result" where
  "ParseInt s bitSize =
     (let neg = (case s of c # _ \<Rightarrow> c = CHR ''-'' | [] \<Rightarrow> False);
          digits = (case s of c # cs \<Rightarrow> if c = CHR ''-'' \<or> c = CHR ''+'' then cs else s | [] \<Rightarrow> [])
      in if digits = [] then Inl (NewErr ''invalid syntax'')
         else (case decVal digits 0 of
                 None \<Rightarrow> Inl (NewErr ''invalid syntax'')
               | Some n \<Rightarrow> signedResult neg n (2 ^ (bitSize - 1))))"

definition Atoi :: "string \<Rightarrow> int result" where
  "Atoi s = ParseInt s 64"

text \<open>\<open>%d\<close> of a number that is not negative, and of any integer.\<close>

fun dec :: "nat \<Rightarrow> string" where
  "dec n = (if n < 10 then [digitChar n] else dec (n div 10) @ [digitChar (n mod 10)])"

declare dec.simps [simp del]

definition decInt :: "int \<Rightarrow> string" where
  "decInt x = (if x < 0 then CHR ''-'' # dec (nat (- x)) else dec (nat x))"

lemma decVal_append: "decVal (xs @ ys) a = (case decVal xs a of None \<Rightarrow> None | Some b \<Rightarrow> decVal ys b)"
  by (induction xs arbitrary: a) auto

lemma decVal_Some_iff: "decVal s a \<noteq> None \<longleftrightarrow> list_all isDigit s"
  by (induction s arbitrary: a) auto

lemma dec_digits: "list_all isDigit (dec n) \<and> dec n \<noteq> []"
proof (induction n rule: dec.induct)
  case (1 n)
  then show ?case by (cases "n < 10") (simp_all add: dec.simps [of n])
qed

lemma decVal_dec: "decVal (dec n) 0 = Some n"
proof (induction n rule: dec.induct)
  case (1 n)
  then show ?case
    by (cases "n < 10") (simp_all add: dec.simps [of n] decVal_append)
qed

text \<open>A string of digits parses to its value, or is out of range.\<close>

lemma ParseInt_digits:
  assumes "list_all isDigit s" "s \<noteq> []" "decVal s 0 = Some n"
  shows "ParseInt s b = (if n \<ge> 2 ^ (b - 1) then Inl (NewErr ''value out of range'') else Inr (int n))"
proof -
  from assms obtain c cs where s: "s = c # cs" and "isDigit c" by (cases s) auto
  then have "c \<noteq> CHR ''-''" "c \<noteq> CHR ''+''" by (auto simp: isDigit_def code_def)
  with assms s show ?thesis by (simp add: ParseInt_def signedResult_def)
qed

lemma signedResult_Inr:
  "signedResult neg n m = Inr x \<longleftrightarrow> (if neg then x = - int n \<and> n \<le> m else x = int n \<and> n < m)"
  by (auto simp: signedResult_def)

lemma ParseInt_Inr:
  assumes "ParseInt s b = Inr x"
  obtains n where "x = int n" "n < 2 ^ (b - 1)" | n where "x = - int n" "n \<le> 2 ^ (b - 1)"
proof -
  have "\<exists>neg n. signedResult neg n (2 ^ (b - 1)) = Inr x"
    using assms unfolding ParseInt_def Let_def by (auto split: if_splits option.splits)
  then obtain neg n where "if neg then x = - int n \<and> n \<le> 2 ^ (b - 1) else x = int n \<and> n < 2 ^ (b - 1)"
    unfolding signedResult_Inr by blast
  then show thesis using that by (metis (full_types))
qed

lemma ParseInt_range:
  assumes "ParseInt s b = Inr x"
  shows "- (2 ^ (b - 1)) \<le> x \<and> x < 2 ^ (b - 1)"
  using assms
proof (cases rule: ParseInt_Inr)
  case (1 n)
  then have "int n < 2 ^ (b - 1)" by simp
  moreover have "- (2 ^ (b - 1)) \<le> (0 :: int)" by simp
  ultimately show ?thesis using 1 by linarith
next
  case (2 n)
  then have "int n \<le> 2 ^ (b - 1)" by simp
  moreover have "(0 :: int) < 2 ^ (b - 1)" by simp
  ultimately show ?thesis using 2 by linarith
qed

lemma Atoi_Nil: "Atoi [] = Inl (NewErr ''invalid syntax'')"
  by (simp add: Atoi_def ParseInt_def)

lemma Atoi_dec: "n < 2 ^ 63 \<Longrightarrow> Atoi (dec n) = Inr (int n)"
  using ParseInt_digits [of "dec n" n 64] dec_digits [of n] by (simp add: Atoi_def decVal_dec)

subsection \<open>Searching and splitting\<close>

text \<open>\<open>strings.SplitN(s, " ", 2)\<close>.\<close>

fun breakAt :: "char \<Rightarrow> string \<Rightarrow> (string \<times> string) option" where
  "breakAt c [] = None"
| "breakAt c (x # xs) =
     (if x = c then Some ([], xs)
      else (case breakAt c xs of None \<Rightarrow> None | Some (a, b) \<Rightarrow> Some (x # a, b)))"

definition SplitN2 :: "char \<Rightarrow> string \<Rightarrow> string list" where
  "SplitN2 c s = (case breakAt c s of None \<Rightarrow> [s] | Some (a, b) \<Rightarrow> [a, b])"

lemma breakAt_Some: "breakAt c s = Some (a, b) \<longleftrightarrow> s = a @ c # b \<and> c \<notin> set a"
proof (induction s arbitrary: a)
  case Nil
  then show ?case by simp
next
  case (Cons x xs)
  note IH = Cons.IH
  show ?case
  proof (cases "x = c")
    case True
    then show ?thesis by (cases a) auto
  next
    case False
    show ?thesis
    proof (cases a)
      case Nil
      with False show ?thesis by (simp split: option.splits)
    next
      case (Cons y a')
      have "breakAt c (x # xs) = Some (a, b) \<longleftrightarrow> y = x \<and> breakAt c xs = Some (a', b)"
        using False Cons by (auto split: option.splits)
      with IH False Cons show ?thesis by auto
    qed
  qed
qed

lemma breakAt_None: "breakAt c s = None \<longleftrightarrow> c \<notin> set s"
  by (induction s) (auto split: option.splits)

text \<open>Splitting on every occurrence (\<open>strings.Split\<close>).\<close>

function Split :: "char \<Rightarrow> string \<Rightarrow> string list" where
  "Split c s = (case breakAt c s of None \<Rightarrow> [s] | Some (a, b) \<Rightarrow> a # Split c b)"
  by pat_completeness auto
termination
  by (relation "measure (\<lambda>(c, s). length s)") (auto simp: breakAt_Some)

declare Split.simps [simp del]

text \<open>
  \<open>net.SplitHostPort\<close>: the port follows the last colon; the host may be an IPv6 address in
  brackets, and is otherwise free of colons; stray brackets are refused.
\<close>

definition SplitHostPort :: "string \<Rightarrow> (string \<times> string) option" where
  "SplitHostPort hp =
     (case breakAt (CHR '':'') (rev hp) of
        None \<Rightarrow> None
      | Some (rport, rrest) \<Rightarrow>
          let port = rev rport; front = rev rrest in
          (case hp of
             CHR ''['' # inner \<Rightarrow>
               (case breakAt (CHR '']'') inner of
                  None \<Rightarrow> None
                | Some (host, rest) \<Rightarrow>
                    if rest = CHR '':'' # port then
                      (if CHR ''['' \<in> set host \<or> CHR ''['' \<in> set rest \<or> CHR '']'' \<in> set rest
                       then None else Some (host, port))
                    else None)
           | _ \<Rightarrow>
               if CHR '':'' \<in> set front then None
               else if CHR ''['' \<in> set hp \<or> CHR '']'' \<in> set hp then None
               else Some (front, port)))"

end
