(* ===== verification/Sizes.thy ===== *)
theory Sizes
  imports Go_Strings Entities "HOL-Library.Signed_Division"
begin

text \<open>
  \<open>internal/lib/sizes/sizes.go\<close> (\<open>ToBytes\<close>, \<open>ToFormattedString\<close>) and the part of
  \<open>internal/config/config.go\<close> that uses it (\<open>setPermissionsConfig\<close>): sizes such as \<open>500mb\<close>
  of the configuration become byte counts, and byte counts are printed.
  \<open>math.Pow(2, 10 * idx)\<close> is a power of two up to \<open>2^40\<close>, which float64 holds exactly; the product
  is an int64 product and wraps.
\<close>

definition unitSizes :: "string list" where
  "unitSizes = [''b'', ''kb'', ''mb'', ''gb'', ''tb'']"

text \<open>The loop over the string: the index of the first symbol that is no digit, else the last index.\<close>

fun lastNumberIndex :: "nat \<Rightarrow> nat \<Rightarrow> string \<Rightarrow> nat" where
  "lastNumberIndex i prev [] = prev"
| "lastNumberIndex i prev (symbol # rest) =
     (if \<not> isDigit symbol then i else lastNumberIndex (Suc i) i rest)"

fun slices_Index :: "'a list \<Rightarrow> 'a \<Rightarrow> nat option" where
  "slices_Index [] y = None"
| "slices_Index (x # xs) y = (if x = y then Some 0 else map_option Suc (slices_Index xs y))"

definition ToBytes :: "string \<Rightarrow> int result" where
  "ToBytes value0 =
     (let value = TrimSpace (ToLower value0);
          k = lastNumberIndex 0 0 value
      in if k = 0 then Inl (NewErr (''invalid size: '' @ value))
         else (case Atoi (take k value) of
                 Inl _ \<Rightarrow> Inl (NewErr (''failed to convert to int: '' @ value))
               | Inr number \<Rightarrow>
                   (case slices_Index unitSizes (drop k value) of
                      None \<Rightarrow> Inl (NewErr (''invalid size: '' @ value))
                    | Some unitIdx \<Rightarrow> Inr (wrap64 (number * 2 ^ (10 * unitIdx))))))"

definition setPermissionsConfig :: "permissions \<Rightarrow> permissions result" where
  "setPermissionsConfig cfg =
     (let errMsg = ''failed to parse max file size in config: '' in
      case ToBytes (MaxFilesSizeForUser cfg) of
        Inl err \<Rightarrow> Inl (errorf errMsg err)
      | Inr bytes \<Rightarrow>
          (let cfg' = cfg\<lparr>MaxFilesSizeForUserInBytes := bytes\<rparr> in
           case ToBytes (MaxFilesSizeForVip cfg') of
             Inl err \<Rightarrow> Inl (errorf errMsg err)
           | Inr bytes' \<Rightarrow> Inr (cfg'\<lparr>MaxFilesSizeForVipInBytes := bytes'\<rparr>)))"

subsection \<open>Parsing\<close>

lemma slices_Index_Some: "slices_Index xs y = Some i \<Longrightarrow> i < length xs \<and> xs ! i = y"
  by (induction xs arbitrary: i) (auto split: if_splits)

lemma slices_Index_distinct: "distinct xs \<Longrightarrow> i < length xs \<Longrightarrow> slices_Index xs (xs ! i) = Some i"
proof (induction xs arbitrary: i)
  case Nil
  then show ?case by simp
next
  case (Cons x xs)
  then show ?case by (cases i) auto
qed

lemma unitSizes_props: "distinct unitSizes" "length unitSizes = 5"
  by (simp_all add: unitSizes_def)

lemma unit_not_digit:
  assumes "u < 5"
  shows "unitSizes ! u \<noteq> [] \<and> list_all (\<lambda>c. \<not> isDigit c \<and> \<not> isSpace c) (unitSizes ! u)"
proof -
  from assms have "u = 0 \<or> u = 1 \<or> u = 2 \<or> u = 3 \<or> u = 4" by arith
  then show ?thesis
    by (auto simp: unitSizes_def isDigit_def isSpace_def code_def)
qed

lemma lastNumberIndex_digits:
  assumes "list_all isDigit ds" "ds \<noteq> []" "cs = [] \<or> \<not> isDigit (hd cs)"
  shows "lastNumberIndex i l (ds @ cs) =
    (if cs = [] then i + length ds - 1 else i + length ds)"
  using assms
proof (induction ds arbitrary: i l)
  case Nil
  then show ?case by simp
next
  case (Cons d ds)
  then show ?case by (cases "ds = []"; cases cs) auto
qed

lemma lastNumberIndex_split:
  "lastNumberIndex 0 0 s = k \<Longrightarrow> 0 < k \<Longrightarrow> list_all isDigit (take k s)"
proof -
  assume k: "lastNumberIndex 0 0 s = k" "0 < k"
  define ds where "ds = takeWhile isDigit s"
  define cs where "cs = dropWhile isDigit s"
  have s: "s = ds @ cs" by (simp add: ds_def cs_def)
  have ds: "list_all isDigit ds" by (auto simp: ds_def list_all_iff dest: set_takeWhileD)
  have cs: "cs = [] \<or> \<not> isDigit (hd cs)" by (metis cs_def hd_dropWhile)
  have "ds \<noteq> []"
  proof
    assume "ds = []"
    with s k cs show False by (cases s) auto
  qed
  with lastNumberIndex_digits [OF ds this cs, of 0 0] k s
  have "k \<le> length ds" by (auto split: if_splits)
  with s ds show ?thesis by (auto simp: list_all_iff dest: in_set_takeD)
qed

text \<open>The accepted strings and their values.\<close>

lemma ToBytes_trimmed:
  assumes "TrimSpace (ToLower value0) = ds @ unitSizes ! u"
    and "list_all isDigit ds" "ds \<noteq> []" "decVal ds 0 = Some n" "n < 2 ^ 63" "u < 5"
  shows "ToBytes value0 = Inr (wrap64 (int n * 2 ^ (10 * u)))"
proof -
  note unit = unit_not_digit [OF \<open>u < 5\<close>]
  have "\<not> isDigit (hd (unitSizes ! u))" using unit by (auto simp: list_all_iff)
  then have k: "lastNumberIndex 0 0 (ds @ unitSizes ! u) = length ds"
    using lastNumberIndex_digits [OF assms(2,3), of "unitSizes ! u" 0 0] unit by simp
  have "Atoi ds = Inr (int n)"
    using ParseInt_digits [OF assms(2,3,4), of 64] assms(5) by (simp add: Atoi_def)
  moreover have "slices_Index unitSizes (unitSizes ! u) = Some u"
    using slices_Index_distinct [of unitSizes u] unitSizes_props \<open>u < 5\<close> by simp
  ultimately show ?thesis
    using assms(1) k \<open>ds \<noteq> []\<close> by (simp add: ToBytes_def)
qed

lemma ToBytes_Inr_shape:
  assumes "ToBytes value0 = Inr b"
  obtains ds u n where "TrimSpace (ToLower value0) = ds @ unitSizes ! u" "u < 5"
    "list_all isDigit ds" "ds \<noteq> []" "decVal ds 0 = Some n" "n < 2 ^ 63"
    "b = wrap64 (int n * 2 ^ (10 * u))"
proof -
  let ?v = "TrimSpace (ToLower value0)"
  let ?k = "lastNumberIndex 0 0 ?v"
  from assms obtain x u where k: "0 < ?k" and x: "Atoi (take ?k ?v) = Inr x"
    and u: "slices_Index unitSizes (drop ?k ?v) = Some u"
    and b: "b = wrap64 (x * 2 ^ (10 * u))"
    by (auto simp: ToBytes_def Let_def split: if_splits sum.splits option.splits)
  have digits: "list_all isDigit (take ?k ?v)" using lastNumberIndex_split k by blast
  then obtain n where n: "decVal (take ?k ?v) 0 = Some n"
    using decVal_Some_iff [of "take ?k ?v" 0] by auto
  have ne: "take ?k ?v \<noteq> []" using x Atoi_Nil by (metis Inl_Inr_False)
  from ParseInt_digits [OF digits ne n, of 64] x have "n < 2 ^ 63" "x = int n"
    by (auto simp: Atoi_def split: if_splits)
  moreover have "?v = take ?k ?v @ unitSizes ! u" "u < 5"
    using slices_Index_Some [OF u] unitSizes_props by (simp_all)
  ultimately show thesis using that digits ne n b by metis
qed

text \<open>
  C38: A size is accepted exactly when, lower-cased and without the spaces around it, it is a decimal
  number below 2^63 directly followed by one of the five units; its value is the number times the
  unit, as an int64 that wraps: 8388608 terabytes come out negative.
\<close>

theorem size_strings:
  "(ToBytes value0 = Inr b \<longleftrightarrow>
     (\<exists>ds u n. TrimSpace (ToLower value0) = ds @ unitSizes ! u \<and> u < 5 \<and> list_all isDigit ds \<and> ds \<noteq> [] \<and>
        decVal ds 0 = Some n \<and> n < 2 ^ 63 \<and> b = wrap64 (int n * 2 ^ (10 * u)))) \<and>
   ToBytes ''500MB'' = Inr 524288000 \<and> ToBytes ''8388608tb'' = Inr (- (2 ^ 63))"
proof (intro conjI)
  show "ToBytes value0 = Inr b \<longleftrightarrow>
     (\<exists>ds u n. TrimSpace (ToLower value0) = ds @ unitSizes ! u \<and> u < 5 \<and> list_all isDigit ds \<and> ds \<noteq> [] \<and>
        decVal ds 0 = Some n \<and> n < 2 ^ 63 \<and> b = wrap64 (int n * 2 ^ (10 * u)))"
    using ToBytes_Inr_shape [of value0 b] ToBytes_trimmed by metis
  have low: "ToLower ''500MB'' = ''500mb''" "ToLower ''8388608tb'' = ''8388608tb''"
    by (simp_all add: ToLower_def lowerChar_def code_def char_of_def bit_numeral_rec bit_0)
  have dig: "list_all isDigit ''500''" "decVal ''500'' 0 = Some 500"
    "list_all isDigit ''8388608''" "decVal ''8388608'' 0 = Some 8388608"
    by (simp_all add: isDigit_def digitVal_def code_def)
  have u: "unitSizes ! 2 = ''mb''" "unitSizes ! 4 = ''tb''" by (simp_all add: unitSizes_def)
  have trim: "TrimSpace ''500mb'' = ''500mb''" "TrimSpace ''8388608tb'' = ''8388608tb''"
    by (simp_all add: TrimSpace_def isSpace_def code_def)
  show "ToBytes ''500MB'' = Inr 524288000"
    using ToBytes_trimmed [of "''500MB''" "''500''" 2 500] low dig u trim by (simp add: wrap64_id)
  show "ToBytes ''8388608tb'' = Inr (- (2 ^ 63))"
    using ToBytes_trimmed [of "''8388608tb''" "''8388608''" 4 8388608] low dig u trim by (simp add: wrap64_def)
qed

subsection \<open>Printing\<close>

text \<open>
  \<open>fmt.Sprintf("%.2f", n / d)\<close>, \<open>d\<close> a power of two: the quotient in hundredths, to the nearest, a
  tie to the even one.  For a size below \<open>2^53\<close> \<open>float64(value)\<close> and the quotient are exact.
\<close>

definition hundredths :: "int \<Rightarrow> int \<Rightarrow> int" where
  "hundredths n d =
     (let q = (100 * n) div d; r = (100 * n) mod d in
      if 2 * r < d then q else if 2 * r > d then q + 1 else if even q then q else q + 1)"

definition fixed2 :: "int \<Rightarrow> int \<Rightarrow> string" where
  "fixed2 n d =
     (let h = hundredths n d in
      decInt (h div 100) @ ''.'' @ decInt (h mod 100 div 10) @ decInt (h mod 10))"

text \<open>
  \<open>log2\<close> is \<open>int(math.Log2(float64(value)))\<close>.  An index outside \<open>unitSizes\<close> panics, as it does for
  0, where the logarithm is \<open>-Inf\<close> and the conversion gives the smallest int64.
\<close>

definition ToFormattedString :: "(int \<Rightarrow> int) \<Rightarrow> int \<Rightarrow> string run" where
  "ToFormattedString log2 value =
     (if value < 0 then Returns ''0b''
      else (let unitIdx = log2 value sdiv 10 in
            if unitIdx < 0 \<or> unitIdx \<ge> int (length unitSizes) then Panics ''index out of range''
            else Returns (fixed2 value (2 ^ (10 * nat unitIdx)) @ unitSizes ! nat unitIdx)))"

text \<open>Where the floating-point logarithm, rounded towards zero, is the exact one.\<close>

definition log2_exact :: "(int \<Rightarrow> int) \<Rightarrow> int \<Rightarrow> bool" where
  "log2_exact log2 v \<longleftrightarrow> 0 \<le> log2 v \<and> 2 ^ nat (log2 v) \<le> v \<and> v < 2 ^ (nat (log2 v) + 1)"

lemma hundredths_close:
  assumes "0 < d"
  shows "\<bar>hundredths n d * d - 100 * n\<bar> * 2 \<le> d"
proof -
  define q r where "q = (100 * n) div d" and "r = (100 * n) mod d"
  have q: "q * d = 100 * n - r" using div_mult_mod_eq [of "100 * n" d] unfolding q_def r_def by linarith
  have r: "0 \<le> r" "r < d" using assms by (simp_all add: r_def)
  from q have q1: "(q + 1) * d = 100 * n - r + d" by (simp add: distrib_right)
  have "hundredths n d * d = 100 * n - r \<and> 2 * r \<le> d \<or> hundredths n d * d = 100 * n - r + d \<and> d \<le> 2 * r"
    using q q1 unfolding hundredths_def Let_def q_def [symmetric] r_def [symmetric] by simp
  with r show ?thesis by auto
qed

lemma hundredths_range:
  assumes "d \<le> n" "n < 1024 * d" "0 < d"
  shows "100 \<le> hundredths n d \<and> hundredths n d \<le> 102400"
proof -
  define h where "h = hundredths n d * d"
  have "\<bar>h - 100 * n\<bar> * 2 \<le> d" using hundredths_close [OF assms(3)] by (simp add: h_def)
  with assms have "199 * d \<le> 2 * h" and "2 * h < 204801 * d" by (auto simp: abs_if split: if_splits)
  then have "199 * d \<le> (2 * hundredths n d) * d" and lt: "(2 * hundredths n d) * d < 204801 * d"
    unfolding h_def by (simp_all only: mult.assoc)
  from mult_right_le_imp_le [OF this(1) assms(3)] mult_right_less_imp_less [OF lt] assms(3)
  have "199 \<le> 2 * hundredths n d" "2 * hundredths n d < 204801" by simp_all
  then show ?thesis by arith
qed

text \<open>
  Printing a size of at least one byte and less than a petabyte picks the largest unit that is not
  larger than the size, and the printed number of units, which lies between 1.00 and 1024.00, is off
  by at most half a hundredth of the unit; a size of a petabyte or more panics.
\<close>

theorem printed_size_is_close:
  assumes "1 \<le> v" "log2_exact log2 v"
  shows "(if v < 2 ^ 50 then
      (\<exists>u h. ToFormattedString log2 v =
           Returns (decInt (h div 100) @ ''.'' @ decInt (h mod 100 div 10) @ decInt (h mod 10) @ unitSizes ! u) \<and>
         u < 5 \<and> 2 ^ (10 * u) \<le> v \<and> v < 2 ^ (10 * (u + 1)) \<and> 100 \<le> h \<and> h \<le> 102400 \<and>
         \<bar>h * 2 ^ (10 * u) - 100 * v\<bar> * 2 \<le> 2 ^ (10 * u))
      else ToFormattedString log2 v = Panics ''index out of range'')"
proof -
  define e where "e = nat (log2 v)"
  define u where "u = e div 10"
  have e: "log2 v = int e" "2 ^ e \<le> v" "v < 2 ^ (e + 1)" using assms(2) by (auto simp: log2_exact_def e_def)
  have idx: "log2 v sdiv 10 = int u" by (cases "e = 0") (simp_all add: e u_def signed_divide_int_def zdiv_int)
  have le: "(2 :: int) ^ (10 * u) \<le> 2 ^ e" "(2 :: int) ^ (e + 1) \<le> 2 ^ (10 * (u + 1))"
    unfolding u_def by (intro power_increasing; simp)+
  have v: "2 ^ (10 * u) \<le> v" "v < 2 ^ (10 * (u + 1))" using e le by linarith+
  show ?thesis
  proof (cases "u < 5")
    case True
    then have "10 * (u + 1) \<le> 50" by simp
    then have "(2 :: int) ^ (10 * (u + 1)) \<le> 2 ^ 50" by (intro power_increasing) simp_all
    with v have small: "v < 2 ^ 50" by linarith
    have "v < 1024 * 2 ^ (10 * u)" using v(2) by (simp add: power_add)
    note h = hundredths_close [of "2 ^ (10 * u)" v] hundredths_range [OF v(1) this]
    have "ToFormattedString log2 v = Returns (fixed2 v (2 ^ (10 * u)) @ unitSizes ! u)"
      using assms(1) True idx by (simp add: ToFormattedString_def unitSizes_def)
    then show ?thesis unfolding if_P [OF small]
      using v True h by (intro exI [of _ u] exI [of _ "hundredths v (2 ^ (10 * u))"]) (simp add: fixed2_def Let_def)
  next
    case False
    then have "(2 :: int) ^ 50 \<le> 2 ^ (10 * u)" by (intro power_increasing) simp_all
    with v have "\<not> v < 2 ^ 50" by linarith
    with False assms(1) idx show ?thesis by (simp add: ToFormattedString_def unitSizes_def)
  qed
qed

theorem printed_size_is_close_witness:
  "ToFormattedString (\<lambda>v. 27) (128 * 1024 * 1024) \<noteq> Panics ''index out of range''"
  using printed_size_is_close [of "128 * 1024 * 1024" "\<lambda>v. 27"] by (auto simp: log2_exact_def)

end
