(* ===== verification/File_Service.thy ===== *)
theory File_Service
  imports Interfaces Alias_Gen Sizes
begin

text \<open>
  \<open>internal/services/files\<close>: the file service over its two interfaces.  The service value holds
  the repository and the storage as method tables, the configuration, the two bcrypt functions
  (a third-party package: parameters) and the reading of the clock that \<open>time.Until\<close> uses.

  What the service guarantees when the two contracts hold is proved in \<open>File_Vault.thy\<close>, and
  interpreted on the database and the local storage in \<open>Deployment.thy\<close>.
\<close>

subsection \<open>The service value\<close>

text \<open>
  \<open>bcrypt_Generate salt password\<close> is \<open>bcrypt.GenerateFromPassword\<close>, which draws a random salt;
  \<open>bcrypt_Compare hash password\<close> holds when \<open>bcrypt.CompareHashAndPassword\<close> returns nil.
\<close>

record bcrypt =
  bcrypt_Generate :: "nat \<Rightarrow> string \<Rightarrow> ext_err + string"
  bcrypt_Compare :: "string \<Rightarrow> string \<Rightarrow> bool"

record 'w service =
  fs_fileRepo :: "'w file_repo"
  fs_fileStorage :: "'w file_storage"
  fs_cfg :: service_cfg
  fs_bcrypt :: bcrypt
  fs_now :: "'w \<Rightarrow> instant"

definition NewService ::
  "'w file_repo \<Rightarrow> 'w file_storage \<Rightarrow> service_cfg \<Rightarrow> bcrypt \<Rightarrow> ('w \<Rightarrow> instant) \<Rightarrow> 'w service" where
  "NewService fileRepo fileStorage cfg B now =
     \<lparr>fs_fileRepo = fileRepo, fs_fileStorage = fileStorage, fs_cfg = cfg, fs_bcrypt = B,
      fs_now = now\<rparr>"

subsection \<open>access.go\<close>

fun hasRole :: "user_role list \<Rightarrow> user_role \<Rightarrow> bool" where
  "hasRole [] role = False"
| "hasRole (r # roles) role = (if r = role then True else hasRole roles role)"

definition checkOwner :: "file_info \<Rightarrow> int \<Rightarrow> goerr option" where
  "checkOwner fileInfo userID =
     (if f_UserID fileInfo \<noteq> userID then Some (Sentinel ErrForbidden) else None)"

definition checkAccess :: "file_info \<Rightarrow> int \<Rightarrow> user_role list \<Rightarrow> goerr option" where
  "checkAccess fileInfo userID roles =
     (if hasRole roles RoleAdmin then None else checkOwner fileInfo userID)"

definition checkUploadQuote ::
  "service_cfg \<Rightarrow> files_stat \<Rightarrow> int \<Rightarrow> user_role list \<Rightarrow> goerr option" where
  "checkUploadQuote cfg stat filesize roles =
     (if hasRole roles RoleAdmin then None
      else if fst_Count stat \<ge> MaxUploadedFiles (Permissions cfg)
      then Some (Sentinel ErrUploadLimitExceeded)
      else if hasRole roles RoleVip \<and>
          wrap64 (fst_Size stat + filesize) < MaxFilesSizeForVipInBytes (Permissions cfg)
      then None
      else if hasRole roles RoleUser \<and>
          wrap64 (fst_Size stat + filesize) < MaxFilesSizeForUserInBytes (Permissions cfg)
      then None
      else Some (Sentinel ErrFileSizeTooBig))"

definition checkPassword :: "bcrypt \<Rightarrow> file_info \<Rightarrow> string \<Rightarrow> goerr option" where
  "checkPassword B fileInfo password =
     (if f_PasswordHash fileInfo \<noteq> [] \<and> password = [] then Some (Sentinel ErrFilePasswordRequired)
      else if \<not> bcrypt_Compare B (f_PasswordHash fileInfo) password \<and> f_PasswordHash fileInfo \<noteq> []
      then Some (Sentinel ErrFilePasswordInvalid)
      else None)"

record user_limits =
  ul_MaxUploadedFiles :: int
  ul_MaxSize :: int

definition getUserLimits :: "service_cfg \<Rightarrow> user_role list \<Rightarrow> user_limits" where
  "getUserLimits cfg roles =
     (if hasRole roles RoleAdmin \<or> hasRole roles RoleVip
      then \<lparr>ul_MaxUploadedFiles = MaxUploadedFiles (Permissions cfg),
            ul_MaxSize = MaxFilesSizeForVipInBytes (Permissions cfg)\<rparr>
      else \<lparr>ul_MaxUploadedFiles = MaxUploadedFiles (Permissions cfg),
            ul_MaxSize = MaxFilesSizeForUserInBytes (Permissions cfg)\<rparr>)"

lemma hasRole_iff [simp]: "hasRole roles r \<longleftrightarrow> r \<in> set roles"
  by (induction roles) auto

subsection \<open>Errors of the service\<close>

text \<open>
  The recurring shape of the error branches: errors that the test lets through are returned as
  they are, the others are wrapped with the function name and a message.
\<close>

definition svc_err :: "(goerr \<Rightarrow> bool) \<Rightarrow> string \<Rightarrow> string \<Rightarrow> goerr \<Rightarrow> goerr" where
  "svc_err through fn msg err =
     (if through err then err else errorf (fn @ '': '' @ msg @ '': '') err)"

definition not_found_or_ctx :: "goerr \<Rightarrow> bool" where
  "not_found_or_ctx err \<longleftrightarrow> errors_Is err (Sentinel ErrFileNotFound) \<or> isCtxError err"

definition user_not_found_or_ctx :: "goerr \<Rightarrow> bool" where
  "user_not_found_or_ctx err \<longleftrightarrow> errors_Is err (Sentinel ErrUserNotFound) \<or> isCtxError err"

lemma is_domain_svc_err [simp]: "is_domain (svc_err P fn msg e) s \<longleftrightarrow> is_domain e s"
  by (simp add: svc_err_def)

lemma isCtxError_svc_err [simp]: "isCtxError (svc_err P fn msg e) \<longleftrightarrow> isCtxError e"
  by (simp add: svc_err_def)

subsection \<open>download.go\<close>

text \<open>
  The body of the transaction, up to the deferred function: \<open>None\<close> when it sets \<open>success\<close>.
\<close>

definition download_in_tx :: "'w service \<Rightarrow> string \<Rightarrow> tx \<Rightarrow> 'w \<Rightarrow> goerr option \<times> 'w" where
  "download_in_tx fs alias t w =
     (let fn = ''services.files.Service.DownloadFile'';
          repo = fs_fileRepo fs; storage = fs_fileStorage fs in
      case repo_DecrementDownloadsByAliasTx repo t alias w of
        (Inl err, w1) \<Rightarrow> (Some (svc_err isCtxError fn ''failed to decrement downloads left'' err), w1)
      | (Inr downloadsLeft, w1) \<Rightarrow>
     (if downloadsLeft > 0 then
        (case repo_Commit repo t w1 of
           (Some err, w2) \<Rightarrow> (Some (errorf (fn @ '': failed to commit tx: '') err), w2)
         | (None, w2) \<Rightarrow> (None, w2))
      else
     (case repo_DeleteFileTx repo t alias w1 of
        (Some err, w2) \<Rightarrow> (Some (svc_err isCtxError fn ''failed to delete file info'' err), w2)
      | (None, w2) \<Rightarrow>
     (case st_Delete storage alias w2 of
        (Some err, w3) \<Rightarrow> (Some (svc_err isCtxError fn ''failed to delete file'' err), w3)
      | (None, w3) \<Rightarrow>
     (case repo_Commit repo t w3 of
        (Some err, w4) \<Rightarrow> (Some (errorf (fn @ '': failed to commit delete: '') err), w4)
      | (None, w4) \<Rightarrow> (None, w4))))))"

text \<open>The deferred function of a download that does not succeed: close the file, roll back.\<close>

definition abandon_download :: "'w service \<Rightarrow> download_result \<Rightarrow> tx \<Rightarrow> 'w \<Rightarrow> 'w" where
  "abandon_download fs result t w =
     snd (repo_Rollback (fs_fileRepo fs) t (snd (st_Close (fs_fileStorage fs) (dr_fd result) w)))"

definition Service_DownloadFile ::
  "'w service \<Rightarrow> download_file \<Rightarrow> 'w \<Rightarrow> download_result result \<times> 'w" where
  "Service_DownloadFile fs command w =
     (let fn = ''services.files.Service.DownloadFile''; alias = df_Alias command;
          repo = fs_fileRepo fs; storage = fs_fileStorage fs in
      case repo_GetFileByAlias repo alias w of
        (Inl err, w1) \<Rightarrow>
          (Inl (svc_err not_found_or_ctx fn ''failed to get file by alias'' err), w1)
      | (Inr fileInfo, w1) \<Rightarrow>
     (case checkPassword (fs_bcrypt fs) fileInfo (df_Password command) of
        Some err \<Rightarrow> (Inl (errorf (fn @ '': access denied: '') err), w1)
      | None \<Rightarrow>
     (case st_Download storage alias w1 of
        (Inl err, w2) \<Rightarrow>
          (Inl (svc_err not_found_or_ctx fn ''failed to download file from storage'' err), w2)
      | (Inr result, w2) \<Rightarrow>
     (case repo_BeginTx repo w2 of
        (Inl err, w3) \<Rightarrow>
          (Inl (errorf (fn @ '': failed to begin tx: '') err),
           snd (st_Close storage (dr_fd result) w3))
      | (Inr t, w3) \<Rightarrow>
     (case download_in_tx fs alias t w3 of
        (Some err, w4) \<Rightarrow> (Inl err, abandon_download fs result t w4)
      | (None, w4) \<Rightarrow> (Inr result, w4))))))"

subsection \<open>upload.go\<close>

definition abandon_tx :: "'w service \<Rightarrow> tx \<Rightarrow> 'w \<Rightarrow> 'w" where
  "abandon_tx fs t w = snd (repo_Rollback (fs_fileRepo fs) t w)"

text \<open>
  \<open>rnd\<close> is the stream of random words the alias is drawn from and \<open>salt\<close> the randomness of
  bcrypt.  The call panics or diverges where \<open>alias.Gen\<close> does.
\<close>

definition hash_password :: "bcrypt \<Rightarrow> nat \<Rightarrow> string \<Rightarrow> ext_err + string" where
  "hash_password B salt password =
     (if length password > 0 then bcrypt_Generate B salt password else Inr [])"

definition upload_in_tx ::
  "'w service \<Rightarrow> upload_file \<Rightarrow> string \<Rightarrow> string \<Rightarrow> tx \<Rightarrow> 'w \<Rightarrow> goerr option \<times> 'w" where
  "upload_in_tx fs command genAlias hashedBytes t w =
     (let fn = ''services.file.Service.UploadFile'';
          repo = fs_fileRepo fs; storage = fs_fileStorage fs in
      case repo_AddFileTx repo t
             \<lparr>af_Filename = uf_Filename command, af_Filesize = uf_Filesize command,
              af_Alias = genAlias, af_MaxDownloads = uf_MaxDownloads command,
              af_PasswordHash = hashedBytes, af_TTL = uf_TTL command,
              af_UserID = ui_UserID (uf_User command)\<rparr> w of
        (Inl err, w1) \<Rightarrow> (Some (svc_err isCtxError fn ''failed to add file info'' err), w1)
      | (Inr _, w1) \<Rightarrow>
     (case st_Upload storage (uf_File command) genAlias (uf_Filename command) w1 of
        (Some err, w2) \<Rightarrow> (Some (svc_err isCtxError fn ''failed to upload file'' err), w2)
      | (None, w2) \<Rightarrow>
     (case repo_Commit repo t w2 of
        (Some err, w3) \<Rightarrow> (Some (errorf (fn @ '': failed to upload file to storage: '') err), w3)
      | (None, w3) \<Rightarrow> (None, w3))))"

definition upload_with_alias ::
  "'w service \<Rightarrow> nat \<Rightarrow> upload_file \<Rightarrow> string \<Rightarrow> 'w \<Rightarrow> string result \<times> 'w" where
  "upload_with_alias fs salt command genAlias w =
     (let fn = ''services.file.Service.UploadFile'' in
      case hash_password (fs_bcrypt fs) salt (uf_Password command) of
        Inl err \<Rightarrow> (Inl (errorf (fn @ '': failed to hash password: '') (Ext err)), w)
      | Inr hashedBytes \<Rightarrow>
     (case repo_BeginTx (fs_fileRepo fs) w of
        (Inl err, w1) \<Rightarrow> (Inl (errorf (fn @ '': failed to upload file: '') err), w1)
      | (Inr t, w1) \<Rightarrow>
     (case upload_in_tx fs command genAlias hashedBytes t w1 of
        (Some err, w2) \<Rightarrow> (Inl err, abandon_tx fs t w2)
      | (None, w2) \<Rightarrow> (Inr genAlias, w2))))"

definition Service_UploadFile ::
  "(nat \<Rightarrow> 64 word) \<Rightarrow> nat \<Rightarrow> 'w service \<Rightarrow> upload_file \<Rightarrow> 'w \<Rightarrow> (string result \<times> 'w) run" where
  "Service_UploadFile rnd salt fs command w =
     (let fn = ''services.file.Service.UploadFile'' in
      case repo_GetFilesStatByUserID (fs_fileRepo fs) (ui_UserID (uf_User command)) w of
        (Inl err, w1) \<Rightarrow>
          Returns (Inl (svc_err isCtxError fn ''failed to get files stat by user id'' err), w1)
      | (Inr filesStat, w1) \<Rightarrow>
     (case checkUploadQuote (fs_cfg fs) filesStat (uf_Filesize command) (ui_Roles (uf_User command)) of
        Some err \<Rightarrow> Returns (Inl (errorf (fn @ '': failed to upload quote: '') err), w1)
      | None \<Rightarrow>
     (case Gen rnd (AliasLength (fs_cfg fs)) of
        None \<Rightarrow> Diverges
      | Some (Inl panic) \<Rightarrow> Panics panic
      | Some (Inr genAlias) \<Rightarrow> Returns (upload_with_alias fs salt command genAlias w1))))"

subsection \<open>delete.go, get.go, get_all.go, get_stat.go\<close>

definition delete_in_tx :: "'w service \<Rightarrow> string \<Rightarrow> tx \<Rightarrow> 'w \<Rightarrow> goerr option \<times> 'w" where
  "delete_in_tx fs alias t w =
     (let fn = ''services.files.Service.DeleteFile'';
          repo = fs_fileRepo fs; storage = fs_fileStorage fs in
      case repo_DeleteFileTx repo t alias w of
        (Some err, w1) \<Rightarrow> (Some (svc_err isCtxError fn ''failed to delete file info'' err), w1)
      | (None, w1) \<Rightarrow>
     (case st_Delete storage alias w1 of
        (Some err, w2) \<Rightarrow>
          (Some (svc_err isCtxError fn ''failed to delete file from storage'' err), w2)
      | (None, w2) \<Rightarrow>
     (case repo_Commit repo t w2 of
        (Some err, w3) \<Rightarrow> (Some (errorf (fn @ '': failed to commit tx: '') err), w3)
      | (None, w3) \<Rightarrow> (None, w3))))"

definition Service_DeleteFile :: "'w service \<Rightarrow> delete_file \<Rightarrow> 'w \<Rightarrow> goerr option \<times> 'w" where
  "Service_DeleteFile fs command w =
     (let fn = ''services.files.Service.DeleteFile''; alias = del_Alias command;
          repo = fs_fileRepo fs in
      case repo_GetFileByAlias repo alias w of
        (Inl err, w1) \<Rightarrow>
          (Some (svc_err not_found_or_ctx fn ''failed to get file by alias'' err), w1)
      | (Inr fileInfo, w1) \<Rightarrow>
     (case checkAccess fileInfo (ui_UserID (del_User command)) (ui_Roles (del_User command)) of
        Some err \<Rightarrow> (Some (errorf (fn @ '': access denied: '') err), w1)
      | None \<Rightarrow>
     (case repo_BeginTx repo w1 of
        (Inl err, w2) \<Rightarrow> (Some (errorf (fn @ '': failed to begin tx: '') err), w2)
      | (Inr t, w2) \<Rightarrow>
     (case delete_in_tx fs alias t w2 of
        (Some err, w3) \<Rightarrow> (Some err, abandon_tx fs t w3)
      | (None, w3) \<Rightarrow> (None, w3)))))"

text \<open>\<open>time.Until\<close>: the difference to now, saturating at the bounds of \<open>time.Duration\<close>.\<close>

definition time_Until :: "instant \<Rightarrow> instant \<Rightarrow> duration" where
  "time_Until now t = max (- (2 ^ 63)) (min (2 ^ 63 - 1) (t - now))"

definition file_result :: "instant \<Rightarrow> file_info \<Rightarrow> get_file_result" where
  "file_result now fileInfo =
     \<lparr>gr_Alias = f_Alias fileInfo, gr_Filename = f_Name fileInfo, gr_Filesize = f_Size fileInfo,
      gr_DownloadsLeft = f_DownloadsLeft fileInfo,
      gr_ExpiresIn = time_Until now (f_ExpiresAt fileInfo)\<rparr>"

definition Service_GetFileByAlias :: "'w service \<Rightarrow> get_file \<Rightarrow> 'w \<Rightarrow> get_file_result result \<times> 'w" where
  "Service_GetFileByAlias fs command w =
     (let fn = ''services.file.Service.GetFileByAlias'' in
      case repo_GetFileByAlias (fs_fileRepo fs) (gf_Alias command) w of
        (Inl err, w1) \<Rightarrow>
          (Inl (svc_err not_found_or_ctx fn ''failed to get file by alias'' err), w1)
      | (Inr fileInfo, w1) \<Rightarrow>
     (case checkAccess fileInfo (ui_UserID (gf_User command)) (ui_Roles (gf_User command)) of
        Some err \<Rightarrow> (Inl (errorf (fn @ '': access denied: '') err), w1)
      | None \<Rightarrow> (Inr (file_result (fs_now fs w1) fileInfo), w1)))"

text \<open>
  Every file of a page reads the clock on its own; no other call runs in between, so the model
  reads one instant for the page.
\<close>

definition Service_GetAllFiles ::
  "'w service \<Rightarrow> get_all_files \<Rightarrow> 'w \<Rightarrow> get_all_files_result result \<times> 'w" where
  "Service_GetAllFiles fs command w =
     (let fn = ''services.files.Service.GetFilesByUserID'' in
      case repo_GetFilesByUserID (fs_fileRepo fs) command w of
        (Inl err, w1) \<Rightarrow> (Inl (svc_err isCtxError fn ''failed to get user files'' err), w1)
      | (Inr (filesInfo, tot), w1) \<Rightarrow>
          (Inr \<lparr>gar_Total = tot, gar_Files = map (file_result (fs_now fs w1)) filesInfo\<rparr>, w1))"

definition Service_GetFilesStat ::
  "'w service \<Rightarrow> get_files_stat \<Rightarrow> 'w \<Rightarrow> get_files_stat_result result \<times> 'w" where
  "Service_GetFilesStat fs command w =
     (let fn = ''services.file.Service.GetFilesStat'' in
      case repo_GetFilesStatByUserID (fs_fileRepo fs) (ui_UserID (gs_User command)) w of
        (Inl err, w1) \<Rightarrow>
          (Inl (svc_err user_not_found_or_ctx fn ''failed to get file by alias'' err), w1)
      | (Inr filesStat, w1) \<Rightarrow>
          (let limits = getUserLimits (fs_cfg fs) (ui_Roles (gs_User command)) in
           (Inr \<lparr>gsr_Stat = filesStat, gsr_MaxSize = ul_MaxSize limits,
                 gsr_MaxCount = ul_MaxUploadedFiles limits\<rparr>, w1)))"

end
