(* ===== verification/File_Vault.thy ===== *)
theory File_Vault
  imports File_Service
begin

text \<open>
  What the file service guarantees on top of the two contracts, whatever the environment does:
  the locale \<open>vault\<close> joins a repository and a storage that do not touch each other's part of the
  state.  Its lemmas follow every branch of the service's operations.
\<close>

subsection \<open>The table after an operation\<close>

text \<open>The row that a download leaves behind, and the table after it.\<close>

definition after_download :: "(string \<Rightarrow> string) \<Rightarrow> string \<Rightarrow> int \<Rightarrow> file_info list \<Rightarrow> file_info list" where
  "after_download key a n fs =
     (if n > 0 then set_downloads key a n fs else filter (\<lambda>f. \<not> same_alias key a f) fs)"

lemma same_set_downloads [simp]: "same_alias key a (f\<lparr>f_DownloadsLeft := n\<rparr>) = same_alias key a f"
  by (simp add: same_alias_def)

lemma live_set_downloads [simp]: "live_as key t a (f\<lparr>f_DownloadsLeft := n\<rparr>) = live_as key t a f"
  by (simp add: live_as_def)

lemma live_same: "live_as key t a f \<Longrightarrow> same_alias key a f"
  by (simp add: live_as_def)

lemma unique_same:
  assumes "unique_aliases key fs" "f \<in> set fs" "g \<in> set fs" "same_alias key a f" "same_alias key a g"
  shows "f = g"
proof -
  from assms(4,5) have "(key \<circ> f_Alias) f = (key \<circ> f_Alias) g" by (simp add: same_alias_def)
  with assms(1-3) show ?thesis
    unfolding unique_aliases_def distinct_map by (blast dest: inj_onD)
qed

text \<open>With unique aliases, removing the live rows of an alias that has one removes them all.\<close>

lemma drop_live_unique:
  assumes u: "unique_aliases key fs" and f: "f \<in> set fs" "live_as key t a f"
  shows "drop_live key t a fs = filter (\<lambda>g. \<not> same_alias key a g) fs"
proof -
  have "live_as key t a g \<longleftrightarrow> same_alias key a g" if "g \<in> set fs" for g
    using unique_same [OF u that f(1), of a] f(2) live_same by metis
  then show ?thesis unfolding drop_live_def by (intro filter_cong) auto
qed

lemma drop_live_set_downloads:
  "filter (\<lambda>g. \<not> same_alias key a g) (set_downloads key a n fs) =
   filter (\<lambda>g. \<not> same_alias key a g) fs"
  by (induction fs) (auto simp: set_downloads_def)

lemma live_in_set_downloads:
  "(\<exists>f \<in> set (set_downloads key a n fs). live_as key t a f) \<longleftrightarrow> (\<exists>f \<in> set fs. live_as key t a f)"
  unfolding set_downloads_def by (simp add: Bex_def image_iff) (metis live_set_downloads)

lemma after_download_drop:
  assumes "unique_aliases key fs" "\<exists>f \<in> set (set_downloads key a n fs). live_as key t a f" "\<not> n > 0"
  shows "drop_live key t a (set_downloads key a n fs) = after_download key a n fs"
proof -
  from assms(2) obtain f where "f \<in> set (set_downloads key a n fs)" "live_as key t a f" by blast
  from drop_live_unique [OF _ this] assms(1,3) show ?thesis
    by (simp add: after_download_def drop_live_set_downloads)
qed

lemma unique_after_download [inv_rules]:
  "unique_aliases key fs \<Longrightarrow> unique_aliases key (after_download key a n fs)"
  by (simp add: after_download_def unique_aliases_def distinct_map_filterI
      unique_set_downloads [unfolded unique_aliases_def])

lemma counters_after_download [inv_rules]:
  assumes "counters_ok fs" "n < 2 ^ 15"
  shows "counters_ok (after_download key a n fs)"
proof (cases "n > 0")
  case True
  with assms counters_set_downloads show ?thesis by (simp add: after_download_def)
next
  case False
  with assms show ?thesis by (auto simp: after_download_def counters_ok_def list_all_iff)
qed

subsection \<open>The vault\<close>

text \<open>
  \<open>apart a w v\<close>: no folder but that of \<open>a\<close> changed.  \<open>within a t fds w v\<close>: between \<open>w\<close> and
  \<open>v\<close> only the transaction \<open>t\<close> was opened, the files \<open>fds\<close> were opened and the folder of \<open>a\<close>
  may have changed.  \<open>settled\<close> is the same with nothing left open.
\<close>

definition apart ::
  "('w \<Rightarrow> string \<Rightarrow> 'd option) \<Rightarrow> (string \<Rightarrow> bool) \<Rightarrow> string \<Rightarrow> 'w \<Rightarrow> 'w \<Rightarrow> bool" where
  "apart folder good a w v \<longleftrightarrow>
     (good a \<longrightarrow> (\<forall>b. good b \<longrightarrow> b \<noteq> a \<longrightarrow> folder v b = folder w b))"

lemma apart_refl [simp]: "apart folder good a w w"
  by (simp add: apart_def)

lemma apart_trans: "apart folder good a w1 w2 \<Longrightarrow> apart folder good a w2 w3 \<Longrightarrow> apart folder good a w1 w3"
  by (simp add: apart_def)

lemma apart_same: "folder w2 = folder w1 \<Longrightarrow> apart folder good a w w1 \<Longrightarrow> apart folder good a w w2"
  by (simp add: apart_def)

locale vault =
  repo: repo_contract "fs_fileRepo fs" rows view clock dbnow key "\<lambda>w. (folder w, opened w)" +
  store: storage_contract "fs_fileStorage fs" folder opened clock "\<lambda>w. (rows w, view w)" good
  for fs :: "'w service"
    and rows :: "'w \<Rightarrow> file_info list"
    and view :: "'w \<Rightarrow> tx \<Rightarrow> file_info list option"
    and clock :: "'w \<Rightarrow> instant"
    and dbnow :: "instant \<Rightarrow> instant"
    and key :: "string \<Rightarrow> string"
    and folder :: "'w \<Rightarrow> string \<Rightarrow> (string \<times> string) list option"
    and opened :: "'w \<Rightarrow> nat list"
    and good :: "string \<Rightarrow> bool"
begin

definition within :: "string \<Rightarrow> tx \<Rightarrow> nat list \<Rightarrow> 'w \<Rightarrow> 'w \<Rightarrow> bool" where
  "within a t fds w v \<longleftrightarrow>
     view w t = None \<and> (view v)(t := None) = view w \<and> opened v = fds @ opened w \<and>
     apart folder good a w v \<and> clock w \<le> clock v"

definition settled :: "string \<Rightarrow> nat list \<Rightarrow> 'w \<Rightarrow> 'w \<Rightarrow> bool" where
  "settled a fds w v \<longleftrightarrow>
     view v = view w \<and> opened v = fds @ opened w \<and> apart folder good a w v \<and> clock w \<le> clock v"

lemma within_other:
  "within a t fds w v \<Longrightarrow> (\<forall>t'. t' \<noteq> t \<longrightarrow> view v' t' = view v t') \<Longrightarrow> opened v' = opened v \<Longrightarrow>
   apart folder good a v v' \<Longrightarrow> clock v \<le> clock v' \<Longrightarrow> within a t fds w v'"
proof -
  assume a: "within a t fds w v" "\<forall>t'. t' \<noteq> t \<longrightarrow> view v' t' = view v t'" "opened v' = opened v"
    "apart folder good a v v'" "clock v \<le> clock v'"
  from a(2) have "(view v')(t := None) = (view v)(t := None)" by (auto simp: fun_eq_iff)
  with a show ?thesis unfolding within_def by (auto intro: apart_trans)
qed

text \<open>The statements of a transaction.\<close>

lemma begin_within:
  assumes "repo_BeginTx (fs_fileRepo fs) v = (Inr t, v')" "settled a fds w v"
  shows "within a t fds w v' \<and> view v' t = Some (rows v) \<and> rows v' = rows v \<and> folder v' = folder v"
  using repo.begin_ok [OF assms(1)] assms(2) unfolding within_def settled_def
  by (auto simp: apart_def)

lemma begin_settled:
  assumes "repo_BeginTx (fs_fileRepo fs) v = (Inl e, v')" "settled a fds w v"
  shows "settled a fds w v' \<and> rows v' = rows v \<and> folder v' = folder v"
  using repo.begin_err [OF assms(1)] assms(2) unfolding settled_def by (auto simp: apart_def)

lemma get_settled:
  assumes "repo_GetFileByAlias (fs_fileRepo fs) b v = (r, v')" "settled a fds w v"
  shows "settled a fds w v' \<and> rows v' = rows v \<and> folder v' = folder v"
  using repo.get_ok [of b v _ v'] repo.get_err [of b v _ v'] assms unfolding settled_def
  by (cases r) (auto simp: apart_def)

lemma decrement_within:
  assumes "repo_DecrementDownloadsByAliasTx (fs_fileRepo fs) t b v = (r, v')" "within a t fds w v"
  shows "within a t fds w v' \<and> rows v' = rows v \<and> folder v' = folder v"
proof (cases r)
  case (Inl e)
  with repo.decrement_err [of t b v e v'] assms show ?thesis
    by (auto intro!: within_other [OF assms(2)] simp: apart_def)
next
  case (Inr n)
  with repo.decrement_ok [of t b v n v'] assms show ?thesis
    by (auto intro!: within_other [OF assms(2)] simp: apart_def)
qed

lemma delete_within:
  assumes "repo_DeleteFileTx (fs_fileRepo fs) t b v = (r, v')" "within a t fds w v"
  shows "within a t fds w v' \<and> rows v' = rows v \<and> folder v' = folder v"
proof (cases r)
  case (Some e)
  with repo.delete_err [of t b v e v'] assms show ?thesis
    by (auto intro!: within_other [OF assms(2)] simp: apart_def)
next
  case None
  with repo.delete_ok [of t b v v'] assms show ?thesis
    by (auto intro!: within_other [OF assms(2)] simp: apart_def)
qed

lemma add_within:
  assumes "repo_AddFileTx (fs_fileRepo fs) t c v = (r, v')" "within a t fds w v"
  shows "within a t fds w v' \<and> rows v' = rows v \<and> folder v' = folder v"
proof (cases r)
  case (Inl e)
  with repo.add_err [of t c v e v'] assms show ?thesis
    by (auto intro!: within_other [OF assms(2)] simp: apart_def)
next
  case (Inr n)
  with repo.add_ok [of t c v n v'] assms show ?thesis
    by (auto intro!: within_other [OF assms(2)] simp: apart_def)
qed

lemma st_delete_within:
  assumes "st_Delete (fs_fileStorage fs) a v = (r, v')" "within a t fds w v"
  shows "within a t fds w v' \<and> rows v' = rows v \<and> view v' = view v"
proof (cases r)
  case (Some e)
  with store.delete_err [of a v e v'] assms show ?thesis
    by (auto intro!: within_other [OF assms(2)] simp: apart_def)
next
  case None
  with store.delete_ok [of a v v'] assms show ?thesis
    by (auto intro!: within_other [OF assms(2)] simp: apart_def)
qed

lemma st_upload_within:
  assumes "st_Upload (fs_fileStorage fs) content a name v = (r, v')" "within a t fds w v"
  shows "within a t fds w v' \<and> rows v' = rows v \<and> view v' = view v"
proof (cases r)
  case (Some e)
  with store.upload_err [of content a name v e v'] assms show ?thesis
    by (auto intro!: within_other [OF assms(2)] simp: apart_def)
next
  case None
  with store.upload_ok [of content a name v v'] assms show ?thesis
    by (auto intro!: within_other [OF assms(2)] simp: apart_def)
qed

lemma commit_settled:
  assumes "repo_Commit (fs_fileRepo fs) t v = (None, v')" "within a t fds w v"
  shows "settled a fds w v' \<and> view v t = Some (rows v') \<and> folder v' = folder v"
  using repo.commit_ok [OF assms(1)] assms(2) unfolding within_def settled_def
  by (auto simp: apart_def)

lemma commit_within:
  assumes "repo_Commit (fs_fileRepo fs) t v = (Some e, v')" "within a t fds w v"
  shows "within a t fds w v' \<and> (rows v' = rows v \<or> view v t = Some (rows v')) \<and> folder v' = folder v"
  using repo.commit_err [OF assms(1)] assms(2)
  by (auto intro!: within_other [OF assms(2)] simp: apart_def)

lemma abandon_tx_settled:
  assumes "within a t fds w v"
  shows "settled a fds w (abandon_tx fs t v) \<and> rows (abandon_tx fs t v) = rows v \<and>
    folder (abandon_tx fs t v) = folder v"
proof -
  obtain r v' where "repo_Rollback (fs_fileRepo fs) t v = (r, v')"
    by (cases "repo_Rollback (fs_fileRepo fs) t v")
  with repo.rollback [OF this] assms show ?thesis
    unfolding within_def settled_def abandon_tx_def by (auto simp: apart_def)
qed

lemma close_within:
  assumes "within a t (fd # fds) w v" "fd \<notin> set fds" "fd \<notin> set (opened w)"
    "st_Close (fs_fileStorage fs) fd v = (r, v')"
  shows "within a t fds w v' \<and> rows v' = rows v \<and> folder v' = folder v"
  using store.close [OF assms(4)] assms(1-3) unfolding within_def by (auto simp: apart_def)

lemma close_settled:
  assumes "settled a (fd # fds) w v" "fd \<notin> set fds" "fd \<notin> set (opened w)"
    "st_Close (fs_fileStorage fs) fd v = (r, v')"
  shows "settled a fds w v' \<and> rows v' = rows v \<and> folder v' = folder v"
  using store.close [OF assms(4)] assms(1-3) unfolding settled_def by (auto simp: apart_def)

lemma clock_abandon: "clock v \<le> clock (abandon_download fs r t v)"
proof -
  obtain x v1 where c: "st_Close (fs_fileStorage fs) (dr_fd r) v = (x, v1)"
    by (cases "st_Close (fs_fileStorage fs) (dr_fd r) v")
  obtain y v2 where "repo_Rollback (fs_fileRepo fs) t v1 = (y, v2)"
    by (cases "repo_Rollback (fs_fileRepo fs) t v1")
  with repo.rollback [OF this] store.close [OF c] c show ?thesis by (auto simp: abandon_download_def)
qed

lemma abandon_download_settled:
  assumes "within a t [dr_fd r] w v" "dr_fd r \<notin> set (opened w)"
  shows "settled a [] w (abandon_download fs r t v) \<and> rows (abandon_download fs r t v) = rows v \<and>
    folder (abandon_download fs r t v) = folder v"
proof -
  obtain x v1 where c: "st_Close (fs_fileStorage fs) (dr_fd r) v = (x, v1)"
    by (cases "st_Close (fs_fileStorage fs) (dr_fd r) v")
  from close_within [OF assms(1) _ assms(2) c] abandon_tx_settled [of a t "[]" w v1] c
  show ?thesis by (simp add: abandon_download_def abandon_tx_def)
qed

text \<open>A commit, and the removal of the row and the folder, with the table \<open>T\<close> of the transaction.\<close>

lemma commit_step:
  assumes c: "repo_Commit (fs_fileRepo fs) t v = (r, v')" and w: "within a t fds w v"
    and T: "view v t = Some T"
  shows "clock v \<le> clock v' \<and> folder v' = folder v \<and>
    (case r of None \<Rightarrow> settled a fds w v' \<and> rows v' = T
     | Some e \<Rightarrow> within a t fds w v' \<and> (rows v' = rows v \<or> rows v' = T) \<and> (\<forall>s. \<not> is_domain e s))"
proof (cases r)
  case None
  with c T commit_settled [of t v v' a fds w] w repo.commit_ok [of t v v'] show ?thesis by auto
next
  case (Some e)
  with c T commit_within [of t v e v' a fds w] w repo.commit_err [of t v e v'] show ?thesis by auto
qed

lemma remove_step:
  assumes d: "repo_DeleteFileTx (fs_fileRepo fs) t a v = (None, v1)"
    and s: "st_Delete (fs_fileStorage fs) a v1 = (r, v2)"
    and w: "within a t fds w v" and T: "view v t = Some T"
  obtains dd where "within a t fds w v2" "rows v2 = rows v" "clock v \<le> clock v2"
    "moment (clock v) dd (clock v2)" "\<exists>f \<in> set T. live_as key (dbnow dd) a f"
    "view v2 t = Some (drop_live key (dbnow dd) a T)" "r = None \<Longrightarrow> folder v2 a = None"
proof -
  from repo.delete_ok [OF d] obtain T' dd where T': "view v t = Some T'"
    "moment (clock v) dd (clock v1)" "\<exists>f \<in> set T'. live_as key (dbnow dd) a f"
    "view v1 = (view v)(t \<mapsto> drop_live key (dbnow dd) a T')" "clock v \<le> clock v1" by blast
  have w2: "within a t fds w v2" "rows v2 = rows v" "view v2 = view v1"
    using delete_within [OF d w] st_delete_within [OF s] by auto
  have "clock v1 \<le> clock v2 \<and> (r = None \<longrightarrow> folder v2 a = None)"
    using s store.delete_ok [of a v1 v2] store.delete_err [of a v1 _ v2] by (cases r) auto
  with that [of dd] w2 T' T show thesis by (auto simp: moment_def)
qed

text \<open>The transaction of a download.\<close>

definition took_one :: "string \<Rightarrow> 'w \<Rightarrow> 'w \<Rightarrow> bool" where
  "took_one a v v' \<longleftrightarrow>
     (\<exists>g d. moment (clock v) d (clock v') \<and> g \<in> set (rows v) \<and> live_as key (dbnow d) a g \<and>
        f_DownloadsLeft g \<noteq> 0 \<and>
        rows v' = after_download key a (wrap16 (f_DownloadsLeft g - 1)) (rows v))"

text \<open>How the transaction ends: with the download counted, or not, or unknown after a failed commit.\<close>

definition download_end :: "string \<Rightarrow> tx \<Rightarrow> nat list \<Rightarrow> 'w \<Rightarrow> 'w \<Rightarrow> goerr option \<Rightarrow> 'w \<Rightarrow> bool" where
  "download_end a t fds w v r v' \<longleftrightarrow>
     (case r of
        None \<Rightarrow> settled a fds w v' \<and> took_one a v v' \<and> (folder v' = folder v \<or> folder v' a = None)
      | Some e \<Rightarrow> within a t fds w v' \<and> (rows v' = rows v \<or> took_one a v v'))"

lemma download_more:
  assumes n: "n > 0" and w: "within a t fds w v1" and T: "view v1 t = Some (set_downloads key a n (rows v))"
    and same: "rows v1 = rows v" "folder v1 = folder v"
    and took: "\<And>x. rows x = after_download key a n (rows v) \<Longrightarrow> clock v1 \<le> clock x \<Longrightarrow> took_one a v x"
    and c: "repo_Commit (fs_fileRepo fs) t v1 = (r2, v')" and r: "r = None \<longleftrightarrow> r2 = None"
  shows "download_end a t fds w v r v'"
  using commit_step [OF c w T] took [of v'] n same r
  by (cases r2; cases r) (auto simp: download_end_def after_download_def)

lemma download_last:
  assumes n: "\<not> n > 0" and w: "within a t fds w v1" and T: "view v1 t = Some (set_downloads key a n (rows v))"
    and same: "rows v1 = rows v" and u: "unique_aliases key (rows v)"
    and took: "\<And>x. rows x = after_download key a n (rows v) \<Longrightarrow> clock v1 \<le> clock x \<Longrightarrow> took_one a v x"
    and d: "repo_DeleteFileTx (fs_fileRepo fs) t a v1 = (None, v2)"
    and s: "st_Delete (fs_fileStorage fs) a v2 = (None, v3)"
    and c: "repo_Commit (fs_fileRepo fs) t v3 = (r2, v')" and r: "r = None \<longleftrightarrow> r2 = None"
  shows "download_end a t fds w v r v'"
proof -
  from remove_step [OF d s w T] obtain dd where v3: "within a t fds w v3" "rows v3 = rows v"
    "clock v1 \<le> clock v3" "folder v3 a = None"
    and live: "\<exists>f \<in> set (set_downloads key a n (rows v)). live_as key (dbnow dd) a f"
    and T3: "view v3 t = Some (drop_live key (dbnow dd) a (set_downloads key a n (rows v)))"
    using same by metis
  from T3 after_download_drop [OF u live n]
  have T4: "view v3 t = Some (after_download key a n (rows v))" by simp
  from commit_step [OF c v3(1) T4] took [of v'] v3 r show ?thesis
    by (cases r2; cases r) (auto simp: download_end_def)
qed

lemma download_in_tx_spec:
  assumes d: "download_in_tx fs a t v = (r, v')"
    and w: "within a t fds w v" and view: "view v t = Some (rows v)"
    and u: "unique_aliases key (rows v)"
  shows "download_end a t fds w v r v'"
proof -
  let ?repo = "fs_fileRepo fs" and ?st = "fs_fileStorage fs"
  obtain r1 v1 where 1: "repo_DecrementDownloadsByAliasTx ?repo t a v = (r1, v1)"
    by (cases "repo_DecrementDownloadsByAliasTx ?repo t a v")
  note w1 = decrement_within [OF 1 w]
  show ?thesis
  proof (cases r1)
    case (Inl e)
    with d 1 w1 show ?thesis by (auto simp: download_in_tx_def download_end_def)
  next
    case (Inr n)
    from repo.decrement_ok [OF 1 [unfolded Inr]] view obtain g dd where
      g: "g \<in> set (rows v)" "moment (clock v) dd (clock v1)" "live_as key (dbnow dd) a g"
      "f_DownloadsLeft g \<noteq> 0" "n = wrap16 (f_DownloadsLeft g - 1)"
      and T: "view v1 t = Some (set_downloads key a n (rows v))" by auto
    have took: "took_one a v x" if "rows x = after_download key a n (rows v)" "clock v1 \<le> clock x" for x
      using g that unfolding took_one_def moment_def by force
    obtain r2 v2 where 2: "repo_DeleteFileTx ?repo t a v1 = (r2, v2)"
      by (cases "repo_DeleteFileTx ?repo t a v1")
    obtain r3 v3 where 3: "st_Delete ?st a v2 = (r3, v3)" by (cases "st_Delete ?st a v2")
    obtain r4 v4 where 4: "repo_Commit ?repo t v3 = (r4, v4)" by (cases "repo_Commit ?repo t v3")
    obtain r5 v5 where 5: "repo_Commit ?repo t v1 = (r5, v5)" by (cases "repo_Commit ?repo t v1")
    note w2 = delete_within [OF 2, of a fds w]
    consider (more) "n > 0" | (gone) e where "\<not> n > 0" "r2 = Some e"
      | (kept) e where "\<not> n > 0" "r2 = None" "r3 = Some e" | (last) "\<not> n > 0" "r2 = None" "r3 = None"
      by (cases r2; cases r3; cases "n > 0") auto
    then show ?thesis
    proof cases
      case more
      then have "v' = v5" "r = None \<longleftrightarrow> r5 = None"
        using d 1 5 Inr by (auto simp: download_in_tx_def split: option.splits)
      with more download_more [OF _ _ T _ _ took 5] w1 show ?thesis by blast
    next
      case gone
      with d 1 2 Inr w1 w2 show ?thesis by (auto simp: download_in_tx_def download_end_def)
    next
      case kept
      with d 1 2 3 Inr w1 w2 st_delete_within [OF 3, of t fds w] show ?thesis
        by (auto simp: download_in_tx_def download_end_def)
    next
      case last
      then have "v' = v4" "r = None \<longleftrightarrow> r4 = None"
        using d 1 2 3 4 Inr by (auto simp: download_in_tx_def split: option.splits)
      with last download_last [OF _ _ T _ u took _ _ 4] 2 3 w1 show ?thesis by blast
    qed
  qed
qed

text \<open>A whole download.\<close>

lemma took_one_from:
  "took_one a v v' \<Longrightarrow> rows v = rows w \<Longrightarrow> clock w \<le> clock v \<Longrightarrow> clock v' \<le> clock w' \<Longrightarrow>
   rows w' = rows v' \<Longrightarrow> took_one a w w'"
  unfolding took_one_def moment_def by simp (meson order.trans)

lemma settled_refl: "settled a [] w w"
  by (simp add: settled_def)

lemma settled_clock: "settled a fds w v \<Longrightarrow> clock w \<le> clock v"
  by (simp add: settled_def)

lemma within_clock: "within a t fds w v \<Longrightarrow> clock w \<le> clock v"
  by (simp add: within_def)

lemma st_download_settled:
  assumes "st_Download (fs_fileStorage fs) a v = (Inr r, v')" "settled a [] w v"
  shows "settled a [dr_fd r] w v' \<and> rows v' = rows v \<and> folder v' = folder v \<and>
    dr_fd r \<notin> set (opened w) \<and> dr_Size r = int (length (dr_File r)) \<and>
    (\<exists>rest. folder v a = Some ((dr_Name r, dr_File r) # rest))"
  using store.download_ok [OF assms(1)] assms(2) unfolding settled_def by (auto simp: apart_def)

lemma download_ok:
  assumes d: "Service_DownloadFile fs c w = (Inr r, w')" and u: "unique_aliases key (rows w)"
  shows "settled (df_Alias c) [dr_fd r] w w' \<and> dr_fd r \<notin> set (opened w) \<and>
    took_one (df_Alias c) w w' \<and> (folder w' = folder w \<or> folder w' (df_Alias c) = None) \<and>
    dr_Size r = int (length (dr_File r)) \<and>
    (\<exists>rest. folder w (df_Alias c) = Some ((dr_Name r, dr_File r) # rest)) \<and>
    (\<exists>f t0. f \<in> set (rows w) \<and> moment (clock w) t0 (clock w') \<and>
       live_as key (dbnow t0) (df_Alias c) f \<and> checkPassword (fs_bcrypt fs) f (df_Password c) = None)"
proof -
  let ?a = "df_Alias c" and ?repo = "fs_fileRepo fs"
  from d obtain f w1 w2 t w3 where 1: "repo_GetFileByAlias ?repo ?a w = (Inr f, w1)"
    and pw: "checkPassword (fs_bcrypt fs) f (df_Password c) = None"
    and 2: "st_Download (fs_fileStorage fs) ?a w1 = (Inr r, w2)"
    and 3: "repo_BeginTx ?repo w2 = (Inr t, w3)" and 4: "download_in_tx fs ?a t w3 = (None, w')"
    unfolding Service_DownloadFile_def Let_def
    by (auto split: prod.split_asm sum.split_asm option.split_asm)
  note s1 = get_settled [OF 1 settled_refl, of ?a]
  note s2 = st_download_settled [OF 2, of w]
  note s3 = begin_within [OF 3, of ?a "[dr_fd r]" w]
  have e: "download_end ?a t [dr_fd r] w w3 None w'"
    by (rule download_in_tx_spec [OF 4]) (use s1 s2 s3 u in auto)
  have c3: "clock w \<le> clock w3" "clock w1 \<le> clock w3"
    using s3 s2 s1 within_clock repo.begin_ok [OF 3] store.download_ok [OF 2] by auto
  from e have "took_one ?a w w'" "clock w3 \<le> clock w'"
    using took_one_from [of ?a w3 w' w w'] c3 s1 s2 s3
    by (auto simp: download_end_def took_one_def moment_def)
  with e repo.get_ok [OF 1] s1 s2 s3 pw c3 show ?thesis
    unfolding download_end_def by (fastforce simp: moment_def)
qed

lemma download_err:
  assumes d: "Service_DownloadFile fs c w = (Inl e, w')" and u: "unique_aliases key (rows w)"
  shows "(\<exists>fds. settled (df_Alias c) fds w w' \<and> length fds \<le> 1) \<and>
    (rows w' = rows w \<or> took_one (df_Alias c) w w')"
proof -
  let ?a = "df_Alias c" and ?repo = "fs_fileRepo fs" and ?st = "fs_fileStorage fs"
  obtain r1 w1 where 1: "repo_GetFileByAlias ?repo ?a w = (r1, w1)"
    by (cases "repo_GetFileByAlias ?repo ?a w")
  obtain r2 w2 where 2: "st_Download ?st ?a w1 = (r2, w2)" by (cases "st_Download ?st ?a w1")
  obtain r3 w3 where 3: "repo_BeginTx ?repo w2 = (r3, w3)" by (cases "repo_BeginTx ?repo w2")
  note s1 = get_settled [OF 1 settled_refl, of ?a]
  consider (early) "w' = w1" | (down) x where "r2 = Inl x" "w' = w2"
    | (nobegin) r x where "r2 = Inr r" "r3 = Inl x" "w' = snd (st_Close ?st (dr_fd r) w3)"
    | (tx) r t x w4 where "r2 = Inr r" "r3 = Inr t" "download_in_tx fs ?a t w3 = (Some x, w4)"
        "w' = abandon_download fs r t w4"
    using d 1 2 3 unfolding Service_DownloadFile_def Let_def
    by (auto split: prod.split_asm sum.split_asm option.split_asm)
  then show ?thesis
  proof cases
    case early
    with s1 show ?thesis by (intro conjI exI [of _ "[]"]) auto
  next
    case down
    with 2 store.download_err [of ?a w1 x w2] have o2: "rows w2 = rows w1" "view w2 = view w1"
      "clock w1 \<le> clock w2" "folder w2 = folder w1"
      "opened w2 = opened w1 \<or> (\<exists>fd. opened w2 = fd # opened w1)" by auto
    then obtain fds where "opened w2 = fds @ opened w1" "length fds \<le> 1"
      by (metis append_Cons append_Nil le_numeral_extra(4) length_Cons list.size(3) One_nat_def zero_le)
    with s1 down o2 show ?thesis
      by (intro conjI exI [of _ fds]) (auto simp: settled_def apart_def)
  next
    case nobegin
    note s2 = st_download_settled [OF 2 [unfolded nobegin(1)], of w]
    note s3 = begin_settled [OF 3 [unfolded nobegin(2)], of ?a "[dr_fd r]" w]
    obtain x w4 where "st_Close ?st (dr_fd r) w3 = (x, w4)" by (cases "st_Close ?st (dr_fd r) w3")
    with close_settled [of ?a "dr_fd r" "[]" w w3 x w4] nobegin s1 s2 s3 show ?thesis
      by (intro conjI exI [of _ "[]"]) auto
  next
    case tx
    note s2 = st_download_settled [OF 2 [unfolded tx(1)], of w]
    note s3 = begin_within [OF 3 [unfolded tx(2)], of ?a "[dr_fd r]" w]
    have e: "download_end ?a t [dr_fd r] w w3 (Some x) w4"
      by (rule download_in_tx_spec [OF tx(3)]) (use s1 s2 s3 u in auto)
    then have ab: "settled ?a [] w w'" "rows w' = rows w4"
      using abandon_download_settled [of ?a t r w w4] s1 s2 tx(4) by (auto simp: download_end_def)
    have cc: "clock w \<le> clock w3" "clock w4 \<le> clock w'"
      using s3 s2 s1 within_clock ab tx(4) clock_abandon by auto
    with e ab s1 s2 s3 took_one_from [of ?a w3 w4 w w'] show ?thesis
      by (intro conjI exI [of _ "[]"]) (auto simp: download_end_def)
  qed
qed

subsubsection \<open>Upload\<close>

definition added :: "upload_file \<Rightarrow> string \<Rightarrow> string \<Rightarrow> 'w \<Rightarrow> 'w \<Rightarrow> bool" where
  "added c a h v v' \<longleftrightarrow>
     (\<exists>f. rows v' = rows v @ [f] \<and> key (f_Alias f) \<notin> (key \<circ> f_Alias) ` set (rows v) \<and>
        f_Alias f = a \<and> f_Name f = uf_Filename c \<and> f_Size f = uf_Filesize c \<and>
        f_DownloadsLeft f = uf_MaxDownloads c \<and> f_PasswordHash f = h \<and>
        f_UserID f = ui_UserID (uf_User c))"

definition stored :: "string \<Rightarrow> string \<Rightarrow> 'w \<Rightarrow> bool" where
  "stored a content v \<longleftrightarrow> (\<exists>d n. folder v a = Some d \<and> map_of d n = Some content)"

lemma upload_in_tx_spec:
  assumes u: "upload_in_tx fs c a h t v = (r, v')"
    and w: "within a t fds w v" and view: "view v t = Some (rows v)"
  shows "case r of
      None \<Rightarrow> settled a fds w v' \<and> added c a h v v' \<and> stored a (uf_File c) v'
    | Some e \<Rightarrow> within a t fds w v' \<and>
        (rows v' = rows v \<or> added c a h v v' \<and> stored a (uf_File c) v')"
proof -
  let ?repo = "fs_fileRepo fs" and ?st = "fs_fileStorage fs"
  let ?c = "\<lparr>af_Filename = uf_Filename c, af_Filesize = uf_Filesize c, af_Alias = a,
    af_MaxDownloads = uf_MaxDownloads c, af_PasswordHash = h, af_TTL = uf_TTL c,
    af_UserID = ui_UserID (uf_User c)\<rparr>"
  obtain r1 v1 where 1: "repo_AddFileTx ?repo t ?c v = (r1, v1)" by (cases "repo_AddFileTx ?repo t ?c v")
  obtain r2 v2 where 2: "st_Upload ?st (uf_File c) a (uf_Filename c) v1 = (r2, v2)"
    by (cases "st_Upload ?st (uf_File c) a (uf_Filename c) v1")
  obtain r3 v3 where 3: "repo_Commit ?repo t v2 = (r3, v3)" by (cases "repo_Commit ?repo t v2")
  note w1 = add_within [OF 1 w]
  note w2 = st_upload_within [OF 2, of t fds w]
  consider (noadd) e where "r1 = Inl e" | (nofile) i e where "r1 = Inr i" "r2 = Some e"
    | (commit) i where "r1 = Inr i" "r2 = None" by (cases r1; cases r2) auto
  then show ?thesis
  proof cases
    case noadd
    with u 1 w1 show ?thesis by (auto simp: upload_in_tx_def)
  next
    case nofile
    with u 1 2 w1 w2 show ?thesis by (auto simp: upload_in_tx_def)
  next
    case commit
    from repo.add_ok [OF 1 [unfolded commit(1)], unfolded add_file.select_convs] obtain V f where
      V: "view v t = Some V" "view v1 = (view v)(t \<mapsto> V @ [f])"
      and k: "key (f_Alias f) \<notin> (key \<circ> f_Alias) ` set V"
      and f: "f_Alias f = a" "f_Name f = uf_Filename c" "f_Size f = uf_Filesize c"
      "f_DownloadsLeft f = uf_MaxDownloads c" "f_PasswordHash f = h" "f_UserID f = ui_UserID (uf_User c)"
      by blast
    have T: "view v1 t = Some (rows v @ [f])" using V view by simp
    have k: "key (f_Alias f) \<notin> (key \<circ> f_Alias) ` set (rows v)" using k V view by simp
    have add: "added c a h v x" if "rows x = rows v @ [f]" for x
      using f k that unfolding added_def by blast
    have st: "stored a (uf_File c) v2"
      using store.upload_ok [OF 2 [unfolded commit(2)]] unfolding stored_def by blast
    have v': "v' = v3" "r = None \<longleftrightarrow> r3 = None"
      using u 1 2 3 commit by (auto simp: upload_in_tx_def split: option.splits)
    have T2: "view v2 t = Some (rows v @ [f])" "within a t fds w v2" "rows v2 = rows v"
      using w1 w2 T by auto
    from commit_step [OF 3 T2(2,1)] add [of v3] st v' T2(3) show ?thesis
      by (cases r; cases r3) (auto simp: stored_def)
  qed
qed

lemma upload_with_alias_ok:
  assumes u: "upload_with_alias fs salt c a w = (Inr b, w')"
  shows "b = a \<and> settled a [] w w' \<and> stored a (uf_File c) w' \<and>
    (\<exists>h. hash_password (fs_bcrypt fs) salt (uf_Password c) = Inr h \<and> added c a h w w')"
proof -
  obtain r1 w1 where 1: "repo_BeginTx (fs_fileRepo fs) w = (r1, w1)"
    by (cases "repo_BeginTx (fs_fileRepo fs) w")
  from u obtain h where h: "hash_password (fs_bcrypt fs) salt (uf_Password c) = Inr h"
    by (cases "hash_password (fs_bcrypt fs) salt (uf_Password c)") (auto simp: upload_with_alias_def)
  from u 1 h obtain t where t: "r1 = Inr t" by (cases r1) (auto simp: upload_with_alias_def)
  obtain r2 w2 where 2: "upload_in_tx fs c a h t w1 = (r2, w2)" by (cases "upload_in_tx fs c a h t w1")
  from u 1 h t 2 have r2: "r2 = None" "w2 = w'" "b = a"
    by (cases r2; simp add: upload_with_alias_def)+
  note s = begin_within [OF 1 [unfolded t] settled_refl, of a]
  from upload_in_tx_spec [OF 2, of "[]" w] s h r2 show ?thesis by (auto simp: added_def)
qed

lemma upload_with_alias_err:
  assumes "upload_with_alias fs salt c a w = (Inl e, w')"
  shows "settled a [] w w' \<and>
    (rows w' = rows w \<or>
     (\<exists>h. hash_password (fs_bcrypt fs) salt (uf_Password c) = Inr h \<and> added c a h w w' \<and>
       stored a (uf_File c) w'))"
proof -
  obtain r1 w1 where 1: "repo_BeginTx (fs_fileRepo fs) w = (r1, w1)"
    by (cases "repo_BeginTx (fs_fileRepo fs) w")
  consider (hash) "w' = w" | (nobegin) x where "r1 = Inl x" "w' = w1"
    | (tx) h t x w2 where "hash_password (fs_bcrypt fs) salt (uf_Password c) = Inr h" "r1 = Inr t"
      "upload_in_tx fs c a h t w1 = (Some x, w2)" "w' = abandon_tx fs t w2"
    using assms 1 unfolding upload_with_alias_def Let_def
    by (auto split: prod.split_asm sum.split_asm option.split_asm)
  then show ?thesis
  proof cases
    case hash
    then show ?thesis by (simp add: settled_refl)
  next
    case nobegin
    with begin_settled [OF 1 [unfolded nobegin(1)] settled_refl, of a] show ?thesis by auto
  next
    case tx
    note s = begin_within [OF 1 [unfolded tx(2)] settled_refl, of a]
    from upload_in_tx_spec [OF tx(3), of "[]" w] s abandon_tx_settled [of a t "[]" w w2] tx
    show ?thesis by (auto simp: added_def stored_def)
  qed
qed

lemma stat_settled:
  assumes "repo_GetFilesStatByUserID (fs_fileRepo fs) u v = (r, v')"
  shows "settled a [] v v' \<and> rows v' = rows v \<and> folder v' = folder v"
  using repo.stat_ok [of u v _ v'] repo.stat_err [of u v _ v'] assms unfolding settled_def
  by (cases r) (auto simp: apart_def)

lemma settled_trans:
  "settled a fds w v \<Longrightarrow> settled a gds v x \<Longrightarrow> settled a (gds @ fds) w x"
  unfolding settled_def by (auto intro: apart_trans)

lemma upload_ok:
  assumes "Service_UploadFile rnd salt fs c w = Returns (Inr a, w')"
  shows "settled a [] w w' \<and> stored a (uf_File c) w' \<and> Gen rnd (AliasLength (fs_cfg fs)) = Some (Inr a) \<and>
    (\<exists>h. hash_password (fs_bcrypt fs) salt (uf_Password c) = Inr h \<and> added c a h w w') \<and>
    (\<exists>st. fst_Count st = int (length (filter (\<lambda>f. f_UserID f = ui_UserID (uf_User c)) (rows w))) \<and>
      fst_Size st = sum_list (map f_Size (filter (\<lambda>f. f_UserID f = ui_UserID (uf_User c)) (rows w))) \<and>
      checkUploadQuote (fs_cfg fs) st (uf_Filesize c) (ui_Roles (uf_User c)) = None)"
proof -
  obtain r1 w1 where r1: "repo_GetFilesStatByUserID (fs_fileRepo fs) (ui_UserID (uf_User c)) w = (r1, w1)"
    by (cases "repo_GetFilesStatByUserID (fs_fileRepo fs) (ui_UserID (uf_User c)) w")
  with assms obtain st where st: "r1 = Inr st" by (cases r1) (auto simp: Service_UploadFile_def)
  note 1 = r1 [unfolded st]
  from assms 1 have q: "checkUploadQuote (fs_cfg fs) st (uf_Filesize c) (ui_Roles (uf_User c)) = None"
    by (auto simp: Service_UploadFile_def split: option.split_asm)
  from assms 1 q obtain b where b: "Gen rnd (AliasLength (fs_cfg fs)) = Some (Inr b)"
    "upload_with_alias fs salt c b w1 = (Inr a, w')"
    by (auto simp: Service_UploadFile_def split: option.split_asm sum.split_asm)
  with upload_with_alias_ok [OF b(2)] have g: "Gen rnd (AliasLength (fs_cfg fs)) = Some (Inr a)"
    and 2: "upload_with_alias fs salt c a w1 = (Inr a, w')" by auto
  from upload_with_alias_ok [OF 2] stat_settled [OF 1, of a] settled_trans [of a "[]" w w1 "[]" w']
    repo.stat_ok [OF 1] q g show ?thesis by (fastforce simp: added_def)
qed

lemma upload_err:
  assumes "Service_UploadFile rnd salt fs c w = Returns (Inl e, w')"
  shows "\<exists>a. settled a [] w w' \<and>
    (rows w' = rows w \<and> folder w' = folder w \<or>
     Gen rnd (AliasLength (fs_cfg fs)) = Some (Inr a) \<and>
     (rows w' = rows w \<or> (\<exists>h. added c a h w w' \<and> stored a (uf_File c) w')))"
proof -
  obtain r1 w1 where 1: "repo_GetFilesStatByUserID (fs_fileRepo fs) (ui_UserID (uf_User c)) w = (r1, w1)"
    by (cases "repo_GetFilesStatByUserID (fs_fileRepo fs) (ui_UserID (uf_User c)) w")
  note s1 = stat_settled [OF 1]
  consider (early) "w' = w1" | (later) a where "Gen rnd (AliasLength (fs_cfg fs)) = Some (Inr a)"
      "upload_with_alias fs salt c a w1 = (Inl e, w')"
    using assms 1 unfolding Service_UploadFile_def Let_def
    by (auto split: prod.split_asm sum.split_asm option.split_asm)
  then show ?thesis
  proof cases
    case early
    with s1 show ?thesis by auto
  next
    case later
    from upload_with_alias_err [OF later(2)] s1 [of a] settled_trans [of a "[]" w w1 "[]" w'] later(1)
    show ?thesis by (fastforce simp: added_def)
  qed
qed

subsubsection \<open>Delete\<close>

definition dropped :: "string \<Rightarrow> 'w \<Rightarrow> 'w \<Rightarrow> bool" where
  "dropped a v v' \<longleftrightarrow>
     (\<exists>f \<in> set (rows v). same_alias key a f) \<and> rows v' = filter (\<lambda>g. \<not> same_alias key a g) (rows v)"

lemma delete_in_tx_spec:
  assumes d: "delete_in_tx fs a t v = (r, v')"
    and w: "within a t fds w v" and view: "view v t = Some (rows v)"
    and u: "unique_aliases key (rows v)"
  shows "case r of
      None \<Rightarrow> settled a fds w v' \<and> dropped a v v' \<and> folder v' a = None
    | Some e \<Rightarrow> within a t fds w v' \<and> (rows v' = rows v \<or> dropped a v v')"
proof -
  let ?repo = "fs_fileRepo fs" and ?st = "fs_fileStorage fs"
  obtain r1 v1 where 1: "repo_DeleteFileTx ?repo t a v = (r1, v1)" by (cases "repo_DeleteFileTx ?repo t a v")
  obtain r2 v2 where 2: "st_Delete ?st a v1 = (r2, v2)" by (cases "st_Delete ?st a v1")
  obtain r3 v3 where 3: "repo_Commit ?repo t v2 = (r3, v3)" by (cases "repo_Commit ?repo t v2")
  note w1 = delete_within [OF 1 w]
  note w2 = st_delete_within [OF 2, of t fds w]
  consider (norow) e where "r1 = Some e" | (nofolder) e where "r1 = None" "r2 = Some e"
    | (commit) "r1 = None" "r2 = None" by (cases r1; cases r2) auto
  then show ?thesis
  proof cases
    case norow
    with d 1 w1 show ?thesis by (auto simp: delete_in_tx_def)
  next
    case nofolder
    with d 1 2 w1 w2 show ?thesis by (auto simp: delete_in_tx_def)
  next
    case commit
    from remove_step [OF 1 [unfolded commit(1)] 2 w view] commit obtain dd where
      v2: "within a t fds w v2" "rows v2 = rows v" "folder v2 a = None"
      and live: "\<exists>f \<in> set (rows v). live_as key (dbnow dd) a f"
      and T: "view v2 t = Some (drop_live key (dbnow dd) a (rows v))" by metis
    have drop: "dropped a v x" if "rows x = drop_live key (dbnow dd) a (rows v)" for x
      using live that drop_live_unique [OF u] live_same unfolding dropped_def by metis
    have v': "v' = v3" "r = None \<longleftrightarrow> r3 = None"
      using d 1 2 3 commit by (auto simp: delete_in_tx_def split: option.splits)
    from commit_step [OF 3 v2(1) T] drop [of v3] v' v2 show ?thesis
      by (cases r; cases r3) auto
  qed
qed

lemma delete_ok:
  assumes d: "Service_DeleteFile fs c w = (None, w')" and u: "unique_aliases key (rows w)"
  shows "settled (del_Alias c) [] w w' \<and> dropped (del_Alias c) w w' \<and> folder w' (del_Alias c) = None \<and>
    (\<exists>f t0. f \<in> set (rows w) \<and> moment (clock w) t0 (clock w') \<and>
       live_as key (dbnow t0) (del_Alias c) f \<and>
       checkAccess f (ui_UserID (del_User c)) (ui_Roles (del_User c)) = None)"
proof -
  let ?a = "del_Alias c" and ?repo = "fs_fileRepo fs"
  from d obtain f w1 t w2 where 1: "repo_GetFileByAlias ?repo ?a w = (Inr f, w1)"
    and acc: "checkAccess f (ui_UserID (del_User c)) (ui_Roles (del_User c)) = None"
    and 2: "repo_BeginTx ?repo w1 = (Inr t, w2)" and 3: "delete_in_tx fs ?a t w2 = (None, w')"
    unfolding Service_DeleteFile_def Let_def
    by (auto split: prod.split_asm sum.split_asm option.split_asm)
  note s1 = get_settled [OF 1 settled_refl, of ?a]
  note s2 = begin_within [OF 2, of ?a "[]" w]
  have e: "settled ?a [] w w' \<and> dropped ?a w2 w' \<and> folder w' ?a = None"
    using delete_in_tx_spec [OF 3, of "[]" w] s1 s2 u by auto
  have "clock w1 \<le> clock w'"
  proof -
    have "within ?a t [] w1 w2 \<and> view w2 t = Some (rows w2) \<and> rows w2 = rows w"
      using begin_within [OF 2 settled_refl] s1 by auto
    with delete_in_tx_spec [OF 3, of "[]" w1] u settled_clock show ?thesis by auto
  qed
  with e repo.get_ok [OF 1] s1 s2 acc show ?thesis
    by (fastforce simp: dropped_def moment_def)
qed

text \<open>The access check a deletion passed before it changed anything.\<close>

definition delete_allowed :: "delete_file \<Rightarrow> 'w \<Rightarrow> bool" where
  "delete_allowed c w \<longleftrightarrow> (\<exists>f t0. f \<in> set (rows w) \<and> live_as key (dbnow t0) (del_Alias c) f \<and>
     checkAccess f (ui_UserID (del_User c)) (ui_Roles (del_User c)) = None)"

lemma delete_err:
  assumes d: "Service_DeleteFile fs c w = (Some e, w')" and u: "unique_aliases key (rows w)"
  shows "settled (del_Alias c) [] w w' \<and>
    (rows w' = rows w \<and> folder w' = folder w \<or>
     delete_allowed c w \<and> (rows w' = rows w \<or> dropped (del_Alias c) w w'))"
proof -
  let ?a = "del_Alias c" and ?repo = "fs_fileRepo fs"
  obtain r1 w1 where 1: "repo_GetFileByAlias ?repo ?a w = (r1, w1)"
    by (cases "repo_GetFileByAlias ?repo ?a w")
  obtain r2 w2 where 2: "repo_BeginTx ?repo w1 = (r2, w2)" by (cases "repo_BeginTx ?repo w1")
  note s1 = get_settled [OF 1 settled_refl, of ?a]
  consider (early) "w' = w1" | (nobegin) x where "r2 = Inl x" "w' = w2"
    | (tx) f t x w3 where "r1 = Inr f" "checkAccess f (ui_UserID (del_User c)) (ui_Roles (del_User c)) = None"
      "r2 = Inr t" "delete_in_tx fs ?a t w2 = (Some x, w3)" "w' = abandon_tx fs t w3"
    using d 1 2 unfolding Service_DeleteFile_def Let_def
    by (auto split: prod.split_asm sum.split_asm option.split_asm)
  then show ?thesis
  proof cases
    case early
    with s1 show ?thesis by auto
  next
    case nobegin
    with begin_settled [OF 2 [unfolded nobegin(1)]] s1 show ?thesis by auto
  next
    case tx
    have "delete_allowed c w"
      using repo.get_ok [OF 1 [unfolded tx(1)]] tx(2) unfolding delete_allowed_def by blast
    moreover note s2 = begin_within [OF 2 [unfolded tx(3)], of ?a "[]" w]
    ultimately show ?thesis
      using delete_in_tx_spec [OF tx(4), of "[]" w] s1 s2 u abandon_tx_settled [of ?a t "[]" w w3] tx(5)
      by (auto simp: dropped_def)
  qed
qed

lemma delete_ok_allowed:
  "Service_DeleteFile fs c w = (None, w') \<Longrightarrow> unique_aliases key (rows w) \<Longrightarrow> delete_allowed c w"
  using delete_ok unfolding delete_allowed_def by blast

text \<open>A user without access changes nothing.\<close>

lemma delete_denied:
  assumes "repo_GetFileByAlias (fs_fileRepo fs) (del_Alias c) w = (Inr f, w1)"
    and "checkAccess f (ui_UserID (del_User c)) (ui_Roles (del_User c)) = Some x"
  shows "\<exists>e w'. Service_DeleteFile fs c w = (Some e, w') \<and> leaf_of e = leaf_of x \<and>
    rows w' = rows w \<and> folder w' = folder w \<and> opened w' = opened w \<and> view w' = view w"
  using assms repo.get_ok [OF assms(1)] by (auto simp: Service_DeleteFile_def)

subsubsection \<open>The read-only operations\<close>

lemma get_keeps:
  "Service_GetFileByAlias fs c w = (r, w') \<Longrightarrow>
   settled a [] w w' \<and> rows w' = rows w \<and> folder w' = folder w"
  unfolding Service_GetFileByAlias_def Let_def
  by (auto split: prod.split_asm sum.split_asm option.split_asm dest!: get_settled [OF _ settled_refl, where a = a])

lemma list_keeps:
  "Service_GetAllFiles fs c w = (r, w') \<Longrightarrow> settled a [] w w' \<and> rows w' = rows w \<and> folder w' = folder w"
  unfolding Service_GetAllFiles_def Let_def settled_def
  by (auto split: prod.split_asm sum.split_asm dest!: repo.list_frame simp: apart_def)

lemma stat_keeps:
  "Service_GetFilesStat fs c w = (r, w') \<Longrightarrow> settled a [] w w' \<and> rows w' = rows w \<and> folder w' = folder w"
  unfolding Service_GetFilesStat_def Let_def
  by (auto split: prod.split_asm sum.split_asm dest!: stat_settled [where a = a])

lemma get_ok_row:
  assumes "Service_GetFileByAlias fs c w = (Inr g, w')"
  shows "\<exists>f t0. f \<in> set (rows w) \<and> moment (clock w) t0 (clock w') \<and>
    live_as key (dbnow t0) (gf_Alias c) f \<and>
    checkAccess f (ui_UserID (gf_User c)) (ui_Roles (gf_User c)) = None \<and>
    g = file_result (fs_now fs w') f"
  using assms unfolding Service_GetFileByAlias_def Let_def
  by (auto split: prod.split_asm sum.split_asm option.split_asm dest!: repo.get_ok)

end

end
