(* ===== verification/File_Worker.thy ===== *)
theory File_Worker
  imports File_Vault
begin

text \<open>
  \<open>internal/services/worker/worker.go\<close>: the background worker that removes expired files in
  batches.  \<open>Start\<close> is a loop over the events its \<open>select\<close> receives; one received tick is the
  function \<open>FileWorker_tick\<close>.
\<close>

record 'w file_worker =
  fw_Delay :: duration
  fw_repo :: "'w file_repo"
  fw_files :: "'w file_storage"
  fw_Sleep :: "duration \<Rightarrow> 'w \<Rightarrow> 'w"

definition batchLimit :: int where "batchLimit = 100"

definition NewFileWorker ::
  "'w file_repo \<Rightarrow> 'w file_storage \<Rightarrow> (duration \<Rightarrow> 'w \<Rightarrow> 'w) \<Rightarrow> service_cfg \<Rightarrow> 'w file_worker" where
  "NewFileWorker repo files sleep cfg =
     \<lparr>fw_Delay = FileWorkerDelay cfg, fw_repo = repo, fw_files = files, fw_Sleep = sleep\<rparr>"

text \<open>How the inner loop over the aliases ends: at the end of the list, by \<open>break\<close>, by \<open>return\<close>.\<close>

datatype loop_end = LoopDone | LoopBreak | LoopReturn

fun delete_folders :: "'w file_storage \<Rightarrow> string list \<Rightarrow> 'w \<Rightarrow> loop_end \<times> 'w" where
  "delete_folders files [] w = (LoopDone, w)"
| "delete_folders files (alias # aliases) w =
     (case st_Delete files alias w of
        (Some err, w1) \<Rightarrow>
          (if errors_Is err (Ext Canceled) then (LoopReturn, w1) else (LoopBreak, w1))
      | (None, w1) \<Rightarrow> delete_folders files aliases w1)"

definition worker_rollback :: "'w file_worker \<Rightarrow> tx \<Rightarrow> 'w \<Rightarrow> 'w" where
  "worker_rollback fw t w = snd (repo_Rollback (fw_repo fw) t w)"

text \<open>One tick: \<open>True\<close> when the loop goes on, \<open>False\<close> when \<open>Start\<close> returns.\<close>

definition FileWorker_tick :: "'w file_worker \<Rightarrow> 'w \<Rightarrow> bool \<times> 'w" where
  "FileWorker_tick fw w =
     (case repo_BeginTx (fw_repo fw) w of
        (Inl err, w1) \<Rightarrow> (True, fw_Sleep fw (5 * second) w1)
      | (Inr t, w1) \<Rightarrow>
     (case repo_DeleteExpiredFilesTx (fw_repo fw) t batchLimit w1 of
        (Inl err, w2) \<Rightarrow> (True, worker_rollback fw t w2)
      | (Inr aliases, w2) \<Rightarrow>
     (case delete_folders (fw_files fw) aliases w2 of
        (LoopReturn, w3) \<Rightarrow> (False, worker_rollback fw t w3)
      | (LoopBreak, w3) \<Rightarrow> (True, worker_rollback fw t w3)
      | (LoopDone, w3) \<Rightarrow>
     (case repo_Commit (fw_repo fw) t w3 of
        (Some err, w4) \<Rightarrow> (True, w4)
      | (None, w4) \<Rightarrow> (True, w4)))))"

datatype worker_event = CtxDone | TickerC

text \<open>
  \<open>Start\<close> over the events it receives; the first component is \<open>True\<close> while it still waits for
  the next event.
\<close>

fun FileWorker_Start :: "'w file_worker \<Rightarrow> worker_event list \<Rightarrow> 'w \<Rightarrow> bool \<times> 'w" where
  "FileWorker_Start fw [] w = (True, w)"
| "FileWorker_Start fw (CtxDone # es) w = (False, w)"
| "FileWorker_Start fw (TickerC # es) w =
     (case FileWorker_tick fw w of
        (False, w1) \<Rightarrow> (False, w1)
      | (True, w1) \<Rightarrow> FileWorker_Start fw es w1)"

subsection \<open>What a tick may do\<close>

text \<open>Rows taken out of the table: no others go, and each has expired.\<close>

definition purged ::
  "(string \<Rightarrow> string) \<Rightarrow> int \<Rightarrow> instant \<Rightarrow> file_info list \<Rightarrow> file_info list \<Rightarrow> bool" where
  "purged key n now fs fs' \<longleftrightarrow>
     (\<exists>gone. set gone \<subseteq> set fs \<and> int (length gone) \<le> n \<and>
        (\<forall>f \<in> set gone. f_ExpiresAt f < now) \<and>
        fs' = filter (\<lambda>f. \<forall>g \<in> set gone. key (f_Alias f) \<noteq> key (f_Alias g)) fs)"

lemma purged_unique:
  assumes p: "purged key n now fs fs'" and u: "unique_aliases key fs"
  shows "\<exists>P. fs' = filter P fs \<and> (\<forall>f \<in> set fs. \<not> P f \<longrightarrow> f_ExpiresAt f < now) \<and>
    int (length fs) - n \<le> int (length fs')"
proof -
  from p obtain gone where g: "set gone \<subseteq> set fs" "int (length gone) \<le> n"
    "\<forall>f \<in> set gone. f_ExpiresAt f < now"
    and fs': "fs' = filter (\<lambda>f. \<forall>g \<in> set gone. key (f_Alias f) \<noteq> key (f_Alias g)) fs"
    unfolding purged_def by blast
  have "(\<forall>h \<in> set gone. key (f_Alias f) \<noteq> key (f_Alias h)) \<longleftrightarrow> f \<notin> set gone" if "f \<in> set fs" for f
    using unique_same [OF u that, of _ "f_Alias f"] g(1) by (auto simp: same_alias_def)
  then have f: "fs' = filter (\<lambda>f. f \<notin> set gone) fs" unfolding fs' by (intro filter_cong) auto
  have "length (filter (\<lambda>f. f \<in> set gone) fs) \<le> length gone"
  proof -
    have d: "distinct fs" using u unfolding unique_aliases_def by (simp add: distinct_map)
    then have "length (filter (\<lambda>f. f \<in> set gone) fs) = card (set (filter (\<lambda>f. f \<in> set gone) fs))"
      by (metis distinct_card distinct_filter)
    also have "\<dots> \<le> card (set gone)" by (rule card_mono) auto
    also have "\<dots> \<le> length gone" by (rule card_length)
    finally show ?thesis .
  qed
  moreover have "length fs = length (filter (\<lambda>f. f \<in> set gone) fs) + length fs'"
    using sum_length_filter_compl [of "\<lambda>f. f \<in> set gone" fs] f by simp
  ultimately show ?thesis using f g by (intro exI [of _ "\<lambda>f. f \<notin> set gone"]) auto
qed

lemma unique_purged [inv_rules]: "purged key n now fs fs' \<Longrightarrow> unique_aliases k fs \<Longrightarrow> unique_aliases k fs'"
  by (auto simp: purged_def unique_aliases_def distinct_map_filterI)

lemma counters_purged [inv_rules]: "purged key n now fs fs' \<Longrightarrow> counters_ok fs \<Longrightarrow> counters_ok fs'"
  by (auto simp: purged_def counters_ok_def list_all_iff)

context vault
begin

definition worker_of :: "(duration \<Rightarrow> 'w \<Rightarrow> 'w) \<Rightarrow> service_cfg \<Rightarrow> 'w file_worker" where
  "worker_of sleep cfg = NewFileWorker (fs_fileRepo fs) (fs_fileStorage fs) sleep cfg"

text \<open>Between \<open>w\<close> and \<open>v\<close> only folders changed.\<close>

definition folders_only :: "'w \<Rightarrow> 'w \<Rightarrow> bool" where
  "folders_only w v \<longleftrightarrow> rows v = rows w \<and> view v = view w \<and> opened v = opened w \<and> clock w \<le> clock v"

lemma delete_folders_only:
  "delete_folders (fs_fileStorage fs) as w = (r, w') \<Longrightarrow>
   folders_only w w' \<and> ((\<forall>a \<in> set as. good a) \<longrightarrow>
     (\<forall>b. good b \<longrightarrow> b \<notin> set as \<longrightarrow> folder w' b = folder w b))"
proof (induction as arbitrary: w)
  case Nil
  then show ?case by (simp add: folders_only_def)
next
  case (Cons a as)
  obtain x w1 where 1: "st_Delete (fs_fileStorage fs) a w = (x, w1)"
    by (cases "st_Delete (fs_fileStorage fs) a w")
  have s: "folders_only w w1 \<and> (good a \<longrightarrow> (\<forall>b. good b \<longrightarrow> b \<noteq> a \<longrightarrow> folder w1 b = folder w b))"
    using 1 store.delete_ok [of a w w1] store.delete_err [of a w _ w1]
    unfolding folders_only_def by (cases x) auto
  show ?case
  proof (cases x)
    case None
    with Cons.IH [of w1] Cons.prems 1 s show ?thesis by (auto simp: folders_only_def)
  next
    case (Some e)
    with Cons.prems 1 s show ?thesis by (auto split: if_splits)
  qed
qed

text \<open>All the folders are gone when the loop ends.\<close>

lemma delete_folders_done:
  assumes "delete_folders (fs_fileStorage fs) as w = (LoopDone, w')" "\<forall>a \<in> set as. good a" "distinct as"
  shows "\<forall>a \<in> set as. folder w' a = None"
  using assms
proof (induction as arbitrary: w)
  case Nil
  then show ?case by simp
next
  case (Cons a as)
  from Cons.prems(1) obtain w1 where 1: "st_Delete (fs_fileStorage fs) a w = (None, w1)"
    and 2: "delete_folders (fs_fileStorage fs) as w1 = (LoopDone, w')"
    by (auto split: prod.split_asm option.split_asm if_split_asm)
  from Cons.IH [OF 2] Cons.prems delete_folders_only [OF 2] store.delete_ok [OF 1] show ?case by auto
qed

text \<open>What a tick leaves: nothing open, and the table as it was or without some expired rows.\<close>

definition tick_end :: "'w \<Rightarrow> 'w \<Rightarrow> bool" where
  "tick_end w w' \<longleftrightarrow>
     view w' = view w \<and> opened w' = opened w \<and> clock w \<le> clock w' \<and>
     (rows w' = rows w \<or>
      (\<exists>d. moment (clock w) d (clock w') \<and> purged key batchLimit (dbnow d) (rows w) (rows w')))"

lemma tick_commit:
  assumes b: "rows w1 = rows w" "(view w1)(t := None) = view w" "opened w1 = opened w" "clock w \<le> clock w1"
    "view w1 t = Some (rows w)"
    and e: "repo_DeleteExpiredFilesTx (fs_fileRepo fs) t batchLimit w1 = (Inr aliases, w2)"
    and f: "folders_only w2 w3" and c: "repo_Commit (fs_fileRepo fs) t w3 = (r, w4)"
  shows "tick_end w w4"
proof -
  from repo.expired_ok [OF e] obtain v gone d where
    v: "view w1 t = Some v" and g: "moment (clock w1) d (clock w2)" "set gone \<subseteq> set v"
    "int (length gone) \<le> max 0 batchLimit" "\<forall>f \<in> set gone. f_ExpiresAt f < dbnow d"
    and T: "view w2 = (view w1)(t \<mapsto> filter (\<lambda>f. \<forall>g \<in> set gone. key (f_Alias f) \<noteq> key (f_Alias g)) v)"
    and w2: "rows w2 = rows w1" "opened w2 = opened w1" "clock w1 \<le> clock w2" by auto
  define T' where "T' = filter (\<lambda>f. \<forall>g \<in> set gone. key (f_Alias f) \<noteq> key (f_Alias g)) v"
  have "v = rows w" using v b(5) by simp
  moreover have "int (length gone) \<le> batchLimit" using g(3) by (simp add: batchLimit_def)
  ultimately have p: "purged key batchLimit (dbnow d) (rows w) T'"
    using g unfolding purged_def T'_def by blast
  have w3: "view w3 t = Some T'" "rows w3 = rows w" "(view w3)(t := None) = view w"
    "opened w3 = opened w" "clock w2 \<le> clock w3"
    using f T w2 b unfolding folders_only_def T'_def by simp_all
  have "view w4 = view w \<and> opened w4 = opened w \<and> clock w3 \<le> clock w4 \<and> (rows w4 = rows w \<or> rows w4 = T')"
  proof (cases r)
    case None
    with repo.commit_ok [of t w3 w4] c w3 show ?thesis by simp
  next
    case (Some x)
    with repo.commit_err [of t w3 x w4] c w3 show ?thesis by auto
  qed
  moreover have "moment (clock w) d (clock w4)" "clock w \<le> clock w4"
    using calculation g(1) w3(5) w2(3) b(4) by (auto simp: moment_def)
  ultimately show ?thesis using p unfolding tick_end_def by metis
qed

lemma tick_rollback:
  assumes "(view v)(t := None) = view w" "opened v = opened w" "rows v = rows w" "clock w \<le> clock v"
  shows "tick_end w (worker_rollback (worker_of sleep cfg) t v)"
proof -
  obtain y v' where "repo_Rollback (fs_fileRepo fs) t v = (y, v')"
    by (cases "repo_Rollback (fs_fileRepo fs) t v")
  with repo.rollback [OF this] assms show ?thesis
    by (auto simp: worker_rollback_def worker_of_def NewFileWorker_def tick_end_def)
qed

lemma expired_frame:
  assumes "repo_DeleteExpiredFilesTx (fs_fileRepo fs) t lim v = (r, v')"
  shows "rows v' = rows v \<and> (view v')(t := None) = (view v)(t := None) \<and> opened v' = opened v \<and>
    clock v \<le> clock v'"
proof (cases r)
  case (Inl e)
  with repo.expired_err [of t lim v e v'] assms show ?thesis by (auto simp: fun_eq_iff)
next
  case (Inr x)
  with repo.expired_ok [of t lim v x v'] assms show ?thesis by (auto simp: fun_eq_iff)
qed

lemma tick_effect:
  assumes t: "FileWorker_tick (worker_of sleep cfg) w = (r, w')"
    and sleep: "\<And>d v. rows (sleep d v) = rows v \<and> view (sleep d v) = view v \<and>
      opened (sleep d v) = opened v \<and> clock v \<le> clock (sleep d v)"
  shows "tick_end w w'"
proof -
  let ?repo = "fs_fileRepo fs" and ?st = "fs_fileStorage fs"
  let ?rb = "worker_rollback (worker_of sleep cfg)"
  obtain r1 w1 where 1: "repo_BeginTx ?repo w = (r1, w1)" by (cases "repo_BeginTx ?repo w")
  show ?thesis
  proof (cases r1)
    case (Inl e)
    with t 1 repo.begin_err [of w e w1] sleep [of "5 * second" w1] show ?thesis
      by (auto simp: FileWorker_tick_def worker_of_def NewFileWorker_def tick_end_def)
  next
    case (Inr x)
    obtain r2 w2 where 2: "repo_DeleteExpiredFilesTx ?repo x batchLimit w1 = (r2, w2)"
      by (cases "repo_DeleteExpiredFilesTx ?repo x batchLimit w1")
    from repo.begin_ok [OF 1 [unfolded Inr]] have b: "rows w1 = rows w" "(view w1)(x := None) = view w"
      "opened w1 = opened w" "clock w \<le> clock w1" "view w1 x = Some (rows w)" by auto
    have w2: "rows w2 = rows w" "(view w2)(x := None) = view w" "opened w2 = opened w" "clock w \<le> clock w2"
      using expired_frame [OF 2] b by auto
    show ?thesis
    proof (cases r2)
      case r2: (Inl e)
      with t 1 2 Inr have "w' = ?rb x w2"
        by (simp add: FileWorker_tick_def worker_of_def NewFileWorker_def worker_rollback_def)
      with w2 tick_rollback show ?thesis by simp
    next
      case as: (Inr aliases)
      obtain e3 w3 where 3: "delete_folders ?st aliases w2 = (e3, w3)" by (cases "delete_folders ?st aliases w2")
      note f3 = delete_folders_only [OF 3, THEN conjunct1]
      obtain r4 w4 where 4: "repo_Commit ?repo x w3 = (r4, w4)" by (cases "repo_Commit ?repo x w3")
      have "w' = (if e3 = LoopDone then w4 else ?rb x w3)"
        using t 1 2 3 4 Inr as
        by (cases e3; cases r4) (simp_all add: FileWorker_tick_def worker_of_def NewFileWorker_def worker_rollback_def)
      moreover have "tick_end w w4" using tick_commit [OF b 2 [unfolded as] f3 4] .
      moreover have "tick_end w (?rb x w3)"
        using f3 w2 by (intro tick_rollback) (auto simp: folders_only_def)
      ultimately show ?thesis by simp
    qed
  qed
qed

end

end
