(* ===== verification/World.thy ===== *)
theory World
  imports Entities "HOL-Library.AList"
begin

text \<open>
  The state outside the process that the program works on: the table \<open>files\<close> of the database
  with its open transactions, the folders of the local storage, the open files, and the clock.

  Every call that leaves the process reads one \<open>tick\<close> from a tape that stands for the
  environment: how much time the call takes, whether it fails and with what error, and, for the
  calls that may fail half-way, whether they took effect all the same and how many bytes they
  moved.  An empty tape is an environment in which nothing fails and no time passes.  Theorems
  quantify over the tape.
\<close>

record tick =
  t_dt :: nat
  t_fault :: "ext_err option"
  t_took :: bool
  t_amount :: nat

definition ok_tick :: tick where
  "ok_tick = \<lparr>t_dt = 0, t_fault = None, t_took = True, t_amount = 0\<rparr>"

record row =
  row_id :: int
  row_file :: file_info

text \<open>A folder of the storage: its entries (name, bytes), as \<open>os.ReadDir\<close> lists them, by name.\<close>

type_synonym folder = "(string \<times> string) list"

record world =
  w_clock :: instant
  w_tape :: "tick list"
  w_table :: "row list"
  w_nextid :: int
  w_txs :: "(nat \<times> row list) list"
  w_dirs :: "string \<rightharpoonup> folder"
  w_open :: "nat list"

definition next_tick :: "world \<Rightarrow> tick \<times> world" where
  "next_tick w =
     (case w_tape w of
        [] \<Rightarrow> (ok_tick, w)
      | t # ts \<Rightarrow> (t, w\<lparr>w_clock := w_clock w + int (t_dt t), w_tape := ts\<rparr>))"

text \<open>A number that is not in use (file descriptors, transaction handles).\<close>

definition fresh :: "nat list \<Rightarrow> nat" where
  "fresh xs = Suc (fold max xs 0)"

lemma fold_max_ge: "a \<le> fold max xs a \<and> (\<forall>x \<in> set xs. x \<le> fold max xs (a :: nat))"
proof (induction xs arbitrary: a)
  case Nil
  then show ?case by simp
next
  case (Cons x xs)
  from Cons [of "max x a"] show ?case by auto
qed

lemma fresh_not_in [simp]: "fresh xs \<notin> set xs"
  using fold_max_ge [of 0 xs] by (auto simp: fresh_def)

lemma next_tick_frame:
  assumes "next_tick w = (t, w')"
  shows "w_table w' = w_table w" "w_txs w' = w_txs w" "w_dirs w' = w_dirs w"
    "w_open w' = w_open w" "w_nextid w' = w_nextid w" "w_clock w \<le> w_clock w'"
  using assms by (auto simp: next_tick_def split: list.splits)

lemma next_tick_clock: "next_tick w = (t, w') \<Longrightarrow> w_clock w' = w_clock w + int (t_dt t)"
  by (auto simp: next_tick_def ok_tick_def split: list.splits)

lemma next_tick_calm: "w_tape w = [] \<Longrightarrow> next_tick w = (ok_tick, w)"
  by (simp add: next_tick_def)

lemma ok_tick_simps [simp]:
  "t_dt ok_tick = 0" "t_fault ok_tick = None" "t_took ok_tick" "t_amount ok_tick = 0"
  by (simp_all add: ok_tick_def)

subsection \<open>Statements\<close>

text \<open>
  A query outside a transaction reads the committed table at the time the call ends.  A
  statement of a transaction reads and writes that transaction's copy; a failed one leaves it.
\<close>

definition db_query :: "(instant \<Rightarrow> row list \<Rightarrow> ext_err + 'a) \<Rightarrow> world \<Rightarrow> (ext_err + 'a) \<times> world" where
  "db_query q w =
     (case next_tick w of (t, w1) \<Rightarrow>
        (case t_fault t of
           Some e \<Rightarrow> (Inl e, w1)
         | None \<Rightarrow> (q (w_clock w1) (w_table w1), w1)))"

definition tx_exec ::
  "nat \<Rightarrow> (instant \<Rightarrow> row list \<Rightarrow> ext_err + ('a \<times> row list)) \<Rightarrow> world \<Rightarrow> (ext_err + 'a) \<times> world" where
  "tx_exec h q w =
     (case next_tick w of (t, w1) \<Rightarrow>
        (case t_fault t of
           Some e \<Rightarrow> (Inl e, w1)
         | None \<Rightarrow>
             (case map_of (w_txs w1) h of
                None \<Rightarrow> (Inl TxDone, w1)
              | Some v \<Rightarrow>
                  (case q (w_clock w1) v of
                     Inl e \<Rightarrow> (Inl e, w1)
                   | Inr (x, v') \<Rightarrow> (Inr x, w1\<lparr>w_txs := AList.update h v' (w_txs w1)\<rparr>)))))"

text \<open>A call that returns only an error, such as \<open>res.RowsAffected()\<close> or \<open>rows.Err()\<close>.\<close>

definition ext_check :: "world \<Rightarrow> ext_err option \<times> world" where
  "ext_check w = (case next_tick w of (t, w1) \<Rightarrow> (t_fault t, w1))"

text \<open>Nothing changed in the folders and the open files, and time did not run backwards.\<close>

definition same_files :: "world \<Rightarrow> world \<Rightarrow> bool" where
  "same_files w w' \<longleftrightarrow> w_dirs w' = w_dirs w \<and> w_open w' = w_open w \<and> w_clock w \<le> w_clock w'"

definition same_db :: "world \<Rightarrow> world \<Rightarrow> bool" where
  "same_db w w' \<longleftrightarrow> w_table w' = w_table w \<and> w_txs w' = w_txs w \<and> w_nextid w' = w_nextid w"

lemma db_query_frame:
  "db_query q w = (r, w') \<Longrightarrow> same_db w w' \<and> same_files w w'"
  by (auto simp: db_query_def same_db_def same_files_def split: prod.splits option.splits
      dest: next_tick_frame)

lemma db_query_Inr:
  "db_query q w = (Inr x, w') \<Longrightarrow> q (w_clock w') (w_table w) = Inr x"
  by (auto simp: db_query_def split: prod.splits option.splits dest: next_tick_frame)

lemma ext_check_frame:
  "ext_check w = (r, w') \<Longrightarrow> same_db w w' \<and> same_files w w'"
  by (auto simp: ext_check_def same_db_def same_files_def split: prod.splits
      dest: next_tick_frame)

lemma tx_exec_Inl:
  "tx_exec h q w = (Inl e, w') \<Longrightarrow> same_db w w' \<and> same_files w w'"
  by (auto simp: tx_exec_def same_db_def same_files_def split: prod.splits option.splits sum.splits
      dest: next_tick_frame)

lemma tx_exec_Inr:
  assumes "tx_exec h q w = (Inr x, w')"
  obtains v v' where "map_of (w_txs w) h = Some v" "q (w_clock w') v = Inr (x, v')"
    "w_txs w' = AList.update h v' (w_txs w)" "w_table w' = w_table w" "same_files w w'"
proof -
  obtain t w1 where t: "next_tick w = (t, w1)" by (cases "next_tick w")
  note fr = next_tick_frame [OF t]
  from assms t fr show thesis
    using that by (auto simp: tx_exec_def same_files_def split: option.splits sum.splits)
qed

text \<open>In a calm world calls succeed and leave the clock alone.\<close>

lemma calm_query: "w_tape w = [] \<Longrightarrow> db_query q w = (q (w_clock w) (w_table w), w)"
  by (simp add: db_query_def next_tick_calm)

lemma calm_check: "w_tape w = [] \<Longrightarrow> ext_check w = (None, w)"
  by (simp add: ext_check_def next_tick_calm)

lemma calm_exec:
  "w_tape w = [] \<Longrightarrow> map_of (w_txs w) h = Some v \<Longrightarrow>
   tx_exec h q w = (case q (w_clock w) v of
      Inl e \<Rightarrow> (Inl e, w)
    | Inr (x, v') \<Rightarrow> (Inr x, w\<lparr>w_txs := AList.update h v' (w_txs w)\<rparr>))"
  by (simp add: tx_exec_def next_tick_calm)

end
