(* ===== verification/Go_Paths.thy ===== *)
theory Go_Paths
  imports Go_Strings
begin

text \<open>
  \<open>path/filepath\<close> on Unix: \<open>Clean\<close>, \<open>Join\<close> of two elements, \<open>Base\<close>.  The storage keeps the
  file of an alias in the folder \<open>Join(path, alias)\<close>; the lemmas show that aliases without a
  slash and other than the empty name, \<open>.\<close> and \<open>..\<close> get folders of their own.
\<close>

text \<open>The segments of a path after the lexical rules of \<open>Clean\<close>; the stack is kept reversed.\<close>

fun clean_segs :: "bool \<Rightarrow> string list \<Rightarrow> string list \<Rightarrow> string list" where
  "clean_segs rooted [] st = rev st"
| "clean_segs rooted (s # ss) st =
     (if s = [] \<or> s = ''.'' then clean_segs rooted ss st
      else if s = ''..'' then
        (case st of
           [] \<Rightarrow> if rooted then clean_segs rooted ss [] else clean_segs rooted ss [''..'']
         | t # ts \<Rightarrow> if t = ''..'' then clean_segs rooted ss (''..'' # st)
                    else clean_segs rooted ss ts)
      else clean_segs rooted ss (s # st))"

fun join_segs :: "string list \<Rightarrow> string" where
  "join_segs [] = []"
| "join_segs [s] = s"
| "join_segs (s # ss) = s @ CHR ''/'' # join_segs ss"

definition Clean :: "string \<Rightarrow> string" where
  "Clean p =
     (if p = [] then ''.''
      else let rooted = (hd p = CHR ''/'');
               body = join_segs (clean_segs rooted (Split (CHR ''/'') p) [])
           in if rooted then CHR ''/'' # body else if body = [] then ''.'' else body)"

definition Join :: "string \<Rightarrow> string \<Rightarrow> string" where
  "Join a b = (if a = [] then (if b = [] then [] else Clean b)
               else if b = [] then Clean a else Clean (a @ CHR ''/'' # b))"

definition Base :: "string \<Rightarrow> string" where
  "Base p =
     (if p = [] then ''.''
      else let q = rev (dropWhile (\<lambda>c. c = CHR ''/'') (rev p));
               b = rev (takeWhile (\<lambda>c. c \<noteq> CHR ''/'') (rev q))
           in if b = [] then ''/'' else b)"

definition plain_name :: "string \<Rightarrow> bool" where
  "plain_name n \<longleftrightarrow> n \<noteq> [] \<and> n \<noteq> ''.'' \<and> n \<noteq> ''..'' \<and> CHR ''/'' \<notin> set n"

lemma Split_snoc:
  "c \<notin> set n \<Longrightarrow> Split c (p @ c # n) = Split c p @ [n]"
proof (induction c p rule: Split.induct)
  case (1 c s)
  show ?case
  proof (cases "breakAt c s")
    case None
    then have "c \<notin> set s" by (simp add: breakAt_None)
    then have "breakAt c (s @ c # n) = Some (s, n)" by (simp add: breakAt_Some)
    moreover have "breakAt c n = None" using 1 by (simp add: breakAt_None)
    ultimately show ?thesis using None
      by (simp add: Split.simps [of c "s @ c # n"] Split.simps [of c s] Split.simps [of c n])
  next
    case (Some ab)
    obtain a b where ab: "ab = (a, b)" by (cases ab)
    with Some have "breakAt c (s @ c # n) = Some (a, b @ c # n)"
      by (auto simp: breakAt_Some)
    with 1 Some ab show ?thesis
      by (simp add: Split.simps [of c "s @ c # n"] Split.simps [of c s])
  qed
qed

lemma clean_segs_snoc:
  "plain_name n \<Longrightarrow> clean_segs r (ss @ [n]) st = clean_segs r ss st @ [n]"
  by (induction r ss st rule: clean_segs.induct)
     (auto simp: plain_name_def split: list.splits)

lemma join_segs_snoc:
  "join_segs (ss @ [n]) = (if ss = [] then n else join_segs ss @ CHR ''/'' # n)"
proof (induction ss rule: join_segs.induct)
  case (3 s t ss)
  then show ?case by (cases ss) auto
qed auto

text \<open>\<open>filepath.Ext\<close>: the last element from its last dot on.\<close>

definition filepath_Ext :: "string \<Rightarrow> string" where
  "filepath_Ext path =
     (let q = (\<lambda>c. c \<noteq> CHR ''.'' \<and> c \<noteq> CHR ''/'') in
      case dropWhile q (rev path) of
        [] \<Rightarrow> []
      | c # _ \<Rightarrow> if c = CHR ''.'' then CHR ''.'' # rev (takeWhile q (rev path)) else [])"

text \<open>Joining a plain name to a path appends it to a prefix that does not depend on the name.\<close>

definition folder_prefix :: "string \<Rightarrow> string" where
  "folder_prefix p =
     (if p = [] then []
      else let rooted = (hd p = CHR ''/'');
               segs = clean_segs rooted (Split (CHR ''/'') p) []
           in (if rooted then ''/'' else []) @
              (if segs = [] then [] else join_segs segs @ ''/''))"

lemma Join_plain:
  assumes "plain_name n"
  shows "Join p n = folder_prefix p @ n"
proof (cases "p = []")
  case True
  have "breakAt (CHR ''/'') n = None" using assms by (simp add: plain_name_def breakAt_None)
  then have "Split (CHR ''/'') n = [n]" by (simp add: Split.simps [of _ n])
  moreover have "hd n \<noteq> CHR ''/''" using assms by (cases n) (auto simp: plain_name_def)
  ultimately show ?thesis using assms True
    by (simp add: Join_def Clean_def folder_prefix_def plain_name_def)
next
  case False
  have "Split (CHR ''/'') (p @ CHR ''/'' # n) = Split (CHR ''/'') p @ [n]"
    using assms by (intro Split_snoc) (simp add: plain_name_def)
  with assms False show ?thesis
    by (auto simp: Join_def Clean_def Let_def folder_prefix_def clean_segs_snoc join_segs_snoc
        plain_name_def)
qed

lemma Join_inj: "plain_name a \<Longrightarrow> plain_name b \<Longrightarrow> Join p a = Join p b \<longleftrightarrow> a = b"
  by (simp add: Join_plain)

lemma Join_not_under:
  assumes "plain_name a" "plain_name b" "a \<noteq> b"
  shows "\<nexists>rest. Join p b = Join p a @ CHR ''/'' # rest"
  using assms by (auto simp: Join_plain plain_name_def)

lemma Base_plain:
  assumes "plain_name n"
  shows "Base n = n"
proof -
  have "dropWhile (\<lambda>c. c = CHR ''/'') (rev n) = rev n"
    using assms by (cases "rev n") (auto simp: plain_name_def rev_eq_Cons_iff)
  moreover have "takeWhile (\<lambda>c. c \<noteq> CHR ''/'') (rev n) = rev n"
    using assms by (auto simp: plain_name_def takeWhile_eq_all_conv)
  ultimately have "Base n = (if rev (rev n) = [] then ''/'' else rev (rev n))"
    using assms unfolding Base_def Let_def by (simp only: rev_rev_ident plain_name_def) simp
  then show ?thesis using assms by (simp add: plain_name_def)
qed

lemma Base_no_slash: "Base p = ''/'' \<or> CHR ''/'' \<notin> set (Base p)"
  by (auto simp: Base_def Let_def dest: set_takeWhileD)

end
