(* ===== verification/Local_Storage.thy ===== *)
theory Local_Storage
  imports World Go_Paths Interfaces "HOL-Library.List_Lexorder" "HOL-Library.Char_ord"
begin

text \<open>
  \<open>internal/infrastructure/storage/local/files.go\<close>: the file of an alias is the one entry of the
  folder \<open>Join(cfg.Path, alias)\<close>.  First the calls of Go's \<open>os\<close> and \<open>io\<close> packages on the
  folders of the world, then the three methods of \<open>FileStorage\<close>, then the interpretation of the
  storage contract.
\<close>

subsection \<open>The operating system's calls\<close>

text \<open>Creating or truncating an entry keeps the listing sorted by name.\<close>

fun put_entry :: "string \<Rightarrow> string \<Rightarrow> folder \<Rightarrow> folder" where
  "put_entry n c [] = [(n, c)]"
| "put_entry n c ((m, x) # d) =
     (if n = m then (n, c) # d
      else if n < m then (n, c) # (m, x) # d
      else (m, x) # put_entry n c d)"

lemma map_of_put_entry [simp]: "map_of (put_entry n c d) = (map_of d)(n \<mapsto> c)"
  by (induction n c d rule: put_entry.induct) auto

definition os_MkdirAll :: "string \<Rightarrow> world \<Rightarrow> ext_err option \<times> world" where
  "os_MkdirAll p w =
     (case next_tick w of (t, w1) \<Rightarrow>
        (case t_fault t of
           Some e \<Rightarrow> (Some e, w1)
         | None \<Rightarrow> (None, w1\<lparr>w_dirs := (w_dirs w1)
             (p \<mapsto> (case w_dirs w1 p of None \<Rightarrow> [] | Some d \<Rightarrow> d))\<rparr>)))"

text \<open>A file name the operating system accepts for a new file.\<close>

definition valid_name :: "string \<Rightarrow> bool" where
  "valid_name n \<longleftrightarrow> plain_name n \<and> CHR 0x00 \<notin> set n \<and> length n \<le> 255"

definition os_Create :: "string \<Rightarrow> string \<Rightarrow> world \<Rightarrow> (ext_err + nat) \<times> world" where
  "os_Create p n w =
     (case next_tick w of (t, w1) \<Rightarrow>
        (case t_fault t of
           Some e \<Rightarrow> (Inl e, w1)
         | None \<Rightarrow>
             (case w_dirs w1 p of
                None \<Rightarrow> (Inl NotExist, w1)
              | Some d \<Rightarrow>
                  if valid_name n then
                    (let fd = fresh (w_open w1) in
                     (Inr fd, w1\<lparr>w_dirs := (w_dirs w1)(p \<mapsto> put_entry n [] d),
                                 w_open := fd # w_open w1\<rparr>))
                  else (Inl (OtherErr ''invalid file name''), w1))))"

text \<open>\<open>io.Copy\<close> into the created file; a failed copy leaves the bytes it moved.\<close>

definition io_Copy :: "string \<Rightarrow> string \<Rightarrow> string \<Rightarrow> world \<Rightarrow> ext_err option \<times> world" where
  "io_Copy p n content w =
     (case next_tick w of (t, w1) \<Rightarrow>
        (let bytes = (case t_fault t of None \<Rightarrow> content | Some _ \<Rightarrow> take (t_amount t) content);
             d = (case w_dirs w1 p of None \<Rightarrow> [] | Some d \<Rightarrow> d)
         in (t_fault t, w1\<lparr>w_dirs := (w_dirs w1)(p \<mapsto> put_entry n bytes d)\<rparr>)))"

definition os_Close :: "nat \<Rightarrow> world \<Rightarrow> goerr option \<times> world" where
  "os_Close fd w =
     (if fd \<in> set (w_open w) then (None, w\<lparr>w_open := removeAll fd (w_open w)\<rparr>)
      else (Some (Ext (OtherErr ''file already closed'')), w))"

text \<open>A path and everything below it.\<close>

definition under :: "string \<Rightarrow> string \<Rightarrow> bool" where
  "under p q \<longleftrightarrow> q = p \<or> take (Suc (length p)) q = p @ ''/''"

definition remove_under :: "string \<Rightarrow> (string \<rightharpoonup> folder) \<Rightarrow> (string \<rightharpoonup> folder)" where
  "remove_under p dirs = (\<lambda>q. if under p q then None else dirs q)"

definition os_RemoveAll :: "string \<Rightarrow> world \<Rightarrow> ext_err option \<times> world" where
  "os_RemoveAll p w =
     (case next_tick w of (t, w1) \<Rightarrow>
        (case t_fault t of
           None \<Rightarrow> (None, w1\<lparr>w_dirs := remove_under p (w_dirs w1)\<rparr>)
         | Some e \<Rightarrow>
             (Some e, if t_took t then w1\<lparr>w_dirs := remove_under p (w_dirs w1)\<rparr> else w1)))"

definition os_ReadDir :: "string \<Rightarrow> world \<Rightarrow> (ext_err + folder) \<times> world" where
  "os_ReadDir p w =
     (case next_tick w of (t, w1) \<Rightarrow>
        (case t_fault t of
           Some e \<Rightarrow> (Inl e, w1)
         | None \<Rightarrow> (case w_dirs w1 p of None \<Rightarrow> (Inl NotExist, w1) | Some d \<Rightarrow> (Inr d, w1))))"

text \<open>Opening an entry for reading: the bytes it holds and a new file descriptor.\<close>

definition os_Open :: "string \<times> string \<Rightarrow> world \<Rightarrow> (ext_err + (string \<times> nat)) \<times> world" where
  "os_Open entry w =
     (case next_tick w of (t, w1) \<Rightarrow>
        (case t_fault t of
           Some e \<Rightarrow> (Inl e, w1)
         | None \<Rightarrow>
             (let fd = fresh (w_open w1) in
              (Inr (snd entry, fd), w1\<lparr>w_open := fd # w_open w1\<rparr>))))"

definition ctx_Err :: "world \<Rightarrow> goerr option \<times> world" where
  "ctx_Err w =
     (case next_tick w of (t, w1) \<Rightarrow>
        (case t_fault t of
           Some Canceled \<Rightarrow> (Some (Ext Canceled), w1)
         | Some DeadlineExceeded \<Rightarrow> (Some (Ext DeadlineExceeded), w1)
         | _ \<Rightarrow> (None, w1)))"

subsection \<open>FileStorage\<close>

definition FileStorage_Upload ::
  "string \<Rightarrow> string \<Rightarrow> string \<Rightarrow> string \<Rightarrow> world \<Rightarrow> goerr option \<times> world" where
  "FileStorage_Upload cfgPath content alias filename w =
     (let folderPath = Join cfgPath alias; fn = ''storage.local.FileStorage.Upload: '' in
      case os_MkdirAll folderPath w of
        (Some err, w1) \<Rightarrow> (Some (errorf (fn @ ''create file folder failed: '') (Ext err)), w1)
      | (None, w1) \<Rightarrow>
          (case os_Create folderPath (Base filename) w1 of
             (Inl err, w2) \<Rightarrow> (Some (errorf (fn @ ''create file failed: '') (Ext err)), w2)
           | (Inr destFile, w2) \<Rightarrow>
               (case ctx_Err w2 of
                  (Some err, w3) \<Rightarrow> (Some err, snd (os_Close destFile w3))
                | (None, w3) \<Rightarrow>
                    (case io_Copy folderPath (Base filename) content w3 of
                       (Some err, w4) \<Rightarrow>
                         (let w5 = snd (os_Close destFile w4);
                              w6 = snd (os_RemoveAll folderPath w5)
                          in (Some (errorf (fn @ ''upload file failed: '') (Ext err)),
                              snd (os_Close destFile w6)))
                     | (None, w4) \<Rightarrow>
                         (case ext_check w4 of
                            (Some err, w5) \<Rightarrow> (Some (Ext err), snd (os_Close destFile w5))
                          | (None, w5) \<Rightarrow> (None, snd (os_Close destFile w5)))))))"

definition FileStorage_Download :: "string \<Rightarrow> string \<Rightarrow> world \<Rightarrow> download_result result \<times> world" where
  "FileStorage_Download cfgPath alias w =
     (let folderPath = Join cfgPath alias; fn = ''storage.local.FileStorage.Download: '' in
      case os_ReadDir folderPath w of
        (Inl err, w1) \<Rightarrow>
          (if err = NotExist then (Inl (Sentinel ErrFileNotFound), w1)
           else (Inl (errorf (fn @ ''read dir failed: '') (Ext err)), w1))
      | (Inr [], w1) \<Rightarrow> (Inl (Sentinel ErrFileNotFound), w1)
      | (Inr (entry # _), w1) \<Rightarrow>
          (case os_Open entry w1 of
             (Inl err, w2) \<Rightarrow> (Inl (errorf (fn @ ''open file failed: '') (Ext err)), w2)
           | (Inr (bytes, fd), w2) \<Rightarrow>
               (case ext_check w2 of
                  (Some err, w3) \<Rightarrow> (Inl (errorf (fn @ ''get file info failed: '') (Ext err)), w3)
                | (None, w3) \<Rightarrow>
                    (Inr \<lparr>dr_File = bytes, dr_Name = fst entry, dr_Size = int (length bytes),
                          dr_fd = fd\<rparr>, w3))))"

definition FileStorage_Delete :: "string \<Rightarrow> string \<Rightarrow> world \<Rightarrow> goerr option \<times> world" where
  "FileStorage_Delete cfgPath alias w =
     (let folderPath = Join cfgPath alias; fn = ''storage.local.FileStorage.Delete: '' in
      case os_RemoveAll folderPath w of
        (Some err, w1) \<Rightarrow>
          (if err = NotExist then (Some (Sentinel ErrFileNotFound), w1)
           else (Some (errorf (fn @ ''delete dir failed: '') (Ext err)), w1))
      | (None, w1) \<Rightarrow> (None, w1))"

definition NewFileStorage :: "string \<Rightarrow> world file_storage" where
  "NewFileStorage cfgPath =
     \<lparr>st_Delete = FileStorage_Delete cfgPath, st_Download = FileStorage_Download cfgPath,
      st_Close = os_Close, st_Upload = FileStorage_Upload cfgPath\<rparr>"

subsection \<open>What the calls leave alone\<close>

definition db_part :: "world \<Rightarrow> row list \<times> (nat \<times> row list) list \<times> int" where
  "db_part w = (w_table w, w_txs w, w_nextid w)"

definition folder_of :: "string \<Rightarrow> world \<Rightarrow> string \<Rightarrow> folder option" where
  "folder_of cfgPath w a = w_dirs w (Join cfgPath a)"

text \<open>The calls change folders at or below the given path only, and no part of the database.\<close>

definition touches_only :: "string \<Rightarrow> world \<Rightarrow> world \<Rightarrow> bool" where
  "touches_only p w w' \<longleftrightarrow> db_part w' = db_part w \<and> w_clock w \<le> w_clock w' \<and> (\<forall>q. \<not> under p q \<longrightarrow> w_dirs w' q = w_dirs w q)"

lemma touches_only_refl [simp]: "touches_only p w w"
  by (simp add: touches_only_def)

lemma touches_only_trans:
  "touches_only p w1 w2 \<Longrightarrow> touches_only p w2 w3 \<Longrightarrow> touches_only p w1 w3"
  by (auto simp: touches_only_def)

lemma under_refl [simp]: "under p p"
  by (simp add: under_def)

lemma next_tick_db: "next_tick w = (t, w') \<Longrightarrow> db_part w' = db_part w \<and> w_clock w \<le> w_clock w'"
  by (simp add: db_part_def next_tick_frame)

lemma db_part_update [simp]:
  "db_part (w\<lparr>w_dirs := d\<rparr>) = db_part w" "db_part (w\<lparr>w_open := u\<rparr>) = db_part w"
  by (simp_all add: db_part_def)

lemma MkdirAll_frame:
  "os_MkdirAll p w = (r, w') \<Longrightarrow> touches_only p w w' \<and> w_open w' = w_open w"
  by (auto simp: os_MkdirAll_def touches_only_def next_tick_db next_tick_frame
      split: prod.splits option.splits)

lemma Create_frame:
  "os_Create p n w = (Inl e, w') \<Longrightarrow> touches_only p w w' \<and> w_open w' = w_open w"
  "os_Create p n w = (Inr fd, w') \<Longrightarrow>
     touches_only p w w' \<and> fd \<notin> set (w_open w) \<and> w_open w' = fd # w_open w"
  by (auto simp: os_Create_def touches_only_def next_tick_db next_tick_frame Let_def
      split: prod.splits option.splits if_splits)

lemma Copy_frame:
  "io_Copy p n c w = (r, w') \<Longrightarrow> touches_only p w w' \<and> w_open w' = w_open w"
  by (auto simp: io_Copy_def touches_only_def next_tick_db next_tick_frame Let_def
      split: prod.splits)

lemma Copy_content:
  "io_Copy p n c w = (None, w') \<Longrightarrow> \<exists>d. w_dirs w' p = Some d \<and> map_of d n = Some c"
  by (auto simp: io_Copy_def Let_def split: prod.splits)

lemma Close_frame:
  "touches_only p w (snd (os_Close fd w))"
  "w_dirs (snd (os_Close fd w)) = w_dirs w"
  "w_open (snd (os_Close fd w)) = removeAll fd (w_open w)"
  by (auto simp: os_Close_def touches_only_def)

lemma Close_touches [simp]: "touches_only p w (snd (os_Close fd w')) = touches_only p w w'"
  "touches_only p (snd (os_Close fd w)) w' = touches_only p w w'"
  by (auto simp: os_Close_def touches_only_def)

lemma RemoveAll_frame:
  "os_RemoveAll p w = (r, w') \<Longrightarrow> touches_only p w w' \<and> w_open w' = w_open w"
  by (auto simp: os_RemoveAll_def touches_only_def next_tick_db next_tick_frame remove_under_def
      split: prod.splits option.splits)

lemma RemoveAll_gone: "os_RemoveAll p w = (None, w') \<Longrightarrow> w_dirs w' p = None"
  by (auto simp: os_RemoveAll_def remove_under_def split: prod.splits option.splits)

lemma ctx_Err_frame:
  "ctx_Err w = (r, w') \<Longrightarrow> touches_only p w w' \<and> w_dirs w' = w_dirs w \<and> w_open w' = w_open w"
  by (auto simp: ctx_Err_def touches_only_def next_tick_db next_tick_frame
      split: prod.splits option.splits ext_err.splits)

lemma check_frame:
  "ext_check w = (r, w') \<Longrightarrow> touches_only p w w' \<and> w_dirs w' = w_dirs w \<and> w_open w' = w_open w"
  by (auto simp: ext_check_def touches_only_def next_tick_db next_tick_frame split: prod.splits)

lemma not_under_plain:
  assumes "plain_name a" "plain_name b" "a \<noteq> b"
  shows "\<not> under (Join p a) (Join p b)"
proof
  assume "under (Join p a) (Join p b)"
  with assms have "take (Suc (length (Join p a))) (Join p b) = Join p a @ ''/''"
    by (auto simp: under_def Join_inj)
  then have "Join p b = Join p a @ CHR ''/'' # drop (Suc (length (Join p a))) (Join p b)"
    by (metis append_Cons append_assoc append_take_drop_id self_append_conv2)
  with Join_not_under [OF assms] show False by blast
qed

lemma touches_only_folder:
  "touches_only (Join p a) w w' \<Longrightarrow> plain_name a \<Longrightarrow> plain_name b \<Longrightarrow> b \<noteq> a \<Longrightarrow>
   folder_of p w' b = folder_of p w b"
  by (simp add: touches_only_def folder_of_def not_under_plain)

lemma touches_only_contract:
  assumes "touches_only (Join p a) w w'"
  shows "db_part w' = db_part w \<and> w_clock w \<le> w_clock w' \<and>
    (plain_name a \<longrightarrow> (\<forall>b. plain_name b \<longrightarrow> b \<noteq> a \<longrightarrow> folder_of p w' b = folder_of p w b))"
  using assms touches_only_folder [OF assms] by (simp add: touches_only_def)

subsection \<open>The methods\<close>

lemma Upload_frame:
  assumes "FileStorage_Upload p c a n w = (r, w')"
  shows "touches_only (Join p a) w w' \<and> w_open w' = w_open w"
proof -
  let ?p = "Join p a"
  obtain r1 w1 where 1: "os_MkdirAll ?p w = (r1, w1)" by (cases "os_MkdirAll ?p w")
  obtain r2 w2 where 2: "os_Create ?p (Base n) w1 = (r2, w2)" by (cases "os_Create ?p (Base n) w1")
  obtain r3 w3 where 3: "ctx_Err w2 = (r3, w3)" by (cases "ctx_Err w2")
  obtain r4 w4 where 4: "io_Copy ?p (Base n) c w3 = (r4, w4)" by (cases "io_Copy ?p (Base n) c w3")
  obtain r5 w5 where 5: "ext_check w4 = (r5, w5)" by (cases "ext_check w4")
  note fr = MkdirAll_frame [OF 1] ctx_Err_frame [OF 3, of ?p] Copy_frame [OF 4] check_frame [OF 5, of ?p]
  show ?thesis
  proof (cases r2)
    case (Inl e)
    with assms 1 2 fr Create_frame(1) [of ?p "Base n" w1 e w2] show ?thesis
      by (auto simp: FileStorage_Upload_def Let_def split: option.splits intro: touches_only_trans)
  next
    case (Inr fd)
    note cr = Create_frame(2) [OF 2 [unfolded Inr]]
    obtain r6 w6 where 6: "os_RemoveAll ?p (snd (os_Close fd w4)) = (r6, w6)"
      by (cases "os_RemoveAll ?p (snd (os_Close fd w4))")
    note fr = fr cr RemoveAll_frame [OF 6] Close_frame(2,3)
    have t3: "touches_only ?p w w3" using fr touches_only_trans by blast
    have t4: "touches_only ?p w w4" using t3 fr touches_only_trans by blast
    have "touches_only ?p w w5" using t4 fr touches_only_trans by blast
    moreover have "touches_only ?p w w6" using t4 fr touches_only_trans Close_touches(2) by blast
    ultimately show ?thesis
      using assms 1 2 3 4 5 6 Inr fr t3
      by (auto simp: FileStorage_Upload_def Let_def split: option.splits)
  qed
qed

lemma Upload_content:
  assumes "FileStorage_Upload p c a n w = (None, w')"
  shows "\<exists>d. folder_of p w' a = Some d \<and> map_of d (Base n) = Some c"
  using assms
  by (auto simp: FileStorage_Upload_def Let_def folder_of_def Close_frame
      split: prod.splits option.splits sum.splits dest!: Copy_content check_frame)

lemma Delete_frame:
  "FileStorage_Delete p a w = (r, w') \<Longrightarrow> touches_only (Join p a) w w' \<and> w_open w' = w_open w"
  by (auto simp: FileStorage_Delete_def Let_def split: prod.splits option.splits if_splits
      dest: RemoveAll_frame)

lemma Delete_gone: "FileStorage_Delete p a w = (None, w') \<Longrightarrow> folder_of p w' a = None"
  by (auto simp: FileStorage_Delete_def Let_def folder_of_def
      split: prod.splits option.splits if_splits dest: RemoveAll_gone)

lemma ReadDir_frame:
  "os_ReadDir p w = (r, w') \<Longrightarrow> db_part w' = db_part w \<and> w_clock w \<le> w_clock w' \<and> w_dirs w' = w_dirs w \<and> w_open w' = w_open w"
  by (auto simp: os_ReadDir_def next_tick_db next_tick_frame split: prod.splits option.splits)

lemma ReadDir_result:
  "os_ReadDir p w = (Inr d, w') \<Longrightarrow> w_dirs w p = Some d"
  by (auto simp: os_ReadDir_def next_tick_frame split: prod.splits option.splits)

lemma Open_frame:
  "os_Open x w = (Inl e, w') \<Longrightarrow> db_part w' = db_part w \<and> w_clock w \<le> w_clock w' \<and> w_dirs w' = w_dirs w \<and> w_open w' = w_open w"
  "os_Open x w = (Inr (b, fd), w') \<Longrightarrow> db_part w' = db_part w \<and> w_clock w \<le> w_clock w' \<and> w_dirs w' = w_dirs w \<and>
     b = snd x \<and> fd \<notin> set (w_open w) \<and> w_open w' = fd # w_open w"
  by (auto simp: os_Open_def next_tick_db next_tick_frame Let_def split: prod.splits option.splits)

lemma Download_Inr:
  assumes "FileStorage_Download p a w = (Inr r, w')"
  shows "db_part w' = db_part w \<and> w_clock w \<le> w_clock w' \<and> w_dirs w' = w_dirs w \<and>
    (\<exists>rest. folder_of p w a = Some ((dr_Name r, dr_File r) # rest)) \<and>
    dr_Size r = int (length (dr_File r)) \<and>
    dr_fd r \<notin> set (w_open w) \<and> w_open w' = dr_fd r # w_open w"
proof -
  obtain entry rest w1 where 1: "os_ReadDir (Join p a) w = (Inr (entry # rest), w1)"
    using assms by (auto simp: FileStorage_Download_def Let_def
        split: prod.splits sum.splits list.splits if_splits)
  obtain bytes fd w2 where 2: "os_Open entry w1 = (Inr (bytes, fd), w2)"
    using assms 1 by (auto simp: FileStorage_Download_def Let_def split: prod.splits sum.splits)
  obtain w3 where 3: "ext_check w2 = (None, w3)"
    using assms 1 2 by (auto simp: FileStorage_Download_def Let_def split: prod.splits option.splits)
  note fr = ReadDir_frame [OF 1] ReadDir_result [OF 1] Open_frame(2) [OF 2]
    check_frame [OF 3, of "Join p a"]
  have "w' = w3" "r = \<lparr>dr_File = bytes, dr_Name = fst entry, dr_Size = int (length bytes), dr_fd = fd\<rparr>"
    using assms 1 2 3 by (simp_all add: FileStorage_Download_def)
  with fr show ?thesis by (simp add: folder_of_def touches_only_def)
qed

lemma Download_Inl:
  assumes "FileStorage_Download p a w = (Inl e, w')"
  shows "db_part w' = db_part w \<and> w_clock w \<le> w_clock w' \<and> w_dirs w' = w_dirs w \<and>
    (w_open w' = w_open w \<or> (\<exists>fd. fd \<notin> set (w_open w) \<and> w_open w' = fd # w_open w))"
  using assms unfolding FileStorage_Download_def Let_def
  by (auto split: prod.splits sum.splits list.splits option.splits if_splits
      dest!: ReadDir_frame Open_frame check_frame [where p = "[]"] simp: touches_only_def)

lemma Download_domain_error:
  "FileStorage_Download p a w = (Inl e, w') \<Longrightarrow> is_domain e s \<Longrightarrow> s = ErrFileNotFound"
  by (auto simp: FileStorage_Download_def Let_def
      split: prod.splits sum.splits list.splits option.splits if_splits)

lemma Delete_domain_error:
  "FileStorage_Delete p a w = (Some e, w') \<Longrightarrow> is_domain e s \<Longrightarrow> s = ErrFileNotFound"
  by (auto simp: FileStorage_Delete_def Let_def split: prod.splits option.splits if_splits)

lemma ctx_Err_domain: "ctx_Err w = (Some e, w') \<Longrightarrow> \<not> is_domain e s"
  by (auto simp: ctx_Err_def split: prod.splits option.splits ext_err.splits)

lemma Upload_domain_error:
  "FileStorage_Upload p c a n w = (Some e, w') \<Longrightarrow> \<not> is_domain e s"
  by (auto simp: FileStorage_Upload_def Let_def split: prod.splits option.splits sum.splits
      dest: ctx_Err_domain)

subsection \<open>The storage contract\<close>

interpretation local_storage: storage_contract "NewFileStorage cfgPath" "folder_of cfgPath"
  w_open w_clock db_part plain_name
  for cfgPath
proof unfold_locales
  fix a :: string and r w w'
  assume "st_Download (NewFileStorage cfgPath) a w = (Inr r, w')"
  then show "db_part w' = db_part w \<and> w_clock w \<le> w_clock w' \<and> folder_of cfgPath w' = folder_of cfgPath w \<and>
      (\<exists>rest. folder_of cfgPath w a = Some ((dr_Name r, dr_File r) # rest)) \<and>
      dr_Size r = int (length (dr_File r)) \<and>
      dr_fd r \<notin> set (w_open w) \<and> w_open w' = dr_fd r # w_open w"
    by (auto simp: NewFileStorage_def folder_of_def [abs_def] dest!: Download_Inr)
next
  fix a :: string and e w w'
  assume "st_Download (NewFileStorage cfgPath) a w = (Inl e, w')"
  then have "FileStorage_Download cfgPath a w = (Inl e, w')" by (simp add: NewFileStorage_def)
  from Download_Inl [OF this] Download_domain_error [OF this]
  show "db_part w' = db_part w \<and> w_clock w \<le> w_clock w' \<and> folder_of cfgPath w' = folder_of cfgPath w \<and>
      (w_open w' = w_open w \<or> (\<exists>fd. fd \<notin> set (w_open w) \<and> w_open w' = fd # w_open w)) \<and>
      (\<forall>s. is_domain e s \<longrightarrow> s = ErrFileNotFound)"
    by (auto simp: folder_of_def [abs_def])
next
  fix fd cr w w'
  assume "st_Close (NewFileStorage cfgPath) fd w = (cr, w')"
  then have "w' = snd (os_Close fd w)" by (simp add: NewFileStorage_def)
  then show "db_part w' = db_part w \<and> w_clock w \<le> w_clock w' \<and> folder_of cfgPath w' = folder_of cfgPath w \<and>
      w_open w' = removeAll fd (w_open w)"
    using Close_frame(1) [of "[]" w fd]
    by (simp add: Close_frame(2,3) folder_of_def [abs_def] touches_only_def)
next
  fix a w w'
  assume "st_Delete (NewFileStorage cfgPath) a w = (None, w')"
  then have d: "FileStorage_Delete cfgPath a w = (None, w')" by (simp add: NewFileStorage_def)
  from Delete_frame [OF d] Delete_gone [OF d] touches_only_contract
  show "db_part w' = db_part w \<and> w_clock w \<le> w_clock w' \<and> w_open w' = w_open w \<and> folder_of cfgPath w' a = None \<and>
      (plain_name a \<longrightarrow> (\<forall>b. plain_name b \<longrightarrow> b \<noteq> a \<longrightarrow> folder_of cfgPath w' b = folder_of cfgPath w b))"
    by blast
next
  fix a :: string and e w w'
  assume "st_Delete (NewFileStorage cfgPath) a w = (Some e, w')"
  then have d: "FileStorage_Delete cfgPath a w = (Some e, w')" by (simp add: NewFileStorage_def)
  from Delete_frame [OF d] Delete_domain_error [OF d] touches_only_contract
  show "db_part w' = db_part w \<and> w_clock w \<le> w_clock w' \<and> w_open w' = w_open w \<and>
      (plain_name a \<longrightarrow> (\<forall>b. plain_name b \<longrightarrow> b \<noteq> a \<longrightarrow> folder_of cfgPath w' b = folder_of cfgPath w b)) \<and>
      (\<forall>s. is_domain e s \<longrightarrow> s = ErrFileNotFound)"
    by blast
next
  fix c a n w w'
  assume "st_Upload (NewFileStorage cfgPath) c a n w = (None, w')"
  then have u: "FileStorage_Upload cfgPath c a n w = (None, w')" by (simp add: NewFileStorage_def)
  from Upload_frame [OF u] Upload_content [OF u] touches_only_contract
  show "db_part w' = db_part w \<and> w_clock w \<le> w_clock w' \<and> w_open w' = w_open w \<and>
      (\<exists>d m. folder_of cfgPath w' a = Some d \<and> map_of d m = Some c) \<and>
      (plain_name a \<longrightarrow> (\<forall>b. plain_name b \<longrightarrow> b \<noteq> a \<longrightarrow> folder_of cfgPath w' b = folder_of cfgPath w b))"
    by blast
next
  fix c :: string and a n e w w'
  assume "st_Upload (NewFileStorage cfgPath) c a n w = (Some e, w')"
  then have u: "FileStorage_Upload cfgPath c a n w = (Some e, w')" by (simp add: NewFileStorage_def)
  from Upload_frame [OF u] Upload_domain_error [OF u] touches_only_contract
  show "db_part w' = db_part w \<and> w_clock w \<le> w_clock w' \<and> w_open w' = w_open w \<and>
      (plain_name a \<longrightarrow> (\<forall>b. plain_name b \<longrightarrow> b \<noteq> a \<longrightarrow> folder_of cfgPath w' b = folder_of cfgPath w b)) \<and>
      (\<forall>s. \<not> is_domain e s)"
    by blast
qed

end
