(* ===== verification/Mysql_Repo.thy ===== *)
theory Mysql_Repo
  imports World Interfaces
begin

text \<open>
  \<open>internal/infrastructure/mysql/files.go\<close>: the repository over the table \<open>files\<close> of the
  migrations.  Each SQL text of the source is a function on the rows; each method of \<open>FileRepo\<close>
  follows the Go code around it, every error branch included.

  What the database decides is a parameter: the collation under which aliases are compared and
  kept unique (\<open>collate\<close>), the order in which a query without \<open>ORDER BY\<close> returns rows
  (\<open>rank\<close>), the value of \<open>NOW()\<close>, the value a \<open>TIMESTAMP\<close> column keeps of an instant, which
  instants it holds (\<open>ts_fits\<close>) and which bytes are text of the character set (\<open>text_fits\<close>).
\<close>

record db_env =
  collate :: "string \<Rightarrow> string"
  rank :: "row \<Rightarrow> nat"
  sql_now :: "instant \<Rightarrow> instant"
  ts_col :: "instant \<Rightarrow> instant"
  ts_fits :: "instant \<Rightarrow> bool"
  text_fits :: "string \<Rightarrow> bool"

definition duplicateEntryErrCode :: nat where
  "duplicateEntryErrCode = 1062"

definition scan :: "db_env \<Rightarrow> row list \<Rightarrow> row list" where
  "scan E rs = sort_key (rank E) rs"

subsection \<open>The SQL texts\<close>

definition live_row :: "db_env \<Rightarrow> instant \<Rightarrow> string \<Rightarrow> row \<Rightarrow> bool" where
  "live_row E t a r \<longleftrightarrow> live_as (collate E) (sql_now E t) a (row_file r)"

definition owned_live :: "db_env \<Rightarrow> instant \<Rightarrow> int \<Rightarrow> row \<Rightarrow> bool" where
  "owned_live E t u r \<longleftrightarrow> f_UserID (row_file r) = u \<and> f_ExpiresAt (row_file r) > sql_now E t"

text \<open>
  What the columns of the migrations refuse in strict mode: bytes that are no text of the character
  set, a \<open>TEXT\<close> beyond 65535 bytes, a \<open>VARCHAR(50)\<close> and a \<open>VARCHAR(255)\<close> beyond their length
  (alias and hash are ASCII, a byte is a character), a time outside the range of \<open>TIMESTAMP\<close>.
\<close>

definition column_error :: "db_env \<Rightarrow> instant \<Rightarrow> add_file \<Rightarrow> ext_err option" where
  "column_error E currentTime c =
     (if \<not> text_fits E (af_Filename c) then Some (MySQLError 1366 ''Incorrect string value'')
      else if length (af_Filename c) > 65535 \<or> length (af_Alias c) > 50 \<or> length (af_PasswordHash c) > 255
      then Some (MySQLError 1406 ''Data too long for column'')
      else if \<not> ts_fits E (currentTime + af_TTL c) then Some (MySQLError 1292 ''Incorrect datetime value'')
      else None)"

text \<open>\<open>INSERT INTO files(...) VALUES(...)\<close> under the unique key on \<open>alias\<close>.\<close>

definition sql_insert ::
  "db_env \<Rightarrow> int \<Rightarrow> instant \<Rightarrow> add_file \<Rightarrow> instant \<Rightarrow> row list \<Rightarrow> ext_err + (int \<times> row list)" where
  "sql_insert E ident currentTime c t rs =
     (case column_error E currentTime c of Some err \<Rightarrow> Inl err | None \<Rightarrow>
      if \<exists>r \<in> set rs. same_alias (collate E) (af_Alias c) (row_file r)
      then Inl (MySQLError duplicateEntryErrCode ''Duplicate entry'')
      else Inr (ident, rs @
        [\<lparr>row_id = ident,
          row_file = \<lparr>f_Name = af_Filename c, f_Size = af_Filesize c, f_Alias = af_Alias c,
            f_DownloadsLeft = af_MaxDownloads c, f_PasswordHash = af_PasswordHash c,
            f_LoadedAt = ts_col E currentTime, f_ExpiresAt = ts_col E (currentTime + af_TTL c),
            f_UserID = af_UserID c\<rparr>\<rparr>]))"

text \<open>\<open>SELECT ... FROM files WHERE alias = ? AND expires_at > NOW()\<close>, one row.\<close>

definition sql_select_by_alias :: "db_env \<Rightarrow> string \<Rightarrow> instant \<Rightarrow> row list \<Rightarrow> ext_err + file_info" where
  "sql_select_by_alias E a t rs =
     (case find (live_row E t a) rs of None \<Rightarrow> Inl NoRows | Some r \<Rightarrow> Inr (row_file r))"

definition sql_count_by_user :: "db_env \<Rightarrow> int \<Rightarrow> instant \<Rightarrow> row list \<Rightarrow> ext_err + int" where
  "sql_count_by_user E u t rs = Inr (int (length (filter (owned_live E t u) rs)))"

text \<open>\<open>SELECT ... WHERE user_id = ? AND expires_at > NOW() LIMIT ? OFFSET ?\<close>.\<close>

definition sql_page_by_user ::
  "db_env \<Rightarrow> int \<Rightarrow> int \<Rightarrow> int \<Rightarrow> instant \<Rightarrow> row list \<Rightarrow> ext_err + row list" where
  "sql_page_by_user E u limit offset t rs =
     (if limit < 0 \<or> offset < 0 then Inl (OtherErr ''negative LIMIT or OFFSET'')
      else Inr (take (nat limit) (drop (nat offset) (filter (owned_live E t u) (scan E rs)))))"

text \<open>\<open>SELECT COUNT(*), COALESCE(SUM(file_size), 0) FROM files WHERE user_id = ?\<close>, scanned into int64.\<close>

definition sql_stat_by_user :: "int \<Rightarrow> instant \<Rightarrow> row list \<Rightarrow> ext_err + (int \<times> int)" where
  "sql_stat_by_user u t rs =
     (let own = filter (\<lambda>r. f_UserID (row_file r) = u) rs;
          tot = sum_list (map (\<lambda>r. f_Size (row_file r)) own)
      in if int64_range tot then Inr (int (length own), tot)
         else Inl (OtherErr ''value out of range''))"

definition sql_select_downloads ::
  "db_env \<Rightarrow> string \<Rightarrow> instant \<Rightarrow> row list \<Rightarrow> ext_err + (int \<times> row list)" where
  "sql_select_downloads E a t rs =
     (case find (live_row E t a) rs of
        None \<Rightarrow> Inl NoRows
      | Some r \<Rightarrow> Inr (f_DownloadsLeft (row_file r), rs))"

definition sql_update_downloads ::
  "db_env \<Rightarrow> string \<Rightarrow> int \<Rightarrow> instant \<Rightarrow> row list \<Rightarrow> ext_err + (unit \<times> row list)" where
  "sql_update_downloads E a n t rs =
     Inr ((), map (\<lambda>r. if same_alias (collate E) a (row_file r)
                        then r\<lparr>row_file := (row_file r)\<lparr>f_DownloadsLeft := n\<rparr>\<rparr> else r) rs)"

text \<open>\<open>DELETE FROM files WHERE alias = ? AND expires_at > NOW()\<close> with the number of rows.\<close>

definition sql_delete_live :: "db_env \<Rightarrow> string \<Rightarrow> instant \<Rightarrow> row list \<Rightarrow> ext_err + (nat \<times> row list)" where
  "sql_delete_live E a t rs =
     Inr (length (filter (live_row E t a) rs), filter (\<lambda>r. \<not> live_row E t a r) rs)"

text \<open>\<open>SELECT alias FROM files WHERE expires_at < NOW() LIMIT ? FOR UPDATE\<close>.\<close>

definition sql_select_expired ::
  "db_env \<Rightarrow> int \<Rightarrow> instant \<Rightarrow> row list \<Rightarrow> ext_err + (row list \<times> row list)" where
  "sql_select_expired E limit t rs =
     (if limit < 0 then Inl (OtherErr ''negative LIMIT or OFFSET'')
      else Inr (take (nat limit) (filter (\<lambda>r. f_ExpiresAt (row_file r) < sql_now E t) (scan E rs)), rs))"

definition sql_delete_alias :: "db_env \<Rightarrow> string \<Rightarrow> instant \<Rightarrow> row list \<Rightarrow> ext_err + (unit \<times> row list)" where
  "sql_delete_alias E a t rs =
     Inr ((), filter (\<lambda>r. \<not> same_alias (collate E) a (row_file r)) rs)"

subsection \<open>Transactions\<close>

definition FileRepo_BeginTx :: "world \<Rightarrow> tx result \<times> world" where
  "FileRepo_BeginTx w =
     (case next_tick w of (t, w1) \<Rightarrow>
        (case t_fault t of
           Some e \<Rightarrow> (Inl (Ext e), w1)
         | None \<Rightarrow>
             (let h = fresh (map fst (w_txs w1)) in
              (Inr (SqlTx h), w1\<lparr>w_txs := (h, w_table w1) # w_txs w1\<rparr>))))"

text \<open>
  \<open>sql.Tx.Commit\<close>: the copy becomes the table.  When the call fails the transaction is over all
  the same, and the server may have committed it or not.
\<close>

definition Tx_Commit :: "tx \<Rightarrow> world \<Rightarrow> goerr option \<times> world" where
  "Tx_Commit x w =
     (case x of
        OtherTx \<Rightarrow> (Some (NewErr ''not an sql transaction''), w)
      | SqlTx h \<Rightarrow>
          (case next_tick w of (t, w1) \<Rightarrow>
             (case map_of (w_txs w1) h of
                None \<Rightarrow> (Some (Ext TxDone), w1)
              | Some v \<Rightarrow>
                  (let done = w1\<lparr>w_txs := AList.delete h (w_txs w1)\<rparr> in
                   case t_fault t of
                     None \<Rightarrow> (None, done\<lparr>w_table := v\<rparr>)
                   | Some e \<Rightarrow> (Some (Ext e), if t_took t then done\<lparr>w_table := v\<rparr> else done)))))"

definition Tx_Rollback :: "tx \<Rightarrow> world \<Rightarrow> goerr option \<times> world" where
  "Tx_Rollback x w =
     (case x of
        OtherTx \<Rightarrow> (Some (NewErr ''not an sql transaction''), w)
      | SqlTx h \<Rightarrow>
          (case next_tick w of (t, w1) \<Rightarrow>
             (case map_of (w_txs w1) h of
                None \<Rightarrow> (Some (Ext TxDone), w1)
              | Some v \<Rightarrow>
                  (map_option Ext (t_fault t), w1\<lparr>w_txs := AList.delete h (w_txs w1)\<rparr>))))"

subsection \<open>The methods of FileRepo\<close>

definition not_sql :: "string \<Rightarrow> goerr" where
  "not_sql fn = NewErr (fn @ '': failed to convert tx to sql'')"

definition FileRepo_AddFileTx :: "db_env \<Rightarrow> tx \<Rightarrow> add_file \<Rightarrow> world \<Rightarrow> int result \<times> world" where
  "FileRepo_AddFileTx E x command w =
     (let fn = ''repository.mysql.FileRepo.AddFile'' in
      case x of
        OtherTx \<Rightarrow> (Inl (not_sql fn), w)
      | SqlTx h \<Rightarrow>
          (let currentTime = w_clock w in
           case tx_exec h (sql_insert E (w_nextid w) currentTime command) w of
             (Inl err, w1) \<Rightarrow>
               (if errors_As_mysql (Ext err) = Some duplicateEntryErrCode
                then (Inl (Sentinel ErrAliasTaken), w1)
                else (Inl (errorf (fn @ '': failed to exec sql: '') (Ext err)), w1))
           | (Inr ident, w1) \<Rightarrow>
               (case ext_check (w1\<lparr>w_nextid := w_nextid w1 + 1\<rparr>) of
                  (Some err, w2) \<Rightarrow>
                    (Inl (errorf (fn @ '': failed to get last insert id: '') (Ext err)), w2)
                | (None, w2) \<Rightarrow> (Inr ident, w2))))"

definition FileRepo_GetFileByAlias :: "db_env \<Rightarrow> string \<Rightarrow> world \<Rightarrow> file_info result \<times> world" where
  "FileRepo_GetFileByAlias E alias w =
     (let fn = ''repository.mysql.FileRepo.GetFileByAlias'' in
      case db_query (sql_select_by_alias E alias) w of
        (Inl err, w1) \<Rightarrow>
          (if err = NoRows then (Inl (Sentinel ErrFileNotFound), w1)
           else (Inl (errorf (fn @ '': failed to query sql: '') (Ext err)), w1))
      | (Inr f, w1) \<Rightarrow> (Inr f, w1))"

text \<open>The loop \<open>for rows.Next() { rows.Scan(\<dots>); \<dots> append \<dots> }\<close>.\<close>

fun scan_rows :: "row list \<Rightarrow> row list \<Rightarrow> world \<Rightarrow> (ext_err + row list) \<times> world" where
  "scan_rows [] acc w = (Inr acc, w)"
| "scan_rows (r # rs) acc w =
     (case ext_check w of
        (Some err, w1) \<Rightarrow> (Inl err, w1)
      | (None, w1) \<Rightarrow> scan_rows rs (acc @ [r]) w1)"

text \<open>
  On an error Go also returns the rows scanned so far and the total; the caller ignores them and
  the result keeps the error only.
\<close>

definition FileRepo_GetFilesByUserID ::
  "db_env \<Rightarrow> get_all_files \<Rightarrow> world \<Rightarrow> (file_info list \<times> int) result \<times> world" where
  "FileRepo_GetFilesByUserID E command w =
     (let fn = ''repository.mysql.FileRepo.GetFilesByUserID'' in
      case db_query (sql_count_by_user E (ga_UserID command)) w of
        (Inl err, w1) \<Rightarrow> (Inl (errorf (fn @ '': failed to query sql: '') (Ext err)), w1)
      | (Inr tot, w1) \<Rightarrow>
          (if tot = 0 then (Inr ([], 0), w1)
           else (let offset = wrap64 (wrap64 (ga_Page command - 1) * ga_Limit command) in
             case db_query (sql_page_by_user E (ga_UserID command) (ga_Limit command) offset) w1 of
               (Inl err, w2) \<Rightarrow> (Inl (errorf (fn @ '': failed to query sql: '') (Ext err)), w2)
             | (Inr rs, w2) \<Rightarrow>
                 (case scan_rows rs [] w2 of
                    (Inl err, w3) \<Rightarrow> (Inl (errorf (fn @ '': failed to scan row: '') (Ext err)), w3)
                  | (Inr files, w3) \<Rightarrow>
                      (case ext_check w3 of
                         (Some err, w4) \<Rightarrow>
                           (Inl (errorf (fn @ '': failed to iterate rows: '') (Ext err)), w4)
                       | (None, w4) \<Rightarrow> (Inr (map row_file files, tot), w4))))))"

definition FileRepo_GetFilesStatByUserID :: "int \<Rightarrow> world \<Rightarrow> files_stat result \<times> world" where
  "FileRepo_GetFilesStatByUserID userId w =
     (let fn = ''repository.mysql.FileRepo.GetFilesStatByUserID'' in
      case db_query (sql_stat_by_user userId) w of
        (Inl err, w1) \<Rightarrow>
          (if err = NoRows then (Inl (Sentinel ErrUserNotFound), w1)
           else (Inl (errorf (fn @ '': failed to query sql: '') (Ext err)), w1))
      | (Inr (cnt, sz), w1) \<Rightarrow>
          (Inr \<lparr>fst_UserID = userId, fst_Count = cnt, fst_Size = sz\<rparr>, w1))"

definition FileRepo_DecrementDownloadsByAliasTx ::
  "db_env \<Rightarrow> tx \<Rightarrow> string \<Rightarrow> world \<Rightarrow> int result \<times> world" where
  "FileRepo_DecrementDownloadsByAliasTx E x alias w =
     (let fn = ''repository.mysql.FileRepo.DecrementDownloadsByAlias'' in
      case x of
        OtherTx \<Rightarrow> (Inl (not_sql fn), w)
      | SqlTx h \<Rightarrow>
          (case tx_exec h (sql_select_downloads E alias) w of
             (Inl err, w1) \<Rightarrow>
               (if err = NoRows then (Inl (Sentinel ErrFileNotFound), w1)
                else (Inl (errorf (fn @ '': failed to exec sql: '') (Ext err)), w1))
           | (Inr downloadsLeft, w1) \<Rightarrow>
               (if downloadsLeft = 0 then (Inl (Sentinel ErrNoDownloadsLeft), w1)
                else (let downloadsLeft' = wrap16 (downloadsLeft - 1) in
                  case tx_exec h (sql_update_downloads E alias downloadsLeft') w1 of
                    (Inl err, w2) \<Rightarrow> (Inl (errorf (fn @ '': failed to exec sql: '') (Ext err)), w2)
                  | (Inr _, w2) \<Rightarrow> (Inr downloadsLeft', w2)))))"

definition FileRepo_DeleteFileTx :: "db_env \<Rightarrow> tx \<Rightarrow> string \<Rightarrow> world \<Rightarrow> goerr option \<times> world" where
  "FileRepo_DeleteFileTx E x alias w =
     (let fn = ''repository.mysql.FileRepo.DeleteFile'' in
      case x of
        OtherTx \<Rightarrow> (Some (not_sql fn), w)
      | SqlTx h \<Rightarrow>
          (case tx_exec h (sql_delete_live E alias) w of
             (Inl err, w1) \<Rightarrow> (Some (errorf (fn @ '': failed to exec sql: '') (Ext err)), w1)
           | (Inr n, w1) \<Rightarrow>
               (case ext_check w1 of
                  (Some err, w2) \<Rightarrow> (Some (errorf (fn @ '': failed to affect rows: '') (Ext err)), w2)
                | (None, w2) \<Rightarrow>
                    (if n = 0 then (Some (Sentinel ErrFileNotFound), w2) else (None, w2)))))"

text \<open>The loop \<open>for _, alias := range aliases { stmt.Exec(alias) }\<close>.\<close>

fun exec_deletes :: "db_env \<Rightarrow> nat \<Rightarrow> string list \<Rightarrow> world \<Rightarrow> ext_err option \<times> world" where
  "exec_deletes E h [] w = (None, w)"
| "exec_deletes E h (a # as) w =
     (case tx_exec h (sql_delete_alias E a) w of
        (Inl err, w1) \<Rightarrow> (Some err, w1)
      | (Inr _, w1) \<Rightarrow> exec_deletes E h as w1)"

definition FileRepo_DeleteExpiredFilesTx ::
  "db_env \<Rightarrow> tx \<Rightarrow> int \<Rightarrow> world \<Rightarrow> string list result \<times> world" where
  "FileRepo_DeleteExpiredFilesTx E x limit w =
     (let fn = ''repository.mysql.FileRepo.DeleteExpiredFiles'' in
      case x of
        OtherTx \<Rightarrow> (Inl (not_sql fn), w)
      | SqlTx h \<Rightarrow>
          (case tx_exec h (sql_select_expired E limit) w of
             (Inl err, w1) \<Rightarrow> (Inl (errorf (fn @ '': failed to exec sql: '') (Ext err)), w1)
           | (Inr rs, w1) \<Rightarrow>
               (case scan_rows rs [] w1 of
                  (Inl err, w2) \<Rightarrow> (Inl (errorf (fn @ '': failed to scan alias: '') (Ext err)), w2)
                | (Inr scanned, w2) \<Rightarrow>
                    (case ext_check w2 of
                       (Some err, w3) \<Rightarrow> (Inl (errorf (fn @ '': '') (Ext err)), w3)
                     | (None, w3) \<Rightarrow>
                         (let aliases = map (f_Alias \<circ> row_file) scanned in
                          if aliases = [] then (Inr aliases, w3)
                          else (case ext_check w3 of
                             (Some err, w4) \<Rightarrow>
                               (Inl (errorf (fn @ '': failed to prepare stmt: '') (Ext err)), w4)
                           | (None, w4) \<Rightarrow>
                               (case exec_deletes E h aliases w4 of
                                  (Some err, w5) \<Rightarrow>
                                    (Inl (errorf (fn @ '': failed to exec sql: '') (Ext err)), w5)
                                | (None, w5) \<Rightarrow> (Inr aliases, w5))))))))"

definition NewFileRepo :: "db_env \<Rightarrow> world file_repo" where
  "NewFileRepo E =
     \<lparr>repo_BeginTx = FileRepo_BeginTx, repo_Commit = Tx_Commit, repo_Rollback = Tx_Rollback,
      repo_GetFileByAlias = FileRepo_GetFileByAlias E,
      repo_GetFilesByUserID = FileRepo_GetFilesByUserID E,
      repo_GetFilesStatByUserID = FileRepo_GetFilesStatByUserID,
      repo_AddFileTx = FileRepo_AddFileTx E,
      repo_DecrementDownloadsByAliasTx = FileRepo_DecrementDownloadsByAliasTx E,
      repo_DeleteFileTx = FileRepo_DeleteFileTx E,
      repo_DeleteExpiredFilesTx = FileRepo_DeleteExpiredFilesTx E\<rparr>"

subsection \<open>The views of the contract\<close>

definition rows_of :: "world \<Rightarrow> file_info list" where
  "rows_of w = map row_file (w_table w)"

definition view_of :: "world \<Rightarrow> tx \<Rightarrow> file_info list option" where
  "view_of w x = (case x of SqlTx h \<Rightarrow> map_option (map row_file) (map_of (w_txs w) h) | OtherTx \<Rightarrow> None)"

definition files_part :: "world \<Rightarrow> (string \<rightharpoonup> folder) \<times> nat list" where
  "files_part w = (w_dirs w, w_open w)"

text \<open>Facts about one call, on the world.\<close>

lemma same_db_views:
  "same_db w w' \<Longrightarrow> rows_of w' = rows_of w \<and> view_of w' = view_of w"
  by (auto simp: same_db_def rows_of_def view_of_def fun_eq_iff split: tx.splits)

lemma same_files_part: "same_files w w' \<longleftrightarrow> files_part w' = files_part w \<and> w_clock w \<le> w_clock w'"
  by (auto simp: same_files_def files_part_def)

lemma same_trans:
  "same_db w1 w2 \<Longrightarrow> same_db w2 w3 \<Longrightarrow> same_db w1 w3"
  "same_files w1 w2 \<Longrightarrow> same_files w2 w3 \<Longrightarrow> same_files w1 w3"
  by (auto simp: same_db_def same_files_def)

lemma same_nextid [simp]:
  "same_files (w\<lparr>w_nextid := n\<rparr>) w' = same_files w w'"
  by (simp add: same_files_def)

text \<open>
  A method that stays inside transaction \<open>h\<close>: the committed table, the files and every other
  transaction are untouched.
\<close>

definition inside_tx :: "nat \<Rightarrow> world \<Rightarrow> world \<Rightarrow> bool" where
  "inside_tx h w w' \<longleftrightarrow> w_table w' = w_table w \<and> same_files w w' \<and>
     (\<forall>k. k \<noteq> h \<longrightarrow> map_of (w_txs w') k = map_of (w_txs w) k)"

lemma inside_tx_trans: "inside_tx h w1 w2 \<Longrightarrow> inside_tx h w2 w3 \<Longrightarrow> inside_tx h w1 w3"
  by (simp add: inside_tx_def same_files_def)

lemma inside_tx_refl [simp]: "inside_tx h w w"
  by (simp add: inside_tx_def same_files_def)

lemma inside_tx_nextid [simp]:
  "inside_tx h (w\<lparr>w_nextid := n\<rparr>) w' = inside_tx h w w'"
  by (simp add: inside_tx_def)

lemma same_inside_tx: "same_db w w' \<Longrightarrow> same_files w w' \<Longrightarrow> inside_tx h w w'"
  by (simp add: inside_tx_def same_db_def)

lemma check_inside: "ext_check w = (r, w') \<Longrightarrow> inside_tx h w w' \<and> same_db w w'"
  using ext_check_frame same_inside_tx by blast

lemma exec_inside: "tx_exec h q w = (r, w') \<Longrightarrow> inside_tx h w w'"
proof (cases r)
  case (Inl e)
  assume "tx_exec h q w = (r, w')"
  with Inl show ?thesis using tx_exec_Inl same_inside_tx by blast
next
  case (Inr x)
  assume "tx_exec h q w = (r, w')"
  with Inr show ?thesis
    by (auto elim!: tx_exec_Inr simp: inside_tx_def update_conv')
qed

lemma inside_tx_views:
  "inside_tx h w w' \<Longrightarrow> rows_of w' = rows_of w \<and> files_part w' = files_part w \<and> w_clock w \<le> w_clock w' \<and>
     (\<forall>x. x \<noteq> SqlTx h \<longrightarrow> view_of w' x = view_of w x)"
  by (auto simp: inside_tx_def rows_of_def same_files_part view_of_def split: tx.splits)

lemma scan_rows_frame: "scan_rows rs acc w = (r, w') \<Longrightarrow> same_db w w' \<and> same_files w w'"
proof (induction rs acc w rule: scan_rows.induct)
  case (1 acc w)
  then show ?case by (auto simp: same_db_def same_files_def)
next
  case (2 x rs acc w)
  then show ?case
    by (auto split: prod.splits option.splits dest!: ext_check_frame intro: same_trans)
qed

lemma scan_rows_result: "scan_rows rs acc w = (Inr xs, w') \<Longrightarrow> xs = acc @ rs"
  by (induction rs acc w rule: scan_rows.induct) (auto split: prod.splits option.splits)

lemma exec_deletes_inside: "exec_deletes E h as w = (r, w') \<Longrightarrow> inside_tx h w w'"
proof (induction E h as w rule: exec_deletes.induct)
  case (1 E h w)
  then show ?case by simp
next
  case (2 E h a as w)
  then show ?case
    by (auto split: prod.splits sum.splits dest!: exec_inside intro: inside_tx_trans)
qed

text \<open>The statements, seen on the rows without their ids.\<close>

lemma sql_select_by_alias_Inr:
  assumes "sql_select_by_alias E a t rs = Inr f"
  shows "f \<in> set (map row_file rs) \<and> live_as (collate E) (sql_now E t) a f"
proof -
  from assms obtain r where "find (live_row E t a) rs = Some r" "f = row_file r"
    by (auto simp: sql_select_by_alias_def split: option.splits)
  then show ?thesis by (auto simp: find_Some_iff live_row_def)
qed

lemma sql_select_by_alias_NoRows:
  "sql_select_by_alias E a t rs = Inl e \<longleftrightarrow>
   e = NoRows \<and> (\<forall>f \<in> set (map row_file rs). \<not> live_as (collate E) (sql_now E t) a f)"
  by (auto simp: sql_select_by_alias_def find_None_iff find_Some_iff live_row_def split: option.splits)

lemma sql_select_downloads_Inr:
  assumes "sql_select_downloads E a t rs = Inr (n, rs')"
  shows "rs' = rs \<and> (\<exists>f \<in> set (map row_file rs). live_as (collate E) (sql_now E t) a f \<and> n = f_DownloadsLeft f)"
proof -
  from assms obtain r where "find (live_row E t a) rs = Some r" "n = f_DownloadsLeft (row_file r)" "rs' = rs"
    by (auto simp: sql_select_downloads_def split: option.splits)
  then show ?thesis by (auto simp: find_Some_iff live_row_def)
qed

lemma sql_update_downloads_rows:
  "sql_update_downloads E a n t rs = Inr (u, rs') \<Longrightarrow>
   map row_file rs' = set_downloads (collate E) a n (map row_file rs)"
  by (auto simp: sql_update_downloads_def set_downloads_def)

lemma sql_delete_live_rows:
  "sql_delete_live E a t rs = Inr (n, rs') \<Longrightarrow>
   map row_file rs' = drop_live (collate E) (sql_now E t) a (map row_file rs) \<and>
   (n \<noteq> 0 \<longrightarrow> (\<exists>f \<in> set (map row_file rs). live_as (collate E) (sql_now E t) a f))"
  by (auto simp: sql_delete_live_def drop_live_def live_row_def filter_map comp_def
      filter_empty_conv)

subsection \<open>The methods against the contract\<close>

abbreviation same_views :: "world \<Rightarrow> world \<Rightarrow> bool" where
  "same_views w w' \<equiv> rows_of w' = rows_of w \<and> files_part w' = files_part w \<and> w_clock w \<le> w_clock w' \<and> view_of w' = view_of w"

abbreviation other_views :: "tx \<Rightarrow> world \<Rightarrow> world \<Rightarrow> bool" where
  "other_views x w w' \<equiv> rows_of w' = rows_of w \<and> files_part w' = files_part w \<and> w_clock w \<le> w_clock w' \<and>
     (\<forall>y. y \<noteq> x \<longrightarrow> view_of w' y = view_of w y)"

lemma query_views: "db_query q w = (r, w') \<Longrightarrow> same_views w w'"
  using db_query_frame same_db_views same_files_part by metis

lemma check_views: "ext_check w = (r, w') \<Longrightarrow> same_views w w'"
  using ext_check_frame same_db_views same_files_part by metis

lemma scan_views: "scan_rows rs acc w = (r, w') \<Longrightarrow> same_views w w'"
  using scan_rows_frame same_db_views same_files_part by metis

lemma tick_views: "next_tick w = (t, w') \<Longrightarrow> same_views w w'"
  using same_db_views same_files_part next_tick_frame unfolding same_db_def same_files_def by metis

lemma exec_Inr_views:
  assumes "tx_exec h q w = (Inr x, w')"
  obtains v v' where "map_of (w_txs w) h = Some v" "q (w_clock w') v = Inr (x, v')"
    "view_of w (SqlTx h) = Some (map row_file v)"
    "view_of w' = (view_of w)(SqlTx h \<mapsto> map row_file v')"
    "rows_of w' = rows_of w" "files_part w' = files_part w" "w_clock w \<le> w_clock w'"
proof -
  from assms obtain v v' where v: "map_of (w_txs w) h = Some v" "q (w_clock w') v = Inr (x, v')"
    "w_txs w' = AList.update h v' (w_txs w)" "w_table w' = w_table w" "same_files w w'"
    by (rule tx_exec_Inr)
  moreover have "view_of w' = (view_of w)(SqlTx h \<mapsto> map row_file v')"
    by (auto simp: view_of_def v(3) update_conv' fun_eq_iff split: tx.splits)
  ultimately show thesis
    using that by (simp add: view_of_def rows_of_def same_files_part)
qed

lemma Begin_Inr:
  "FileRepo_BeginTx w = (Inr x, w') \<Longrightarrow>
   rows_of w' = rows_of w \<and> files_part w' = files_part w \<and> w_clock w \<le> w_clock w' \<and> view_of w x = None \<and>
   view_of w' = (view_of w)(x \<mapsto> rows_of w)"
proof -
  assume "FileRepo_BeginTx w = (Inr x, w')"
  then obtain t w1 where t: "next_tick w = (t, w1)" and "t_fault t = None"
    and x: "x = SqlTx (fresh (map fst (w_txs w1)))"
    and w': "w' = w1\<lparr>w_txs := (fresh (map fst (w_txs w1)), w_table w1) # w_txs w1\<rparr>"
    by (auto simp: FileRepo_BeginTx_def Let_def split: prod.splits option.splits)
  note fr = next_tick_frame [OF t]
  have "map_of (w_txs w) (fresh (map fst (w_txs w))) = None"
    using fresh_not_in [of "map fst (w_txs w)"] by (auto simp: map_of_eq_None_iff)
  with fr x w' show ?thesis
    by (auto simp: rows_of_def files_part_def view_of_def fun_eq_iff split: tx.splits)
qed

lemma Begin_Inl: "FileRepo_BeginTx w = (Inl e, w') \<Longrightarrow> same_views w w' \<and> (\<exists>x. e = Ext x)"
  by (auto simp: FileRepo_BeginTx_def Let_def split: prod.splits option.splits dest: tick_views)

lemma Commit_None:
  assumes "Tx_Commit x w = (None, w')"
  shows "view_of w x = Some (rows_of w') \<and> files_part w' = files_part w \<and> w_clock w \<le> w_clock w' \<and>
    view_of w' = (view_of w)(x := None)"
proof -
  obtain h where x: "x = SqlTx h" using assms by (cases x) (auto simp: Tx_Commit_def)
  obtain t w1 where t: "next_tick w = (t, w1)" by (cases "next_tick w")
  with assms x next_tick_frame [OF t] show ?thesis
    by (auto simp: Tx_Commit_def Let_def rows_of_def view_of_def files_part_def delete_conv'
        fun_eq_iff split: option.splits tx.splits)
qed

lemma Commit_Some:
  assumes "Tx_Commit x w = (Some e, w')"
  shows "(rows_of w' = rows_of w \<or> view_of w x = Some (rows_of w')) \<and>
    files_part w' = files_part w \<and> w_clock w \<le> w_clock w' \<and> view_of w' = (view_of w)(x := None) \<and> (\<forall>s. \<not> is_domain e s)"
proof (cases x)
  case (SqlTx h)
  obtain t w1 where t: "next_tick w = (t, w1)" by (cases "next_tick w")
  with assms SqlTx next_tick_frame [OF t] show ?thesis
    by (auto simp: Tx_Commit_def Let_def rows_of_def view_of_def files_part_def delete_conv'
        fun_eq_iff split: option.splits tx.splits if_splits)
next
  case OtherTx
  with assms show ?thesis by (auto simp: Tx_Commit_def view_of_def fun_eq_iff)
qed

lemma Rollback_views:
  assumes "Tx_Rollback x w = (r, w')"
  shows "rows_of w' = rows_of w \<and> files_part w' = files_part w \<and> w_clock w \<le> w_clock w' \<and>
    view_of w' = (view_of w)(x := None)"
proof (cases x)
  case (SqlTx h)
  obtain t w1 where t: "next_tick w = (t, w1)" by (cases "next_tick w")
  with assms SqlTx next_tick_frame [OF t] show ?thesis
    by (auto simp: Tx_Rollback_def Let_def rows_of_def view_of_def files_part_def delete_conv'
        fun_eq_iff split: option.splits tx.splits)
next
  case OtherTx
  with assms show ?thesis by (auto simp: Tx_Rollback_def view_of_def fun_eq_iff)
qed

lemma Get_Inr:
  assumes "FileRepo_GetFileByAlias E a w = (Inr f, w')"
  shows "f \<in> set (rows_of w) \<and> live_as (collate E) (sql_now E (w_clock w')) a f \<and> same_views w w'"
proof -
  from assms have q: "db_query (sql_select_by_alias E a) w = (Inr f, w')"
    by (auto simp: FileRepo_GetFileByAlias_def Let_def split: prod.splits sum.splits if_splits)
  from sql_select_by_alias_Inr [OF db_query_Inr [OF q]] query_views [OF q] show ?thesis
    by (simp add: rows_of_def)
qed

lemma Get_Inl_frame:
  "FileRepo_GetFileByAlias E a w = (Inl e, w') \<Longrightarrow>
   same_views w w' \<and> (\<forall>s. is_domain e s \<longrightarrow> s = ErrFileNotFound)"
  by (auto simp: FileRepo_GetFileByAlias_def Let_def split: prod.splits sum.splits if_splits
      dest: query_views)

lemma List_frame: "FileRepo_GetFilesByUserID E c w = (r, w') \<Longrightarrow> same_views w w'"
  unfolding FileRepo_GetFilesByUserID_def Let_def
  by (auto split: prod.splits sum.splits if_splits option.splits
      dest!: query_views check_views scan_views)

lemma Stat_Inr:
  assumes "FileRepo_GetFilesStatByUserID u w = (Inr s, w')"
  shows "fst_Count s = int (length (filter (\<lambda>f. f_UserID f = u) (rows_of w))) \<and>
    fst_Size s = sum_list (map f_Size (filter (\<lambda>f. f_UserID f = u) (rows_of w))) \<and>
    int64_range (fst_Size s) \<and> same_views w w'"
proof -
  from assms obtain c z where q: "db_query (sql_stat_by_user u) w = (Inr (c, z), w')"
    and s: "s = \<lparr>fst_UserID = u, fst_Count = c, fst_Size = z\<rparr>"
    by (auto simp: FileRepo_GetFilesStatByUserID_def Let_def split: prod.splits sum.splits if_splits)
  from db_query_Inr [OF q] query_views [OF q] s show ?thesis
    by (auto simp: sql_stat_by_user_def Let_def rows_of_def filter_map comp_def split: if_splits)
qed

lemma Stat_Inl: "FileRepo_GetFilesStatByUserID u w = (Inl e, w') \<Longrightarrow> same_views w w'"
  by (auto simp: FileRepo_GetFilesStatByUserID_def Let_def split: prod.splits sum.splits if_splits
      dest: query_views)

lemma Add_Inr:
  assumes "FileRepo_AddFileTx E x c w = (Inr i, w')"
  shows "\<exists>v f. view_of w x = Some v \<and> view_of w' = (view_of w)(x \<mapsto> v @ [f]) \<and>
    collate E (f_Alias f) \<notin> (collate E \<circ> f_Alias) ` set v \<and>
    f_Alias f = af_Alias c \<and> f_Name f = af_Filename c \<and> f_Size f = af_Filesize c \<and>
    f_DownloadsLeft f = af_MaxDownloads c \<and> f_PasswordHash f = af_PasswordHash c \<and>
    f_UserID f = af_UserID c \<and> f_ExpiresAt f = ts_col E (w_clock w + af_TTL c) \<and>
    rows_of w' = rows_of w \<and> files_part w' = files_part w \<and> w_clock w \<le> w_clock w'"
proof -
  from assms obtain h w1 where x: "x = SqlTx h"
    and q: "tx_exec h (sql_insert E (w_nextid w) (w_clock w) c) w = (Inr i, w1)"
    and c: "ext_check (w1\<lparr>w_nextid := w_nextid w1 + 1\<rparr>) = (None, w')"
    by (auto simp: FileRepo_AddFileTx_def Let_def
        split: tx.splits prod.splits sum.splits option.splits if_splits)
  from q obtain v v' where v: "sql_insert E (w_nextid w) (w_clock w) c (w_clock w1) v = Inr (i, v')"
    "view_of w (SqlTx h) = Some (map row_file v)"
    "view_of w1 = (view_of w)(SqlTx h \<mapsto> map row_file v')"
    "rows_of w1 = rows_of w" "files_part w1 = files_part w" "w_clock w \<le> w_clock w1"
    by (rule exec_Inr_views)
  have keep: "view_of (w1\<lparr>w_nextid := n\<rparr>) = view_of w1" "rows_of (w1\<lparr>w_nextid := n\<rparr>) = rows_of w1"
    "files_part (w1\<lparr>w_nextid := n\<rparr>) = files_part w1" for n
    by (auto simp: view_of_def rows_of_def files_part_def fun_eq_iff split: tx.splits)
  from v(1) have distinct_alias: "\<forall>r \<in> set v. \<not> same_alias (collate E) (af_Alias c) (row_file r)"
    and "\<exists>f. map row_file v' = map row_file v @ [f] \<and> f_Alias f = af_Alias c \<and> f_Name f = af_Filename c \<and>
      f_Size f = af_Filesize c \<and> f_DownloadsLeft f = af_MaxDownloads c \<and>
      f_PasswordHash f = af_PasswordHash c \<and> f_UserID f = af_UserID c \<and>
      f_ExpiresAt f = ts_col E (w_clock w + af_TTL c)"
    by (auto simp: sql_insert_def split: if_splits option.splits)
  then obtain f where f: "map row_file v' = map row_file v @ [f]" "f_Alias f = af_Alias c"
    "f_Name f = af_Filename c" "f_Size f = af_Filesize c" "f_DownloadsLeft f = af_MaxDownloads c"
    "f_PasswordHash f = af_PasswordHash c" "f_UserID f = af_UserID c"
    "f_ExpiresAt f = ts_col E (w_clock w + af_TTL c)"
    by blast
  have new: "collate E (f_Alias f) \<notin> (collate E \<circ> f_Alias) ` set (map row_file v)"
    using distinct_alias f(2) by (force simp: same_alias_def)
  have "view_of w' = (view_of w)(x \<mapsto> map row_file v @ [f])"
    using v(3) keep(1) check_views [OF c] x f(1) by simp
  moreover have "rows_of w' = rows_of w" "files_part w' = files_part w"
    using v(4,5) keep(2,3) check_views [OF c] by simp_all
  moreover have "w_clock w \<le> w_clock w'" using v(6) check_views [OF c] by simp
  ultimately show ?thesis using f new v(2) x by blast
qed

lemma Add_Inl: "FileRepo_AddFileTx E x c w = (Inl e, w') \<Longrightarrow> other_views x w w'"
proof (cases x)
  case (SqlTx h)
  assume a: "FileRepo_AddFileTx E x c w = (Inl e, w')"
  have "inside_tx h w w'"
    using a SqlTx unfolding FileRepo_AddFileTx_def Let_def
    by (auto split: prod.splits sum.splits option.splits if_splits
        dest!: exec_inside check_inside intro: inside_tx_trans)
  with SqlTx inside_tx_views show ?thesis by blast
next
  case OtherTx
  assume "FileRepo_AddFileTx E x c w = (Inl e, w')"
  with OtherTx show ?thesis by (simp add: FileRepo_AddFileTx_def)
qed

lemma Decrement_Inr:
  assumes "FileRepo_DecrementDownloadsByAliasTx E x a w = (Inr n, w')"
  shows "\<exists>v f d. view_of w x = Some v \<and> f \<in> set v \<and> moment (w_clock w) d (w_clock w') \<and>
    live_as (collate E) (sql_now E d) a f \<and> f_DownloadsLeft f \<noteq> 0 \<and> n = wrap16 (f_DownloadsLeft f - 1) \<and>
    view_of w' = (view_of w)(x \<mapsto> set_downloads (collate E) a n v) \<and>
    rows_of w' = rows_of w \<and> files_part w' = files_part w \<and> w_clock w \<le> w_clock w'"
proof -
  from assms obtain h k u w1 where x: "x = SqlTx h"
    and s: "tx_exec h (sql_select_downloads E a) w = (Inr k, w1)" and k: "k \<noteq> 0" "n = wrap16 (k - 1)"
    and u: "tx_exec h (sql_update_downloads E a n) w1 = (Inr u, w')"
    by (auto simp: FileRepo_DecrementDownloadsByAliasTx_def Let_def
        split: tx.splits prod.splits sum.splits if_splits)
  from s obtain v v' where v: "sql_select_downloads E a (w_clock w1) v = Inr (k, v')"
    "view_of w (SqlTx h) = Some (map row_file v)"
    "view_of w1 = (view_of w)(SqlTx h \<mapsto> map row_file v')"
    "rows_of w1 = rows_of w" "files_part w1 = files_part w" "w_clock w \<le> w_clock w1"
    by (rule exec_Inr_views)
  from u obtain v1 v2 where u: "sql_update_downloads E a n (w_clock w') v1 = Inr (u, v2)"
    "view_of w1 (SqlTx h) = Some (map row_file v1)"
    "view_of w' = (view_of w1)(SqlTx h \<mapsto> map row_file v2)"
    "rows_of w' = rows_of w1" "files_part w' = files_part w1" "w_clock w1 \<le> w_clock w'"
    by (rule exec_Inr_views)
  from sql_select_downloads_Inr [OF v(1)] obtain f where f: "v' = v" "f \<in> set (map row_file v)"
    "live_as (collate E) (sql_now E (w_clock w1)) a f" "k = f_DownloadsLeft f" by blast
  have "map row_file v1 = map row_file v" using v(3) u(2) f(1) by simp
  moreover have "moment (w_clock w) (w_clock w1) (w_clock w')"
    using v(6) u(6) by (simp add: moment_def)
  moreover have "view_of w' = (view_of w)(SqlTx h \<mapsto> map row_file v2)" using u(3) v(3) by simp
  moreover have "map row_file v2 = set_downloads (collate E) a n (map row_file v1)"
    using sql_update_downloads_rows [OF u(1)] .
  ultimately show ?thesis
    using f k v(2,4,5,6) u(4,5,6) x
    by (intro exI [of _ "map row_file v"] exI [of _ f] exI [of _ "w_clock w1"]) simp
qed

lemma Decrement_Inl: "FileRepo_DecrementDownloadsByAliasTx E x a w = (Inl e, w') \<Longrightarrow> other_views x w w'"
proof (cases x)
  case (SqlTx h)
  assume d: "FileRepo_DecrementDownloadsByAliasTx E x a w = (Inl e, w')"
  have "inside_tx h w w'"
    using d SqlTx unfolding FileRepo_DecrementDownloadsByAliasTx_def Let_def
    by (auto split: prod.splits sum.splits if_splits dest!: exec_inside intro: inside_tx_trans)
  with SqlTx inside_tx_views show ?thesis by blast
next
  case OtherTx
  assume "FileRepo_DecrementDownloadsByAliasTx E x a w = (Inl e, w')"
  with OtherTx show ?thesis by (simp add: FileRepo_DecrementDownloadsByAliasTx_def)
qed

lemma DeleteFile_None:
  assumes "FileRepo_DeleteFileTx E x a w = (None, w')"
  shows "\<exists>v d. view_of w x = Some v \<and> moment (w_clock w) d (w_clock w') \<and>
    (\<exists>f \<in> set v. live_as (collate E) (sql_now E d) a f) \<and>
    view_of w' = (view_of w)(x \<mapsto> drop_live (collate E) (sql_now E d) a v) \<and>
    rows_of w' = rows_of w \<and> files_part w' = files_part w \<and> w_clock w \<le> w_clock w'"
proof -
  from assms obtain h n w1 where x: "x = SqlTx h"
    and d: "tx_exec h (sql_delete_live E a) w = (Inr n, w1)" and c: "ext_check w1 = (None, w')"
    and n: "n \<noteq> 0"
    by (auto simp: FileRepo_DeleteFileTx_def Let_def
        split: tx.splits prod.splits sum.splits option.splits if_splits)
  from d obtain v v' where v: "sql_delete_live E a (w_clock w1) v = Inr (n, v')"
    "view_of w (SqlTx h) = Some (map row_file v)"
    "view_of w1 = (view_of w)(SqlTx h \<mapsto> map row_file v')"
    "rows_of w1 = rows_of w" "files_part w1 = files_part w" "w_clock w \<le> w_clock w1"
    by (rule exec_Inr_views)
  have "moment (w_clock w) (w_clock w1) (w_clock w')"
    using v(6) check_views [OF c] by (simp add: moment_def)
  with sql_delete_live_rows [OF v(1)] n v x check_views [OF c] show ?thesis
    by (metis order_trans)
qed

lemma DeleteFile_Some: "FileRepo_DeleteFileTx E x a w = (Some e, w') \<Longrightarrow> other_views x w w'"
proof (cases x)
  case (SqlTx h)
  assume d: "FileRepo_DeleteFileTx E x a w = (Some e, w')"
  have "inside_tx h w w'"
    using d SqlTx unfolding FileRepo_DeleteFileTx_def Let_def
    by (auto split: prod.splits sum.splits option.splits if_splits
        dest!: exec_inside check_inside intro: inside_tx_trans)
  with SqlTx inside_tx_views show ?thesis by blast
next
  case OtherTx
  assume "FileRepo_DeleteFileTx E x a w = (Some e, w')"
  with OtherTx show ?thesis by (simp add: FileRepo_DeleteFileTx_def)
qed

lemma sql_select_expired_Inr:
  assumes "sql_select_expired E lim t rs = Inr (sel, rs')"
  shows "rs' = rs \<and> set sel \<subseteq> set rs \<and> int (length sel) \<le> lim \<and>
    (\<forall>r \<in> set sel. f_ExpiresAt (row_file r) < sql_now E t)"
  using assms
  by (auto simp: sql_select_expired_def scan_def dest!: in_set_takeD split: if_splits)

lemma exec_deletes_view:
  "exec_deletes E h as w = (None, w') \<Longrightarrow> view_of w (SqlTx h) = Some v \<Longrightarrow>
   view_of w' = (view_of w)(SqlTx h \<mapsto> filter (\<lambda>f. \<forall>a \<in> set as. \<not> same_alias (collate E) a f) v) \<and>
   rows_of w' = rows_of w \<and> files_part w' = files_part w \<and> w_clock w \<le> w_clock w'"
proof (induction E h as w arbitrary: v rule: exec_deletes.induct)
  case (1 E h w)
  then show ?case by (auto simp: fun_eq_iff)
next
  case (2 E h a as w)
  from "2.prems"(1) obtain u w1 where e: "tx_exec h (sql_delete_alias E a) w = (Inr u, w1)"
    and r: "exec_deletes E h as w1 = (None, w')"
    by (auto split: prod.splits sum.splits)
  from e obtain x x' where x: "sql_delete_alias E a (w_clock w1) x = Inr (u, x')"
    "view_of w (SqlTx h) = Some (map row_file x)"
    "view_of w1 = (view_of w)(SqlTx h \<mapsto> map row_file x')"
    "rows_of w1 = rows_of w" "files_part w1 = files_part w" "w_clock w \<le> w_clock w1"
    by (rule exec_Inr_views)
  have x': "map row_file x' = filter (\<lambda>f. \<not> same_alias (collate E) a f) v"
    using x(1,2) "2.prems"(2) by (auto simp: sql_delete_alias_def filter_map comp_def)
  have "view_of w1 (SqlTx h) = Some (map row_file x')" using x(3) by simp
  from "2.IH" [OF e [symmetric] refl r this] x x' show ?case
    by (auto simp: conj_commute)
qed

lemma Expired_Inr:
  assumes "FileRepo_DeleteExpiredFilesTx E x lim w = (Inr aliases, w')"
  shows "\<exists>v gone d. view_of w x = Some v \<and> moment (w_clock w) d (w_clock w') \<and>
    set gone \<subseteq> set v \<and> aliases = map f_Alias gone \<and> int (length gone) \<le> max 0 lim \<and>
    (\<forall>f \<in> set gone. f_ExpiresAt f < sql_now E d) \<and>
    view_of w' = (view_of w)(x \<mapsto> filter (\<lambda>f. \<forall>g \<in> set gone. collate E (f_Alias f) \<noteq> collate E (f_Alias g)) v) \<and>
    rows_of w' = rows_of w \<and> files_part w' = files_part w \<and> w_clock w \<le> w_clock w'"
proof -
  obtain h where x: "x = SqlTx h"
    using assms by (cases x) (simp_all add: FileRepo_DeleteExpiredFilesTx_def)
  obtain sel w1 where s: "tx_exec h (sql_select_expired E lim) w = (Inr sel, w1)"
    using assms x by (auto simp: FileRepo_DeleteExpiredFilesTx_def Let_def split: prod.splits sum.splits)
  obtain sel' w2 where sc: "scan_rows sel [] w1 = (Inr sel', w2)"
    using assms x s by (auto simp: FileRepo_DeleteExpiredFilesTx_def Let_def split: prod.splits sum.splits)
  then have sel': "sel' = sel" using scan_rows_result by fastforce
  obtain w3 where c: "ext_check w2 = (None, w3)"
    using assms x s sc by (auto simp: FileRepo_DeleteExpiredFilesTx_def Let_def split: prod.splits option.splits)
  from s obtain v v' where v: "sql_select_expired E lim (w_clock w1) v = Inr (sel, v')"
    "view_of w (SqlTx h) = Some (map row_file v)"
    "view_of w1 = (view_of w)(SqlTx h \<mapsto> map row_file v')"
    "rows_of w1 = rows_of w" "files_part w1 = files_part w" "w_clock w \<le> w_clock w1"
    by (rule exec_Inr_views)
  note sel = sql_select_expired_Inr [OF v(1)]
  have w3: "view_of w3 = view_of w" "rows_of w3 = rows_of w" "files_part w3 = files_part w"
    "w_clock w1 \<le> w_clock w3" "w_clock w \<le> w_clock w3"
    using v sel scan_views [OF sc] check_views [OF c] by (auto simp: fun_eq_iff)
  let ?gone = "map row_file sel"
  have facts: "set ?gone \<subseteq> set (map row_file v)" "int (length ?gone) \<le> max 0 lim"
    "\<forall>f \<in> set ?gone. f_ExpiresAt f < sql_now E (w_clock w1)"
    using sel by auto
  have res: "aliases = map f_Alias ?gone \<and> w_clock w3 \<le> w_clock w' \<and>
    view_of w' = (view_of w)(SqlTx h \<mapsto> filter (\<lambda>f. \<forall>a \<in> set (map f_Alias ?gone). \<not> same_alias (collate E) a f) (map row_file v)) \<and>
    rows_of w' = rows_of w \<and> files_part w' = files_part w"
  proof (cases "sel = []")
    case True
    with assms x s sc sel' c w3 v(2) show ?thesis
      by (auto simp: FileRepo_DeleteExpiredFilesTx_def fun_eq_iff)
  next
    case False
    with assms x s sc sel' c obtain w4 where w4: "ext_check w3 = (None, w4)"
      and d: "exec_deletes E h (map (f_Alias \<circ> row_file) sel) w4 = (None, w')"
      and al: "aliases = map (f_Alias \<circ> row_file) sel"
      by (auto simp: FileRepo_DeleteExpiredFilesTx_def Let_def split: prod.splits option.splits)
    have "view_of w4 (SqlTx h) = Some (map row_file v)"
      using check_views [OF w4] w3 v(2) by simp
    from exec_deletes_view [OF d this] check_views [OF w4] w3 al show ?thesis by auto
  qed
  have "moment (w_clock w) (w_clock w1) (w_clock w')"
    using v(6) w3 res by (simp add: moment_def)
  with facts res x v(2) w3 show ?thesis
    by (intro exI [of _ "map row_file v"] exI [of _ ?gone] exI [of _ "w_clock w1"])
       (auto simp: same_alias_def)
qed

lemma Expired_Inl: "FileRepo_DeleteExpiredFilesTx E x lim w = (Inl e, w') \<Longrightarrow> other_views x w w'"
proof (cases x)
  case (SqlTx h)
  assume d: "FileRepo_DeleteExpiredFilesTx E x lim w = (Inl e, w')"
  have scan: "scan_rows rs acc u = (r, u') \<Longrightarrow> inside_tx h u u'" for rs acc u r u'
    using scan_rows_frame same_inside_tx by blast
  have "inside_tx h w w'"
    using d SqlTx unfolding FileRepo_DeleteExpiredFilesTx_def Let_def
    by (auto split: prod.splits sum.splits option.splits if_splits
        dest!: exec_inside check_inside [where h = h] scan exec_deletes_inside intro: inside_tx_trans)
      (meson inside_tx_trans)+
  with SqlTx inside_tx_views show ?thesis by blast
next
  case OtherTx
  assume "FileRepo_DeleteExpiredFilesTx E x lim w = (Inl e, w')"
  with OtherTx show ?thesis by (simp add: FileRepo_DeleteExpiredFilesTx_def)
qed

text \<open>The sentinels a method can return.\<close>

lemma domain_errors:
  "FileRepo_BeginTx w = (Inl e, w') \<Longrightarrow> \<not> is_domain e s"
  "FileRepo_GetFilesStatByUserID u w = (Inl e, w') \<Longrightarrow> is_domain e s \<Longrightarrow> s = ErrUserNotFound"
  "FileRepo_AddFileTx E x c w = (Inl e, w') \<Longrightarrow> is_domain e s \<Longrightarrow> s = ErrAliasTaken"
  "FileRepo_DecrementDownloadsByAliasTx E x a w = (Inl e, w') \<Longrightarrow> is_domain e s \<Longrightarrow>
     s = ErrFileNotFound \<or> s = ErrNoDownloadsLeft"
  "FileRepo_DeleteFileTx E x a w = (Some e, w') \<Longrightarrow> is_domain e s \<Longrightarrow> s = ErrFileNotFound"
proof -
  show "FileRepo_BeginTx w = (Inl e, w') \<Longrightarrow> \<not> is_domain e s"
    using Begin_Inl by fastforce
  show "FileRepo_GetFilesStatByUserID u w = (Inl e, w') \<Longrightarrow> is_domain e s \<Longrightarrow> s = ErrUserNotFound"
    by (auto simp: FileRepo_GetFilesStatByUserID_def Let_def split: prod.splits sum.splits if_splits)
  show "FileRepo_AddFileTx E x c w = (Inl e, w') \<Longrightarrow> is_domain e s \<Longrightarrow> s = ErrAliasTaken"
    by (auto simp: FileRepo_AddFileTx_def Let_def not_sql_def
        split: tx.splits prod.splits sum.splits option.splits if_splits)
  show "FileRepo_DecrementDownloadsByAliasTx E x a w = (Inl e, w') \<Longrightarrow> is_domain e s \<Longrightarrow>
     s = ErrFileNotFound \<or> s = ErrNoDownloadsLeft"
    by (auto simp: FileRepo_DecrementDownloadsByAliasTx_def Let_def not_sql_def
        split: tx.splits prod.splits sum.splits if_splits)
  show "FileRepo_DeleteFileTx E x a w = (Some e, w') \<Longrightarrow> is_domain e s \<Longrightarrow> s = ErrFileNotFound"
    by (auto simp: FileRepo_DeleteFileTx_def Let_def not_sql_def
        split: tx.splits prod.splits sum.splits option.splits if_splits)
qed

interpretation mysql: repo_contract "NewFileRepo E" rows_of view_of w_clock "sql_now E" "collate E" files_part
  for E
proof (unfold_locales, unfold NewFileRepo_def file_repo.simps, goal_cases)
  case (1 w t w') then show ?case using Begin_Inr by simp
next
  case (2 w e w') then show ?case using Begin_Inl domain_errors(1) by blast
next
  case (3 t w w') then show ?case using Commit_None by simp
next
  case (4 t w e w') then show ?case using Commit_Some by simp
next
  case (5 t w r w') then show ?case using Rollback_views by simp
next
  case (6 a w f w')
  then show ?case using Get_Inr [OF 6] by (auto simp: moment_def)
next
  case (7 a w e w') then show ?case using Get_Inl_frame [OF 7] by simp
next
  case (8 lc w lr w') then show ?case using List_frame [OF 8] by simp
next
  case (9 u w s w') then show ?case using Stat_Inr [OF 9] by auto
next
  case (10 u w e w') then show ?case using Stat_Inl [OF 10] domain_errors(2) by simp
next
  case (11 t c w i w') then show ?case using Add_Inr [OF 11] by blast
next
  case (12 t c w e w') then show ?case using Add_Inl [OF 12] domain_errors(3) by simp
next
  case (13 t a w n w') then show ?case using Decrement_Inr [OF 13] by blast
next
  case (14 t a w e w') then show ?case using Decrement_Inl [OF 14] domain_errors(4) by simp
next
  case (15 t a w w') then show ?case using DeleteFile_None [OF 15] by blast
next
  case (16 t a w e w') then show ?case using DeleteFile_Some [OF 16] domain_errors(5) by simp
next
  case (17 t lim w aliases w') then show ?case using Expired_Inr [OF 17] by blast
next
  case (18 t lim w e w') then show ?case using Expired_Inl [OF 18] by simp
qed

end
