(* ===== verification/Deployment.thy ===== *)
theory Deployment
  imports File_Worker Local_Storage Mysql_Repo
begin

text \<open>
  The file service as \<open>internal/app/app.go\<close> puts it together: over the MySQL repository and the
  local storage.  Both contracts hold of them, so the guarantees of the locale \<open>vault\<close> hold of the
  program.
\<close>

definition app_service :: "db_env \<Rightarrow> string \<Rightarrow> service_cfg \<Rightarrow> bcrypt \<Rightarrow> world service" where
  "app_service E cfgPath cfg B = NewService (NewFileRepo E) (NewFileStorage cfgPath) cfg B w_clock"

lemma app_service_simps [simp]:
  "fs_fileRepo (app_service E p cfg B) = NewFileRepo E"
  "fs_fileStorage (app_service E p cfg B) = NewFileStorage p"
  "fs_cfg (app_service E p cfg B) = cfg" "fs_bcrypt (app_service E p cfg B) = B"
  "fs_now (app_service E p cfg B) = w_clock"
  by (simp_all add: app_service_def NewService_def)

interpretation app: vault "app_service E cfgPath cfg B" rows_of view_of w_clock "sql_now E"
  "collate E" "folder_of cfgPath" w_open plain_name for E cfgPath cfg B
proof (rule vault.intro, unfold app_service_simps)
  show "repo_contract (NewFileRepo E) rows_of view_of w_clock (sql_now E) (collate E)
      (\<lambda>w. (folder_of cfgPath w, w_open w))"
    by (rule mysql.coarsen) (simp add: files_part_def folder_of_def [abs_def])
  show "storage_contract (NewFileStorage cfgPath) (folder_of cfgPath) w_open w_clock
      (\<lambda>w. (rows_of w, view_of w)) plain_name"
    by (rule local_storage.coarsen) (auto simp: db_part_def rows_of_def view_of_def [abs_def])
qed

end
