(* ===== verification/System.thy ===== *)
theory System
  imports Deployment
begin

text \<open>
  The running program: the operations of the file service and the ticks of the worker, one after
  the other, on one database and one storage folder.  Between two operations time passes and the
  environment chooses anew what fails (\<open>EvEnv\<close>).  Each request runs to its end before the
  next begins; what overlapping requests can do beyond that is in \<open>Interleaving.thy\<close>.
\<close>

record system =
  sys_env :: db_env
  sys_path :: string
  sys_cfg :: service_cfg
  sys_bcrypt :: bcrypt

definition sys_service :: "system \<Rightarrow> world service" where
  "sys_service S = app_service (sys_env S) (sys_path S) (sys_cfg S) (sys_bcrypt S)"

definition world_sleep :: "duration \<Rightarrow> world \<Rightarrow> world" where
  "world_sleep d w = w\<lparr>w_clock := w_clock w + max 0 d\<rparr>"

definition sys_worker :: "system \<Rightarrow> world file_worker" where
  "sys_worker S =
     NewFileWorker (NewFileRepo (sys_env S)) (NewFileStorage (sys_path S)) world_sleep (sys_cfg S)"

datatype sys_event =
    EvUpload "nat \<Rightarrow> 64 word" nat upload_file
  | EvDownload download_file
  | EvDelete delete_file
  | EvGet get_file
  | EvList get_all_files
  | EvStat get_files_stat
  | EvTick
  | EvClose nat
  | EvEnv "tick list" nat

text \<open>What the caller of an operation sees.\<close>

datatype sys_result =
    ReUpload "string result"
  | ReDownload "download_result result"
  | ReDelete "goerr option"
  | ReGet "get_file_result result"
  | ReList "get_all_files_result result"
  | ReStat "get_files_stat_result result"
  | ReNone

inductive sys_step :: "system \<Rightarrow> world \<Rightarrow> sys_event \<Rightarrow> sys_result \<Rightarrow> world \<Rightarrow> bool" for S where
  upload: "Service_UploadFile rnd salt (sys_service S) c w = Returns (r, w') \<Longrightarrow>
    sys_step S w (EvUpload rnd salt c) (ReUpload r) w'"
| download: "Service_DownloadFile (sys_service S) c w = (r, w') \<Longrightarrow>
    sys_step S w (EvDownload c) (ReDownload r) w'"
| delete: "Service_DeleteFile (sys_service S) c w = (r, w') \<Longrightarrow>
    sys_step S w (EvDelete c) (ReDelete r) w'"
| get: "Service_GetFileByAlias (sys_service S) c w = (r, w') \<Longrightarrow>
    sys_step S w (EvGet c) (ReGet r) w'"
| list: "Service_GetAllFiles (sys_service S) c w = (r, w') \<Longrightarrow>
    sys_step S w (EvList c) (ReList r) w'"
| stat: "Service_GetFilesStat (sys_service S) c w = (r, w') \<Longrightarrow>
    sys_step S w (EvStat c) (ReStat r) w'"
| tick: "FileWorker_tick (sys_worker S) w = (go, w') \<Longrightarrow> sys_step S w EvTick ReNone w'"
| close: "st_Close (NewFileStorage (sys_path S)) fd w = (r, w') \<Longrightarrow> sys_step S w (EvClose fd) ReNone w'"
| env: "w' = w\<lparr>w_tape := tape, w_clock := w_clock w + int dt\<rparr> \<Longrightarrow>
    sys_step S w (EvEnv tape dt) ReNone w'"

inductive_cases sys_stepE: "sys_step S w ev r w'"

inductive sys_run :: "system \<Rightarrow> world \<Rightarrow> (sys_event \<times> sys_result) list \<Rightarrow> world \<Rightarrow> bool" for S where
  nil: "sys_run S w [] w"
| cons: "sys_step S w ev r w1 \<Longrightarrow> sys_run S w1 tr w' \<Longrightarrow> sys_run S w ((ev, r) # tr) w'"

inductive_cases sys_run_NilE: "sys_run S w [] w'"
inductive_cases sys_run_ConsE: "sys_run S w (x # tr) w'"

subsection \<open>What one step does to the table\<close>

text \<open>The six ways in which a step changes the rows, for the alias it is about.\<close>

definition table_step ::
  "db_env \<Rightarrow> sys_event \<Rightarrow> sys_result \<Rightarrow> file_info list \<Rightarrow> file_info list \<Rightarrow> bool" where
  "table_step E ev r fs fs' \<longleftrightarrow>
     (case ev of
        EvUpload rnd salt c \<Rightarrow>
          fs' = fs \<or>
          (\<exists>f len. fs' = fs @ [f] \<and> collate E (f_Alias f) \<notin> (collate E \<circ> f_Alias) ` set fs \<and>
             Gen rnd len = Some (Inr (f_Alias f)) \<and> f_DownloadsLeft f = uf_MaxDownloads c \<and>
             f_UserID f = ui_UserID (uf_User c))
      | EvDownload c \<Rightarrow>
          (\<exists>g \<in> set fs. same_alias (collate E) (df_Alias c) g \<and> f_DownloadsLeft g \<noteq> 0 \<and>
             fs' = after_download (collate E) (df_Alias c) (wrap16 (f_DownloadsLeft g - 1)) fs) \<or>
          fs' = fs \<and> (\<forall>x. r \<noteq> ReDownload (Inr x))
      | EvDelete c \<Rightarrow> fs' = fs \<or> fs' = filter (\<lambda>g. \<not> same_alias (collate E) (del_Alias c) g) fs
      | EvTick \<Rightarrow> fs' = fs \<or> (\<exists>now. purged (collate E) batchLimit now fs fs')
      | _ \<Rightarrow> fs' = fs)"

lemma sleep_frame:
  "rows_of (world_sleep d v) = rows_of v \<and> view_of (world_sleep d v) = view_of v \<and>
   w_open (world_sleep d v) = w_open v \<and> w_clock v \<le> w_clock (world_sleep d v)"
  by (simp add: world_sleep_def rows_of_def view_of_def fun_eq_iff split: tx.split)

lemma sys_worker_of:
  "sys_worker S = app.worker_of (sys_env S) (sys_path S) cfg B world_sleep (sys_cfg S)"
  by (simp add: sys_worker_def app.worker_of_def)

lemma download_table:
  assumes "Service_DownloadFile (app_service E p cfg B) c w = (r, w')" "unique_aliases (collate E) (rows_of w)"
  shows "table_step E (EvDownload c) (ReDownload r) (rows_of w) (rows_of w') \<and> view_of w' = view_of w"
proof -
  have took: "table_step E (EvDownload c) x (rows_of w) (rows_of w')" if "app.took_one E (df_Alias c) w w'" for x
    using that unfolding app.took_one_def table_step_def by (auto dest: live_same)
  show ?thesis
  proof (cases r)
    case (Inl e)
    from app.download_err [OF assms(1) [unfolded Inl] assms(2)] took Inl show ?thesis
      by (auto simp: app.settled_def table_step_def)
  next
    case (Inr x)
    from app.download_ok [OF assms(1) [unfolded Inr] assms(2)] took show ?thesis
      by (auto simp: app.settled_def)
  qed
qed

lemma upload_table:
  assumes "Service_UploadFile rnd salt (app_service E p cfg B) c w = Returns (r, w')"
  shows "table_step E (EvUpload rnd salt c) (ReUpload r) (rows_of w) (rows_of w') \<and> view_of w' = view_of w"
proof -
  have add: "table_step E (EvUpload rnd salt c) x (rows_of w) (rows_of w')"
    if "app.added E c a h w w'" "Gen rnd (AliasLength cfg) = Some (Inr a)" for x a h
  proof -
    from that(1) obtain f where "rows_of w' = rows_of w @ [f]"
      "collate E (f_Alias f) \<notin> (collate E \<circ> f_Alias) ` set (rows_of w)" "f_Alias f = a"
      "f_DownloadsLeft f = uf_MaxDownloads c" "f_UserID f = ui_UserID (uf_User c)"
      unfolding app.added_def by blast
    with that(2) show ?thesis unfolding table_step_def by (auto simp del: comp_apply)
  qed
  show ?thesis
  proof (cases r)
    case (Inl e)
    from app.upload_err [OF assms [unfolded Inl]] obtain a where
      "app.settled p a [] w w'" "rows_of w' = rows_of w \<or>
         Gen rnd (AliasLength cfg) = Some (Inr a) \<and> (\<exists>h. app.added E c a h w w')" by auto
    with add show ?thesis by (auto simp: app.settled_def table_step_def)
  next
    case (Inr a)
    from app.upload_ok [OF assms [unfolded Inr]] add show ?thesis by (auto simp: app.settled_def)
  qed
qed

lemma delete_table:
  assumes "Service_DeleteFile (app_service E p cfg B) c w = (r, w')" "unique_aliases (collate E) (rows_of w)"
  shows "table_step E (EvDelete c) x (rows_of w) (rows_of w') \<and> view_of w' = view_of w"
proof (cases r)
  case (Some e)
  from app.delete_err [OF assms(1) [unfolded Some] assms(2)] show ?thesis
    by (auto simp: app.settled_def app.dropped_def table_step_def)
next
  case None
  from app.delete_ok [OF assms(1) [unfolded None] assms(2)] show ?thesis
    by (auto simp: app.settled_def app.dropped_def table_step_def)
qed

lemma sys_step_table:
  assumes s: "sys_step S w ev r w'" and u: "unique_aliases (collate (sys_env S)) (rows_of w)"
  shows "table_step (sys_env S) ev r (rows_of w) (rows_of w') \<and> view_of w' = view_of w"
  using s
proof (cases rule: sys_step.cases)
  case (upload rnd salt c r)
  then show ?thesis using upload_table unfolding sys_service_def by blast
next
  case (download c r)
  then show ?thesis using download_table u unfolding sys_service_def by blast
next
  case (delete c r)
  then show ?thesis using delete_table u unfolding sys_service_def by blast
next
  case (get c r)
  with app.get_keeps [of "sys_env S" "sys_path S" "sys_cfg S" "sys_bcrypt S" c w r w'] show ?thesis
    by (simp add: sys_service_def app.settled_def table_step_def)
next
  case (list c r)
  with app.list_keeps [of "sys_env S" "sys_path S" "sys_cfg S" "sys_bcrypt S" c w r w'] show ?thesis
    by (simp add: sys_service_def app.settled_def table_step_def)
next
  case (stat c r)
  with app.stat_keeps [of "sys_env S" "sys_path S" "sys_cfg S" "sys_bcrypt S" c w r w'] show ?thesis
    by (simp add: sys_service_def app.settled_def table_step_def)
next
  case (tick go)
  then have "FileWorker_tick (app.worker_of (sys_env S) (sys_path S) (sys_cfg S) (sys_bcrypt S)
      world_sleep (sys_cfg S)) w = (go, w')"
    using sys_worker_of by metis
  from app.tick_effect [OF this] sleep_frame tick show ?thesis
    by (auto simp: app.tick_end_def table_step_def)
next
  case (close fd r)
  with local_storage.close [of "sys_path S" fd w r w'] show ?thesis
    by (auto simp: table_step_def db_part_def rows_of_def view_of_def fun_eq_iff split: tx.split)
next
  case (env tape dt)
  then show ?thesis by (auto simp: table_step_def rows_of_def view_of_def fun_eq_iff split: tx.split)
qed

subsection \<open>The invariant\<close>

definition sys_inv :: "system \<Rightarrow> world \<Rightarrow> bool" where
  "sys_inv S w \<longleftrightarrow> unique_aliases (collate (sys_env S)) (rows_of w) \<and> counters_ok (rows_of w) \<and> w_txs w = []"

text \<open>The uploads of a run ask for an int16 number of downloads that is at least one.\<close>

definition upload_ok :: "sys_event \<Rightarrow> bool" where
  "upload_ok ev = (case ev of EvUpload rnd salt c \<Rightarrow> 1 \<le> uf_MaxDownloads c \<and> uf_MaxDownloads c < 2 ^ 15 | _ \<Rightarrow> True)"

lemma no_view: "w_txs w = [] \<longleftrightarrow> view_of w = (\<lambda>_. None)"
proof
  assume "view_of w = (\<lambda>_. None)"
  then have "map_of (w_txs w) h = None" for h
    by (auto simp: view_of_def fun_eq_iff split: tx.split_asm)
  then have "map fst (w_txs w) = []" by (metis map_of_eq_None_iff list.set_map list.set_intros(1) neq_Nil_conv)
  then show "w_txs w = []" by simp
qed (auto simp: view_of_def fun_eq_iff split: tx.split)

lemma counter_wrap: "counters_ok fs \<Longrightarrow> g \<in> set fs \<Longrightarrow> wrap16 (f_DownloadsLeft g - 1) = f_DownloadsLeft g - 1"
  by (auto simp: counters_ok_def list_all_iff intro!: wrap16_id)

lemma counter_range: "counters_ok fs \<Longrightarrow> g \<in> set fs \<Longrightarrow> 1 \<le> f_DownloadsLeft g \<and> f_DownloadsLeft g < 2 ^ 15"
  by (auto simp: counters_ok_def list_all_iff)

lemma table_step_inv:
  assumes t: "table_step E ev r fs fs'" and u: "unique_aliases (collate E) fs" and c: "counters_ok fs"
    and ok: "upload_ok ev"
  shows "unique_aliases (collate E) fs' \<and> counters_ok fs'"
proof (cases ev)
  case (EvUpload rnd salt c')
  with t consider "fs' = fs" | f where "fs' = fs @ [f]" "collate E (f_Alias f) \<notin> (collate E \<circ> f_Alias) ` set fs"
    "f_DownloadsLeft f = uf_MaxDownloads c'" by (auto simp: table_step_def simp del: comp_apply)
  then show ?thesis
    using u c ok EvUpload by cases (auto simp: unique_aliases_def counters_ok_def upload_ok_def)
next
  case (EvDownload c')
  with t consider "fs' = fs" | g where "g \<in> set fs"
    "fs' = after_download (collate E) (df_Alias c') (f_DownloadsLeft g - 1) fs"
    using counter_wrap [OF c] by (fastforce simp: table_step_def)
  then show ?thesis
  proof cases
    case 2
    with counter_range [OF c] have "f_DownloadsLeft g - 1 < 2 ^ 15" by force
    with 2 u c show ?thesis by (simp add: unique_after_download counters_after_download)
  qed (use u c in simp)
next
  case (EvDelete c')
  with t u c show ?thesis
    by (auto simp: table_step_def unique_aliases_def distinct_map_filterI counters_ok_def list_all_iff)
next
  case EvTick
  with t u c show ?thesis
    by (auto simp: table_step_def intro: unique_purged counters_purged)
qed (use t u c in \<open>auto simp: table_step_def\<close>)

lemma sys_step_inv:
  assumes "sys_step S w ev r w'" "sys_inv S w" "upload_ok ev"
  shows "sys_inv S w'"
  using sys_step_table [OF assms(1)] table_step_inv [of "sys_env S" ev r "rows_of w" "rows_of w'"] assms(2,3)
  by (auto simp: sys_inv_def no_view)

lemma sys_run_inv:
  assumes "sys_run S w tr w'" "sys_inv S w" "list_all (upload_ok \<circ> fst) tr"
  shows "sys_inv S w'"
  using assms
proof (induction rule: sys_run.induct)
  case (cons w ev r w1 tr w')
  then show ?case using sys_step_inv by auto
qed

subsection \<open>How many downloads are left\<close>

definition left_for :: "db_env \<Rightarrow> string \<Rightarrow> file_info list \<Rightarrow> int" where
  "left_for E a fs = sum_list (map f_DownloadsLeft (filter (same_alias (collate E) a) fs))"

lemma left_for_nonneg: "counters_ok fs \<Longrightarrow> 0 \<le> left_for E a fs"
  unfolding left_for_def by (rule sum_list_nonneg) (auto dest: counter_range)

lemma left_for_filter: "counters_ok fs \<Longrightarrow> left_for E a (filter P fs) \<le> left_for E a fs"
proof (induction fs)
  case (Cons f fs)
  then have "1 \<le> f_DownloadsLeft f" "counters_ok fs" using counter_range [OF Cons.prems, of f]
    by (auto simp: counters_ok_def)
  with Cons.IH show ?case by (auto simp: left_for_def)
qed simp

text \<open>A counted download lowers the number by one for its own alias and leaves the others alone.\<close>

lemma left_for_other:
  assumes "collate E b \<noteq> collate E a"
  shows "left_for E b (after_download (collate E) a n fs) = left_for E b fs"
  using assms by (induction fs) (auto simp: left_for_def after_download_def set_downloads_def same_alias_def)

lemma left_for_key: "collate E b = collate E a \<Longrightarrow> left_for E b fs = left_for E a fs"
  by (simp add: left_for_def same_alias_def [abs_def])

lemma left_for_row:
  assumes u: "unique_aliases (collate E) fs" and g: "g \<in> set fs" "same_alias (collate E) a g"
  shows "left_for E a fs = f_DownloadsLeft g"
proof -
  have "filter (same_alias (collate E) a) fs = filter (\<lambda>f. (collate E \<circ> f_Alias) f = (collate E \<circ> f_Alias) g) fs"
    using g(2) by (intro filter_cong) (auto simp: same_alias_def)
  with filter_unique_key [OF u [unfolded unique_aliases_def] g(1)] show ?thesis
    by (simp add: left_for_def)
qed

lemma left_for_own:
  assumes u: "unique_aliases (collate E) fs" and c: "counters_ok fs"
    and g: "g \<in> set fs" "same_alias (collate E) a g"
  shows "left_for E a (after_download (collate E) a (f_DownloadsLeft g - 1) fs) = left_for E a fs - 1"
proof (cases "f_DownloadsLeft g - 1 > 0")
  case True
  let ?n = "f_DownloadsLeft g - 1" and ?g = "g\<lparr>f_DownloadsLeft := f_DownloadsLeft g - 1\<rparr>"
  have "?g \<in> set (set_downloads (collate E) a ?n fs)" using g by (force simp: set_downloads_def)
  with left_for_row [of E, OF _ this, of a] u g left_for_row [OF u g] True show ?thesis
    by (simp add: after_download_def)
next
  case False
  with counter_range [OF c g(1)] left_for_row [OF u g] show ?thesis
    by (simp add: after_download_def left_for_def)
qed

text \<open>The successful downloads of an alias in a run.\<close>

definition served :: "db_env \<Rightarrow> string \<Rightarrow> sys_event \<times> sys_result \<Rightarrow> bool" where
  "served E a x = (case x of (EvDownload c, ReDownload (Inr d)) \<Rightarrow> collate E (df_Alias c) = collate E a | _ \<Rightarrow> False)"

definition may_create :: "db_env \<Rightarrow> string \<Rightarrow> sys_event \<Rightarrow> bool" where
  "may_create E a ev = (case ev of
     EvUpload rnd salt c \<Rightarrow> (\<exists>len b. Gen rnd len = Some (Inr b) \<and> collate E b = collate E a) | _ \<Rightarrow> False)"

lemma table_step_left:
  assumes t: "table_step E ev r fs fs'" and u: "unique_aliases (collate E) fs" and c: "counters_ok fs"
    and new: "\<not> may_create E a ev"
  shows "left_for E a fs' + (if served E a (ev, r) then 1 else 0) \<le> left_for E a fs"
proof (cases ev)
  case (EvUpload rnd salt c')
  with t new show ?thesis
    by (auto simp: table_step_def may_create_def left_for_def same_alias_def served_def)
next
  case (EvDownload c')
  with t consider "fs' = fs" "\<forall>x. r \<noteq> ReDownload (Inr x)"
    | g where "g \<in> set fs" "same_alias (collate E) (df_Alias c') g"
      "fs' = after_download (collate E) (df_Alias c') (f_DownloadsLeft g - 1) fs"
    using counter_wrap [OF c] by (fastforce simp: table_step_def)
  then show ?thesis
  proof cases
    case 1
    with EvDownload show ?thesis by (auto simp: served_def split: sys_result.split sum.split)
  next
    case 2
    show ?thesis
    proof (cases "collate E a = collate E (df_Alias c')")
      case True
      with left_for_own [OF u c 2(1,2)] 2(3) left_for_key [OF True] show ?thesis by simp
    next
      case False
      with left_for_other [OF False] 2(3) EvDownload show ?thesis
        by (auto simp: served_def split: sys_result.split sum.split)
    qed
  qed
next
  case (EvDelete c')
  with t left_for_filter [OF c] show ?thesis by (auto simp: table_step_def served_def)
next
  case EvTick
  with t left_for_filter [OF c] show ?thesis by (auto simp: table_step_def served_def purged_def)
qed (use t in \<open>auto simp: table_step_def served_def\<close>)

lemma sys_run_left:
  assumes "sys_run S w tr w'" "sys_inv S w" "list_all (upload_ok \<circ> fst) tr"
    "list_all (\<lambda>x. \<not> may_create (sys_env S) a (fst x)) tr"
  shows "left_for (sys_env S) a (rows_of w') + int (length (filter (served (sys_env S) a) tr)) \<le>
    left_for (sys_env S) a (rows_of w)"
  using assms
proof (induction rule: sys_run.induct)
  case (nil w)
  then show ?case by simp
next
  case (cons w ev r w1 tr w')
  have "left_for (sys_env S) a (rows_of w1) + (if served (sys_env S) a (ev, r) then 1 else 0) \<le>
      left_for (sys_env S) a (rows_of w)"
    using cons.prems sys_step_table [OF cons.hyps(1)] by (intro table_step_left) (auto simp: sys_inv_def)
  moreover have "sys_inv S w1" using sys_step_inv [OF cons.hyps(1)] cons.prems by simp
  ultimately show ?case using cons by (auto split: if_splits)
qed

end
