(* ===== verification/Calm_World.thy ===== *)
theory Calm_World
  imports System "HOL-Library.Multiset"
begin

text \<open>
  What the operations do when the environment lets them: no call fails and no time passes inside
  an operation.  Here the results are closed forms, so these are the theorems that requests
  succeed when they should; the theorems of \<open>System.thy\<close> say what holds whatever fails.
\<close>

definition calm :: "world \<Rightarrow> bool" where
  "calm w \<longleftrightarrow> w_tape w = [] \<and> w_txs w = []"

text \<open>The handle of the only transaction.\<close>

definition h0 :: nat where "h0 = fresh []"

named_theorems calm_rules \<open>calls in a calm world\<close>

lemma calm_get [calm_rules]:
  "w_tape w = [] \<Longrightarrow> repo_GetFileByAlias (NewFileRepo E) a w =
   (case find (live_row E (w_clock w) a) (w_table w) of
      None \<Rightarrow> (Inl (Sentinel ErrFileNotFound), w) | Some r \<Rightarrow> (Inr (row_file r), w))"
  by (simp add: NewFileRepo_def FileRepo_GetFileByAlias_def calm_query sql_select_by_alias_def
      split: option.split)

lemma calm_begin [calm_rules]:
  "w_tape w = [] \<Longrightarrow> w_txs w = [] \<Longrightarrow>
   repo_BeginTx (NewFileRepo E) w = (Inr (SqlTx h0), w\<lparr>w_txs := [(h0, w_table w)]\<rparr>)"
  by (simp add: NewFileRepo_def FileRepo_BeginTx_def next_tick_calm h0_def Let_def)

lemma calm_commit [calm_rules]:
  "w_tape w = [] \<Longrightarrow> w_txs w = [(h0, v)] \<Longrightarrow>
   repo_Commit (NewFileRepo E) (SqlTx h0) w = (None, w\<lparr>w_txs := [], w_table := v\<rparr>)"
  by (simp add: NewFileRepo_def Tx_Commit_def next_tick_calm)

lemma calm_rollback [calm_rules]:
  "w_tape w = [] \<Longrightarrow> w_txs w = [(h0, v)] \<Longrightarrow>
   repo_Rollback (NewFileRepo E) (SqlTx h0) w = (None, w\<lparr>w_txs := []\<rparr>)"
  "w_tape w = [] \<Longrightarrow> w_txs w = [] \<Longrightarrow> repo_Rollback (NewFileRepo E) (SqlTx h0) w = (Some (Ext TxDone), w)"
  by (simp_all add: NewFileRepo_def Tx_Rollback_def next_tick_calm)

lemma calm_stat [calm_rules]:
  "w_tape w = [] \<Longrightarrow> sql_stat_by_user u (w_clock w) (w_table w) = Inr (n, z) \<Longrightarrow>
   repo_GetFilesStatByUserID (NewFileRepo E) u w =
     (Inr \<lparr>fst_UserID = u, fst_Count = n, fst_Size = z\<rparr>, w)"
  by (simp add: NewFileRepo_def FileRepo_GetFilesStatByUserID_def calm_query)

text \<open>The rows after the counter of an alias has been set.\<close>

definition set_rows :: "db_env \<Rightarrow> string \<Rightarrow> int \<Rightarrow> row list \<Rightarrow> row list" where
  "set_rows E a n rs = map (\<lambda>r. if same_alias (collate E) a (row_file r)
     then r\<lparr>row_file := (row_file r)\<lparr>f_DownloadsLeft := n\<rparr>\<rparr> else r) rs"

lemma calm_decrement [calm_rules]:
  "w_tape w = [] \<Longrightarrow> w_txs w = [(h0, v)] \<Longrightarrow> find (live_row E (w_clock w) a) v = Some r \<Longrightarrow>
   f_DownloadsLeft (row_file r) \<noteq> 0 \<Longrightarrow>
   repo_DecrementDownloadsByAliasTx (NewFileRepo E) (SqlTx h0) a w =
     (Inr (wrap16 (f_DownloadsLeft (row_file r) - 1)),
      w\<lparr>w_txs := [(h0, set_rows E a (wrap16 (f_DownloadsLeft (row_file r) - 1)) v)]\<rparr>)"
  by (simp add: NewFileRepo_def FileRepo_DecrementDownloadsByAliasTx_def calm_exec
      sql_select_downloads_def sql_update_downloads_def set_rows_def Let_def)

lemma calm_delete_tx [calm_rules]:
  assumes w: "w_tape w = []" "w_txs w = [(h0, v)]" and r: "find (live_row E (w_clock w) a) v = Some r"
  shows "repo_DeleteFileTx (NewFileRepo E) (SqlTx h0) a w =
     (None, w\<lparr>w_txs := [(h0, filter (\<lambda>r. \<not> live_row E (w_clock w) a r) v)]\<rparr>)"
proof -
  from r have "filter (live_row E (w_clock w) a) v \<noteq> []"
    by (metis find_None_iff filter_empty_conv option.distinct(1))
  with w show ?thesis
    by (simp add: NewFileRepo_def FileRepo_DeleteFileTx_def calm_exec calm_check sql_delete_live_def)
qed

lemma calm_add [calm_rules]:
  "w_tape w = [] \<Longrightarrow> w_txs w = [(h0, v)] \<Longrightarrow> column_error E (w_clock w) c = None \<Longrightarrow>
   \<not> (\<exists>r \<in> set v. same_alias (collate E) (af_Alias c) (row_file r)) \<Longrightarrow>
   repo_AddFileTx (NewFileRepo E) (SqlTx h0) c w =
     (Inr (w_nextid w), w\<lparr>w_nextid := w_nextid w + 1,
       w_txs := [(h0, v @ [\<lparr>row_id = w_nextid w, row_file =
          \<lparr>f_Name = af_Filename c, f_Size = af_Filesize c, f_Alias = af_Alias c,
           f_DownloadsLeft = af_MaxDownloads c, f_PasswordHash = af_PasswordHash c,
           f_LoadedAt = ts_col E (w_clock w), f_ExpiresAt = ts_col E (w_clock w + af_TTL c),
           f_UserID = af_UserID c\<rparr>\<rparr>])]\<rparr>)"
  by (simp add: NewFileRepo_def FileRepo_AddFileTx_def calm_exec calm_check sql_insert_def Let_def)

lemma calm_st_download [calm_rules]:
  "w_tape w = [] \<Longrightarrow> folder_of p w a = Some ((n, b) # rest) \<Longrightarrow>
   st_Download (NewFileStorage p) a w =
     (Inr \<lparr>dr_File = b, dr_Name = n, dr_Size = int (length b), dr_fd = fresh (w_open w)\<rparr>,
      w\<lparr>w_open := fresh (w_open w) # w_open w\<rparr>)"
  by (simp add: NewFileStorage_def FileStorage_Download_def folder_of_def os_ReadDir_def os_Open_def
      next_tick_calm calm_check Let_def)

lemma calm_st_delete [calm_rules]:
  "w_tape w = [] \<Longrightarrow>
   st_Delete (NewFileStorage p) a w = (None, w\<lparr>w_dirs := remove_under (Join p a) (w_dirs w)\<rparr>)"
  by (simp add: NewFileStorage_def FileStorage_Delete_def os_RemoveAll_def next_tick_calm)

lemma calm_st_upload [calm_rules]:
  "w_tape w = [] \<Longrightarrow> folder_of p w a = None \<or> folder_of p w a = Some [] \<Longrightarrow> valid_name (Base n) \<Longrightarrow>
   st_Upload (NewFileStorage p) content a n w =
     (None, w\<lparr>w_dirs := (w_dirs w)(Join p a \<mapsto> [(Base n, content)])\<rparr>)"
  by (auto simp: NewFileStorage_def FileStorage_Upload_def folder_of_def os_MkdirAll_def os_Create_def
      ctx_Err_def io_Copy_def os_Close_def next_tick_calm calm_check Let_def)

subsection \<open>Download\<close>

lemma find_live_set_rows:
  "find (live_row E t a) (set_rows E a n rs) =
   map_option (\<lambda>r. r\<lparr>row_file := (row_file r)\<lparr>f_DownloadsLeft := n\<rparr>\<rparr>) (find (live_row E t a) rs)"
  by (induction rs) (auto simp: set_rows_def live_row_def live_as_def)

text \<open>The world after a counted download, with the file still open.\<close>

definition downloaded :: "db_env \<Rightarrow> string \<Rightarrow> string \<Rightarrow> int \<Rightarrow> world \<Rightarrow> world" where
  "downloaded E p a n w =
     (if n > 0 then w\<lparr>w_table := set_rows E a n (w_table w)\<rparr>
      else w\<lparr>w_table := filter (\<lambda>r. \<not> live_row E (w_clock w) a r) (set_rows E a n (w_table w)),
             w_dirs := remove_under (Join p a) (w_dirs w)\<rparr>)"

lemma calm_download:
  assumes w: "calm w" and r: "find (live_row E (w_clock w) a) (w_table w) = Some r"
    and pw: "checkPassword B (row_file r) pwd = None"
    and d: "folder_of p w a = Some ((n, b) # rest)"
    and k: "f_DownloadsLeft (row_file r) = k" "1 \<le> k" "k < 2 ^ 15"
  shows "Service_DownloadFile (app_service E p cfg B) \<lparr>df_Alias = a, df_Password = pwd\<rparr> w =
    (Inr \<lparr>dr_File = b, dr_Name = n, dr_Size = int (length b), dr_fd = fresh (w_open w)\<rparr>,
     (downloaded E p a (k - 1) w)\<lparr>w_open := fresh (w_open w) # w_open w\<rparr>)"
proof -
  have k': "wrap16 (k - 1) = k - 1" using k by (intro wrap16_id) auto
  have "find (live_row E (w_clock w) a) (set_rows E a (k - 1) (w_table w)) =
      Some (r\<lparr>row_file := (row_file r)\<lparr>f_DownloadsLeft := k - 1\<rparr>\<rparr>)"
    using r by (simp add: find_live_set_rows)
  with w r pw d k k' show ?thesis
    by (cases "k = 1")
      (simp_all add: Service_DownloadFile_def download_in_tx_def calm_rules calm_def downloaded_def Let_def)
qed

lemma calm_download_missing:
  assumes "calm w" "find (live_row E (w_clock w) (df_Alias c)) (w_table w) = None"
  shows "Service_DownloadFile (app_service E p cfg B) c w = (Inl (Sentinel ErrFileNotFound), w)"
  using assms
  by (simp add: Service_DownloadFile_def calm_rules calm_def svc_err_def not_found_or_ctx_def Let_def)

subsection \<open>Repeated downloads\<close>

text \<open>One request after the other; the handler closes the file when it has answered.\<close>

fun fetch_times :: "world service \<Rightarrow> download_file \<Rightarrow> nat \<Rightarrow> world \<Rightarrow> download_result result list" where
  "fetch_times fs c 0 w = []"
| "fetch_times fs c (Suc n) w =
     (case Service_DownloadFile fs c w of
        (Inl e, w1) \<Rightarrow> Inl e # fetch_times fs c n w1
      | (Inr d, w1) \<Rightarrow> Inr d # fetch_times fs c n (snd (st_Close (fs_fileStorage fs) (dr_fd d) w1)))"

lemma fetch_missing:
  "calm w \<Longrightarrow> find (live_row E (w_clock w) (df_Alias c)) (w_table w) = None \<Longrightarrow>
   fetch_times (app_service E p cfg B) c n w = replicate n (Inl (Sentinel ErrFileNotFound))"
  by (induction n) (simp_all add: calm_download_missing)

lemma removeAll_fresh: "removeAll (fresh xs) xs = xs"
  by (simp add: removeAll_id)

lemma calm_close: "snd (st_Close (NewFileStorage p) fd w) = w\<lparr>w_open := removeAll fd (w_open w)\<rparr>"
  by (simp add: NewFileStorage_def os_Close_def)

text \<open>Closing the file gives the world of the next request.\<close>

lemma close_downloaded:
  "snd (st_Close (NewFileStorage p) (fresh (w_open w))
     ((downloaded E q a n w)\<lparr>w_open := fresh (w_open w) # w_open w\<rparr>)) = downloaded E q a n w"
  by (simp add: calm_close downloaded_def removeAll_fresh)

lemma downloaded_simps [simp]:
  "w_open (downloaded E p a n w) = w_open w" "w_clock (downloaded E p a n w) = w_clock w"
  "calm (downloaded E p a n w) = calm w"
  by (simp_all add: downloaded_def calm_def)

lemma find_after_last:
  "find (live_row E t a) (filter (\<lambda>r. \<not> live_row E t a r) rs) = None"
  by (auto simp: find_None_iff)

lemma checkPassword_counter [simp]:
  "checkPassword B (f\<lparr>f_DownloadsLeft := n\<rparr>) pwd = checkPassword B f pwd"
  by (simp add: checkPassword_def)

lemma fetch_times_calm:
  assumes "calm w" "find (live_row E (w_clock w) a) (w_table w) = Some r"
    and "checkPassword B (row_file r) pwd = None"
    and "folder_of p w a = Some ((n, b) # rest)"
    and "f_DownloadsLeft (row_file r) = int (Suc k)" "int (Suc k) < 2 ^ 15"
  shows "fetch_times (app_service E p cfg B) \<lparr>df_Alias = a, df_Password = pwd\<rparr> m w =
    replicate (min m (Suc k))
      (Inr \<lparr>dr_File = b, dr_Name = n, dr_Size = int (length b), dr_fd = fresh (w_open w)\<rparr>) @
    replicate (m - Suc k) (Inl (Sentinel ErrFileNotFound))"
  using assms
proof (induction k arbitrary: w r m)
  case 0
  show ?case
  proof (cases m)
    case (Suc m')
    let ?w = "downloaded E p a 0 w"
    have "find (live_row E (w_clock ?w) a) (w_table ?w) = None"
      using find_after_last by (simp add: downloaded_def)
    with 0 Suc fetch_missing [of ?w E "\<lparr>df_Alias = a, df_Password = pwd\<rparr>" p cfg B m']
      calm_download [OF 0(1-4), of 1 cfg] close_downloaded [of p w E p a 0]
    show ?thesis by simp
  qed simp
next
  case (Suc k)
  show ?case
  proof (cases m)
    case m: (Suc m')
    let ?w = "downloaded E p a (int (Suc k)) w"
    let ?r = "r\<lparr>row_file := (row_file r)\<lparr>f_DownloadsLeft := int (Suc k)\<rparr>\<rparr>"
    have "find (live_row E (w_clock ?w) a) (w_table ?w) = Some ?r"
      "folder_of p ?w a = Some ((n, b) # rest)"
      using Suc.prems find_live_set_rows by (simp_all add: downloaded_def folder_of_def)
    with Suc.IH [of ?w ?r m'] Suc.prems m
      calm_download [OF Suc.prems(1-4), of "int (Suc (Suc k))" cfg] close_downloaded [of p w E p a "int (Suc k)"]
    show ?thesis by simp
  qed simp
qed

subsection \<open>Upload\<close>

definition new_row :: "db_env \<Rightarrow> upload_file \<Rightarrow> string \<Rightarrow> string \<Rightarrow> world \<Rightarrow> row" where
  "new_row E c a h w =
     \<lparr>row_id = w_nextid w, row_file =
        \<lparr>f_Name = uf_Filename c, f_Size = uf_Filesize c, f_Alias = a,
         f_DownloadsLeft = uf_MaxDownloads c, f_PasswordHash = h,
         f_LoadedAt = ts_col E (w_clock w), f_ExpiresAt = ts_col E (w_clock w + uf_TTL c),
         f_UserID = ui_UserID (uf_User c)\<rparr>\<rparr>"

definition uploaded :: "db_env \<Rightarrow> string \<Rightarrow> upload_file \<Rightarrow> string \<Rightarrow> string \<Rightarrow> world \<Rightarrow> world" where
  "uploaded E p c a h w =
     w\<lparr>w_table := w_table w @ [new_row E c a h w], w_nextid := w_nextid w + 1,
       w_dirs := (w_dirs w)(Join p a \<mapsto> [(Base (uf_Filename c), uf_File c)])\<rparr>"

text \<open>The storage has nothing under the alias yet, and the table no row for it.\<close>

definition free_alias :: "db_env \<Rightarrow> string \<Rightarrow> string \<Rightarrow> world \<Rightarrow> bool" where
  "free_alias E p a w \<longleftrightarrow>
     \<not> (\<exists>r \<in> set (w_table w). same_alias (collate E) a (row_file r)) \<and>
     (folder_of p w a = None \<or> folder_of p w a = Some [])"

text \<open>The columns of the table take the row.\<close>

definition fits_columns :: "db_env \<Rightarrow> upload_file \<Rightarrow> string \<Rightarrow> string \<Rightarrow> world \<Rightarrow> bool" where
  "fits_columns E c a h w \<longleftrightarrow> text_fits E (uf_Filename c) \<and> length (uf_Filename c) \<le> 65535 \<and>
     length a \<le> 50 \<and> length h \<le> 255 \<and> ts_fits E (w_clock w + uf_TTL c)"

text \<open>The row the method asks the repository for.\<close>

definition add_command :: "upload_file \<Rightarrow> string \<Rightarrow> string \<Rightarrow> add_file" where
  "add_command c a h = \<lparr>af_Filename = uf_Filename c, af_Filesize = uf_Filesize c, af_Alias = a,
     af_MaxDownloads = uf_MaxDownloads c, af_PasswordHash = h, af_TTL = uf_TTL c,
     af_UserID = ui_UserID (uf_User c)\<rparr>"

lemma column_error_fits: "column_error E (w_clock w) (add_command c a h) = None \<longleftrightarrow> fits_columns E c a h w"
  by (auto simp: column_error_def fits_columns_def add_command_def)

lemma calm_upload_with_alias:
  assumes "calm w" "hash_password B salt (uf_Password c) = Inr h" "free_alias E p a w" "valid_name (Base (uf_Filename c))"
    and fits: "fits_columns E c a h w"
  shows "upload_with_alias (app_service E p cfg B) salt c a w = (Inr a, uploaded E p c a h w)"
  using assms fits [folded column_error_fits]
  by (simp add: upload_with_alias_def upload_in_tx_def calm_rules calm_def free_alias_def folder_of_def
      uploaded_def new_row_def Let_def add_command_def)

lemma calm_upload:
  assumes w: "calm w" and st: "sql_stat_by_user (ui_UserID (uf_User c)) (w_clock w) (w_table w) = Inr (n, z)"
    and q: "checkUploadQuote cfg \<lparr>fst_UserID = ui_UserID (uf_User c), fst_Count = n, fst_Size = z\<rparr>
      (uf_Filesize c) (ui_Roles (uf_User c)) = None"
    and g: "Gen rnd (AliasLength cfg) = Some (Inr a)" and h: "hash_password B salt (uf_Password c) = Inr h"
    and free: "free_alias E p a w" and name: "valid_name (Base (uf_Filename c))" and fits: "fits_columns E c a h w"
  shows "Service_UploadFile rnd salt (app_service E p cfg B) c w = Returns (Inr a, uploaded E p c a h w)"
proof -
  from w st have "repo_GetFilesStatByUserID (NewFileRepo E) (ui_UserID (uf_User c)) w =
      (Inr \<lparr>fst_UserID = ui_UserID (uf_User c), fst_Count = n, fst_Size = z\<rparr>, w)"
    by (simp add: calm_stat calm_def)
  with q g calm_upload_with_alias [OF w h free name fits, of cfg] show ?thesis by (simp add: Service_UploadFile_def)
qed

text \<open>A row that the columns do not take is refused, with an error the handlers have no name for.\<close>

lemma calm_not_fitting:
  assumes "calm w" "hash_password B salt (uf_Password c) = Inr h" "\<not> fits_columns E c a h w"
  shows "\<exists>e. upload_with_alias (app_service E p cfg B) salt c a w = (Inl e, w) \<and>
    (\<forall>s. \<not> is_domain e s) \<and> \<not> isCtxError e"
proof -
  obtain n m where e: "column_error E (w_clock w) (add_command c a h) = Some (MySQLError n m)" "n \<noteq> duplicateEntryErrCode"
    using assms(3) unfolding column_error_fits [symmetric]
    by (auto simp: column_error_def duplicateEntryErrCode_def split: if_splits)
  with assms(1,2) show ?thesis
    by (auto simp: upload_with_alias_def upload_in_tx_def abandon_tx_def calm_begin calm_def NewFileRepo_def
        FileRepo_BeginTx_def FileRepo_AddFileTx_def Tx_Rollback_def next_tick_calm calm_exec sql_insert_def
        Let_def add_command_def is_domain_def isCtxError_def svc_err_def)
qed

lemma find_append_new:
  "\<not> (\<exists>x \<in> set xs. P x) \<Longrightarrow> P y \<Longrightarrow> find P (xs @ [y]) = Some y"
  by (induction xs) auto

text \<open>bcrypt accepts the password a hash was made from.\<close>

definition bcrypt_sound :: "bcrypt \<Rightarrow> bool" where
  "bcrypt_sound B \<longleftrightarrow> (\<forall>salt p h. bcrypt_Generate B salt p = Inr h \<longrightarrow> bcrypt_Compare B h p)"

lemma checkPassword_hashed:
  assumes "hash_password B salt pwd = Inr h" "bcrypt_sound B" "f_PasswordHash f = h"
  shows "checkPassword B f pwd = None"
  using assms by (auto simp: hash_password_def checkPassword_def bcrypt_sound_def split: if_splits)

lemma find_new_row:
  assumes "\<not> (\<exists>r \<in> set rs. same_alias (collate E) a (row_file r))"
    and "ts_col E (w_clock w + uf_TTL c) > sql_now E t"
  shows "find (live_row E t a) (rs @ [new_row E c a h w]) = Some (new_row E c a h w)"
  using assms by (intro find_append_new) (auto simp: live_row_def live_as_def new_row_def same_alias_def)

subsection \<open>The worker\<close>

definition expired :: "db_env \<Rightarrow> instant \<Rightarrow> row \<Rightarrow> bool" where
  "expired E t r \<longleftrightarrow> f_ExpiresAt (row_file r) < sql_now E t"

lemma calm_scan_rows: "w_tape w = [] \<Longrightarrow> scan_rows rs acc w = (Inr (acc @ rs), w)"
  by (induction rs arbitrary: acc) (simp_all add: calm_check)

lemma calm_exec_deletes:
  "w_tape w = [] \<Longrightarrow> w_txs w = [(h0, v)] \<Longrightarrow>
   exec_deletes E h0 as w = (None, w\<lparr>w_txs :=
     [(h0, filter (\<lambda>r. \<forall>a \<in> set as. \<not> same_alias (collate E) a (row_file r)) v)]\<rparr>)"
proof (induction as arbitrary: w v)
  case Nil
  then show ?case by simp
next
  case (Cons a as)
  from Cons.prems Cons.IH [of "w\<lparr>w_txs := [(h0, filter (\<lambda>r. \<not> same_alias (collate E) a (row_file r)) v)]\<rparr>"]
  show ?case by (simp add: calm_exec sql_delete_alias_def conj_commute)
qed

lemma calm_delete_folders:
  "w_tape w = [] \<Longrightarrow> delete_folders (NewFileStorage p) as w =
   (LoopDone, w\<lparr>w_dirs := fold (\<lambda>a. remove_under (Join p a)) as (w_dirs w)\<rparr>)"
  by (induction as arbitrary: w) (simp_all add: calm_st_delete)

text \<open>The rows of a batch, and the world after it.\<close>

definition batch :: "db_env \<Rightarrow> world \<Rightarrow> row list" where
  "batch E w = take 100 (filter (expired E (w_clock w)) (scan E (w_table w)))"

definition swept :: "db_env \<Rightarrow> string \<Rightarrow> world \<Rightarrow> world" where
  "swept E p w =
     w\<lparr>w_table := filter (\<lambda>r. \<forall>g \<in> set (batch E w). \<not> same_alias (collate E) (f_Alias (row_file g)) (row_file r)) (w_table w),
       w_dirs := fold (\<lambda>a. remove_under (Join p a)) (map (f_Alias \<circ> row_file) (batch E w)) (w_dirs w)\<rparr>"

lemma filter_all_true: "(\<And>x. x \<in> set xs \<Longrightarrow> P x) \<Longrightarrow> filter P xs = xs"
  by (induction xs) auto

lemma calm_expired_tx:
  assumes w: "calm w"
  shows "repo_DeleteExpiredFilesTx (NewFileRepo E) (SqlTx h0) batchLimit (w\<lparr>w_txs := [(h0, w_table w)]\<rparr>) =
    (Inr (map (f_Alias \<circ> row_file) (batch E w)),
     w\<lparr>w_txs := [(h0, filter (\<lambda>r. \<forall>g \<in> set (batch E w). \<not> same_alias (collate E) (f_Alias (row_file g)) (row_file r)) (w_table w))]\<rparr>)"
proof -
  let ?w1 = "w\<lparr>w_txs := [(h0, w_table w)]\<rparr>"
  have w1: "w_tape ?w1 = []" "w_txs ?w1 = [(h0, w_table w)]" using w by (simp_all add: calm_def)
  have "tx_exec h0 (sql_select_expired E batchLimit) ?w1 = (Inr (batch E w), ?w1)"
    using w1 by (simp add: calm_exec sql_select_expired_def batchLimit_def batch_def expired_def [abs_def])
  with w1 show ?thesis
    by (simp add: NewFileRepo_def FileRepo_DeleteExpiredFilesTx_def calm_scan_rows calm_check
        calm_exec_deletes [OF w1] Let_def)
qed

lemma calm_tick:
  assumes w: "calm w"
  shows "FileWorker_tick (sys_worker S) w = (True, swept (sys_env S) (sys_path S) w)"
  using w calm_expired_tx [OF w, of "sys_env S"]
  by (simp add: FileWorker_tick_def sys_worker_def NewFileWorker_def calm_rules calm_def
      calm_delete_folders swept_def)

lemma batch_props:
  shows "set (batch E w) \<subseteq> set (filter (expired E (w_clock w)) (w_table w))"
    "length (batch E w) = min 100 (length (filter (expired E (w_clock w)) (w_table w)))"
proof -
  let ?s = "filter (expired E (w_clock w)) (scan E (w_table w))"
    and ?t = "filter (expired E (w_clock w)) (w_table w)"
  have "mset ?s = mset ?t" by (simp add: scan_def mset_filter)
  then have s: "set ?s = set ?t" "length ?s = length ?t"
    by (metis mset_eq_setD, metis mset_eq_length)
  have "set (batch E w) \<subseteq> set ?s" unfolding batch_def by (rule set_take_subset)
  with s(1) show "set (batch E w) \<subseteq> set ?t" by (simp only:)
  show "length (batch E w) = min 100 (length ?t)" using s(2) unfolding batch_def by (simp only: length_take)
qed

text \<open>With unique aliases a sweep removes exactly its batch.\<close>

lemma swept_table:
  assumes u: "unique_aliases (collate E) (rows_of w)"
  shows "w_table (swept E p w) = filter (\<lambda>r. r \<notin> set (batch E w)) (w_table w)"
proof -
  have inj: "inj_on (collate E \<circ> f_Alias \<circ> row_file) (set (w_table w))"
    using u by (simp add: unique_aliases_def rows_of_def distinct_map comp_assoc)
  have "(\<forall>g \<in> set (batch E w). \<not> same_alias (collate E) (f_Alias (row_file g)) (row_file r)) \<longleftrightarrow>
      r \<notin> set (batch E w)" if "r \<in> set (w_table w)" for r
    using inj_onD [OF inj, of r] that batch_props(1) [of E w]
    by (fastforce simp: same_alias_def)
  then show ?thesis unfolding swept_def by (simp cong: filter_cong)
qed

lemma swept_simps [simp]:
  "w_clock (swept E p w) = w_clock w" "calm (swept E p w) = calm w" "w_open (swept E p w) = w_open w"
  by (simp_all add: swept_def calm_def)

lemma swept_unique:
  "unique_aliases (collate E) (rows_of w) \<Longrightarrow> unique_aliases (collate E) (rows_of (swept E p w))"
  by (simp add: swept_def rows_of_def unique_aliases_def distinct_map_filterI)

lemma swept_expired:
  assumes u: "unique_aliases (collate E) (rows_of w)"
  shows "length (filter (expired E (w_clock w)) (w_table (swept E p w))) =
    length (filter (expired E (w_clock w)) (w_table w)) - 100"
proof -
  let ?ex = "filter (expired E (w_clock w)) (w_table w)" and ?b = "set (batch E w)"
  have d: "distinct (w_table w)"
    using u by (simp add: unique_aliases_def rows_of_def distinct_map)
  have "distinct (batch E w)" using d by (simp add: batch_def scan_def)
  then have cb: "card ?b = min 100 (length ?ex)" using batch_props(2) distinct_card by metis
  have "length (filter (\<lambda>r. r \<notin> ?b) ?ex) = card (set ?ex - ?b)"
    using d distinct_card [of "filter (\<lambda>r. r \<notin> ?b) ?ex"] by (simp add: set_diff_eq Int_def)
  also have "\<dots> = length ?ex - card ?b"
    using d batch_props(1) [of E w] distinct_card [of ?ex] by (simp add: card_Diff_subset)
  finally show ?thesis using cb swept_table [OF u, of p] by (simp add: conj_commute)
qed

lemma swept_alive:
  assumes u: "unique_aliases (collate E) (rows_of w)"
  shows "filter (\<lambda>r. \<not> expired E (w_clock w) r) (w_table (swept E p w)) =
    filter (\<lambda>r. \<not> expired E (w_clock w) r) (w_table w)"
  using swept_table [OF u, of p] batch_props(1) [of E w] by (auto intro!: filter_cong)

lemma calm_worker:
  assumes "calm w" "unique_aliases (collate (sys_env S)) (rows_of w)"
    and "length (filter (expired (sys_env S) (w_clock w)) (w_table w)) \<le> 100 * n"
  shows "\<exists>w'. FileWorker_Start (sys_worker S) (replicate n TickerC) w = (True, w') \<and> calm w' \<and>
    w_table w' = filter (\<lambda>r. \<not> expired (sys_env S) (w_clock w) r) (w_table w)"
  using assms
proof (induction n arbitrary: w)
  case 0
  then have "filter (\<lambda>r. \<not> expired (sys_env S) (w_clock w) r) (w_table w) = w_table w"
    by (intro filter_all_true) (auto simp: filter_empty_conv)
  with 0 show ?case by simp
next
  case (Suc n)
  let ?w = "swept (sys_env S) (sys_path S) w"
  from Suc.prems swept_expired [OF Suc.prems(2), of "sys_path S"]
  have "length (filter (expired (sys_env S) (w_clock ?w)) (w_table ?w)) \<le> 100 * n" by simp
  with Suc.IH [of ?w] Suc.prems swept_unique obtain w' where
    "FileWorker_Start (sys_worker S) (replicate n TickerC) ?w = (True, w')" "calm w'"
    "w_table w' = filter (\<lambda>r. \<not> expired (sys_env S) (w_clock w) r) (w_table ?w)" by auto
  with calm_tick [OF Suc.prems(1), of S] swept_alive [OF Suc.prems(2)] show ?case by simp
qed

subsection \<open>Pages\<close>

definition own_files :: "db_env \<Rightarrow> int \<Rightarrow> world \<Rightarrow> row list" where
  "own_files E u w = filter (owned_live E (w_clock w) u) (scan E (w_table w))"

lemma own_files_count:
  "length (filter (owned_live E (w_clock w) u) (w_table w)) = length (own_files E u w)"
proof -
  have "mset (filter (owned_live E (w_clock w) u) (scan E (w_table w))) =
      mset (filter (owned_live E (w_clock w) u) (w_table w))"
    by (simp add: scan_def mset_filter)
  then show ?thesis unfolding own_files_def by (metis mset_eq_length)
qed

lemma calm_page:
  assumes w: "w_tape w = []" and n: "1 \<le> page" "0 \<le> limit" "(page - 1) * limit < 2 ^ 63" "page < 2 ^ 63"
  shows "repo_GetFilesByUserID (NewFileRepo E) \<lparr>ga_Page = page, ga_Limit = limit, ga_UserID = u\<rparr> w =
    (Inr (map row_file (take (nat limit) (drop (nat ((page - 1) * limit)) (own_files E u w))),
          int (length (own_files E u w))), w)"
proof -
  have off: "0 \<le> (page - 1) * limit" using n by simp
  with n have off1: "wrap64 (wrap64 (page - 1) * limit) = (page - 1) * limit"
    by (simp add: wrap64_id order.trans [OF _ off])
  have cnt: "db_query (sql_count_by_user E u) w = (Inr (int (length (own_files E u w))), w)"
    using w own_files_count by (simp add: calm_query sql_count_by_user_def)
  have page: "db_query (sql_page_by_user E u limit ((page - 1) * limit)) w =
      (Inr (take (nat limit) (drop (nat ((page - 1) * limit)) (own_files E u w))), w)"
    using w n off by (simp add: calm_query sql_page_by_user_def own_files_def mult_less_0_iff)
  show ?thesis
    using w cnt page off1
    by (auto simp: NewFileRepo_def FileRepo_GetFilesByUserID_def calm_scan_rows calm_check Let_def)
qed

lemma calm_list:
  assumes "calm w" "1 \<le> page" "0 \<le> limit" "(page - 1) * limit < 2 ^ 63" "page < 2 ^ 63"
  shows "Service_GetAllFiles (app_service E p cfg B) \<lparr>ga_Page = page, ga_Limit = limit, ga_UserID = u\<rparr> w =
    (Inr \<lparr>gar_Total = int (length (own_files E u w)),
          gar_Files = map (file_result (w_clock w) \<circ> row_file)
            (take (nat limit) (drop (nat ((page - 1) * limit)) (own_files E u w)))\<rparr>, w)"
  using assms calm_page [OF _ assms(2-5), of w E u] by (simp add: Service_GetAllFiles_def calm_def)

definition page_files :: "world service \<Rightarrow> int \<Rightarrow> int \<Rightarrow> world \<Rightarrow> nat \<Rightarrow> get_file_result list" where
  "page_files fs u limit w p =
     (case Service_GetAllFiles fs \<lparr>ga_Page = int p + 1, ga_Limit = limit, ga_UserID = u\<rparr> w of
        (Inr r, _) \<Rightarrow> gar_Files r | (Inl _, _) \<Rightarrow> [])"

lemma pages_partition:
  assumes w: "calm w" and l: "0 \<le> limit" "int n * limit < 2 ^ 63" "int n < 2 ^ 62"
    and n: "length (own_files E u w) \<le> n * nat limit"
  shows "concat (map (page_files (app_service E p cfg B) u limit w) [0..<n]) =
    map (file_result (w_clock w) \<circ> row_file) (own_files E u w)"
proof -
  have "page_files (app_service E p cfg B) u limit w k =
      map (file_result (w_clock w) \<circ> row_file) (take (nat limit) (drop (k * nat limit) (own_files E u w)))"
    if "k < n" for k
  proof -
    have "int k * limit \<le> int n * limit" using that l(1) by (intro mult_right_mono) auto
    with l that have "(int k + 1 - 1) * limit < 2 ^ 63" "int k + 1 < 2 ^ 63" by simp_all
    with calm_list [OF w _ l(1), of "int k + 1" E p cfg B u] show ?thesis
      using l(1) by (simp add: page_files_def nat_mult_distrib)
  qed
  then have "concat (map (page_files (app_service E p cfg B) u limit w) [0..<n]) =
      map (file_result (w_clock w) \<circ> row_file)
        (concat (map (\<lambda>k. take (nat limit) (drop (k * nat limit) (own_files E u w))) [0..<n]))"
    by (auto simp: map_concat comp_def intro!: arg_cong [of _ _ concat])
  with n show ?thesis by (simp add: concat_pages)
qed

text \<open>Beyond an offset of 2^63 the product is negative and the query is refused.\<close>

lemma calm_far_page:
  assumes "calm w" "own_files E u w \<noteq> []" "1 \<le> page" "page < 2 ^ 63" "0 < limit"
    and "2 ^ 63 \<le> (page - 1) * limit" "(page - 1) * limit < 2 ^ 64"
  shows "\<exists>e. Service_GetAllFiles (app_service E p cfg B) \<lparr>ga_Page = page, ga_Limit = limit, ga_UserID = u\<rparr> w = (Inl e, w) \<and>
    (\<forall>s. \<not> is_domain e s) \<and> \<not> isCtxError e"
proof -
  have "page - 1 < 2 ^ 63" "- (2 ^ 63) \<le> page - 1" using assms(3,4) by auto
  then have "wrap64 (page - 1) = page - 1" by (intro wrap64_id)
  moreover have "wrap64 ((page - 1) * limit) = (page - 1) * limit - 2 ^ 64"
  proof -
    have "wrap64 ((page - 1) * limit) = wrap64 ((page - 1) * limit - 2 ^ 64)"
      unfolding wrap64_def signed_take_bit_eq_iff_take_bit_eq take_bit_eq_mod
      using minus_mod_self2 [of "(page - 1) * limit" "2 ^ 64"] by simp
    also have "\<dots> = (page - 1) * limit - 2 ^ 64" using assms(6,7) by (intro wrap64_id) auto
    finally show ?thesis .
  qed
  ultimately have off: "wrap64 (wrap64 (page - 1) * limit) < 0" using assms(7) by simp
  have cnt: "db_query (sql_count_by_user E u) w = (Inr (int (length (own_files E u w))), w)"
    using assms(1) own_files_count by (simp add: calm_query calm_def sql_count_by_user_def)
  have "db_query (sql_page_by_user E u limit (wrap64 (wrap64 (page - 1) * limit))) w =
      (Inl (OtherErr ''negative LIMIT or OFFSET''), w)"
    using assms(1) off by (simp add: calm_query calm_def sql_page_by_user_def)
  with cnt assms(2) show ?thesis
    by (simp add: Service_GetAllFiles_def NewFileRepo_def FileRepo_GetFilesByUserID_def Let_def svc_err_def isCtxError_def)
qed

end
