(* ===== verification/Shelf.thy ===== *)
theory Shelf
  imports Calm_World
begin

text \<open>
  An abstract specification of the file service: a shelf maps each alias to one entry, a name,
  bytes, the downloads left, the password hash, the owner and the end of its life.  The world is read
  as a shelf, and the operations of the service, when no call fails, do to it what the specification
  says.
\<close>

record entry =
  en_Name :: string
  en_Content :: string
  en_Left :: int
  en_Hash :: string
  en_Owner :: int
  en_Until :: instant

type_synonym shelf = "string \<rightharpoonup> entry"

subsection \<open>The specification\<close>

text \<open>A download answers with name and bytes, or refuses, and takes the entry away with the last one.\<close>

definition shelf_download :: "bcrypt \<Rightarrow> string \<Rightarrow> string \<Rightarrow> shelf \<Rightarrow> (string \<times> string) option \<times> shelf" where
  "shelf_download B a pwd sh =
     (case sh a of
        None \<Rightarrow> (None, sh)
      | Some e \<Rightarrow>
          if en_Hash e \<noteq> [] \<and> (pwd = [] \<or> \<not> bcrypt_Compare B (en_Hash e) pwd) then (None, sh)
          else (Some (en_Name e, en_Content e),
                if en_Left e = 1 then sh(a := None) else sh(a \<mapsto> e\<lparr>en_Left := en_Left e - 1\<rparr>)))"

definition shelf_delete :: "user_info \<Rightarrow> string \<Rightarrow> shelf \<Rightarrow> bool \<times> shelf" where
  "shelf_delete u a sh =
     (case sh a of
        None \<Rightarrow> (False, sh)
      | Some e \<Rightarrow> if RoleAdmin \<in> set (ui_Roles u) \<or> en_Owner e = ui_UserID u then (True, sh(a := None))
                  else (False, sh))"

subsection \<open>The world as a shelf\<close>

definition shelf_of :: "db_env \<Rightarrow> string \<Rightarrow> world \<Rightarrow> shelf" where
  "shelf_of E p w a =
     (if plain_name a then
        (case (find (live_row E (w_clock w) a) (w_table w), folder_of p w a) of
           (Some r, Some ((n, b) # rest)) \<Rightarrow>
             Some \<lparr>en_Name = n, en_Content = b, en_Left = f_DownloadsLeft (row_file r),
                   en_Hash = f_PasswordHash (row_file r), en_Owner = f_UserID (row_file r),
                   en_Until = f_ExpiresAt (row_file r)\<rparr>
         | _ \<Rightarrow> None)
      else None)"

text \<open>Table and storage agree: every row has its file, and no folder is without a row.\<close>

definition shelf_ok :: "db_env \<Rightarrow> string \<Rightarrow> world \<Rightarrow> bool" where
  "shelf_ok E p w \<longleftrightarrow>
     unique_aliases (collate E) (rows_of w) \<and> counters_ok (rows_of w) \<and>
     (\<forall>f \<in> set (rows_of w). plain_name (f_Alias f) \<and> (\<exists>n b rest. folder_of p w (f_Alias f) = Some ((n, b) # rest))) \<and>
     (\<forall>a. plain_name a \<longrightarrow> folder_of p w a \<noteq> None \<longrightarrow> a \<in> f_Alias ` set (rows_of w))"

lemma shelf_okD:
  assumes "shelf_ok E p w"
  shows "unique_aliases (collate E) (rows_of w)" "counters_ok (rows_of w)"
    "\<And>f. f \<in> set (rows_of w) \<Longrightarrow> plain_name (f_Alias f)"
    "\<And>f. f \<in> set (rows_of w) \<Longrightarrow> \<exists>n b rest. folder_of p w (f_Alias f) = Some ((n, b) # rest)"
    "\<And>a. plain_name a \<Longrightarrow> folder_of p w a \<noteq> None \<Longrightarrow> a \<in> f_Alias ` set (rows_of w)"
  using assms by (simp_all add: shelf_ok_def)

text \<open>A stored alias is the alias of the row that answers for it.\<close>

lemma shelf_own:
  assumes ok: "shelf_ok E p w" and a: "plain_name a" "folder_of p w a \<noteq> None"
    and f: "f \<in> set (rows_of w)" "same_alias (collate E) a f"
  shows "f_Alias f = a"
proof -
  from shelf_okD(5) [OF ok a] obtain g where g: "g \<in> set (rows_of w)" "f_Alias g = a" by auto
  then have "same_alias (collate E) a g" by (simp add: same_alias_def)
  with unique_same [OF shelf_okD(1) [OF ok] f(1) g(1) f(2)] g(2) show ?thesis by simp
qed

lemma live_rowD: "find (live_row E t a) rs = Some r \<Longrightarrow> r \<in> set rs \<and> live_as (collate E) (sql_now E t) a (row_file r)"
  by (auto simp: find_Some_iff live_row_def)

lemma find_live_rows:
  "find (live_row E (w_clock w) a) (w_table w) = Some r \<Longrightarrow>
   row_file r \<in> set (rows_of w) \<and> same_alias (collate E) a (row_file r)"
  using live_rowD live_same by (fastforce simp: rows_of_def)

lemma live_row_key: "collate E b = collate E a \<Longrightarrow> live_row E t b = live_row E t a"
  by (auto simp: live_row_def live_as_def same_alias_def fun_eq_iff)

lemma find_set_rows_other:
  "collate E b \<noteq> collate E a \<Longrightarrow> find (live_row E t b) (set_rows E a n rs) = find (live_row E t b) rs"
  by (induction rs) (auto simp: set_rows_def live_row_def live_as_def same_alias_def)

lemma find_filter_other:
  "collate E b \<noteq> collate E a \<Longrightarrow>
   find (live_row E t b) (filter (\<lambda>r. \<not> live_row E t a r) rs) = find (live_row E t b) rs"
  by (induction rs) (auto simp: live_row_def live_as_def same_alias_def)

text \<open>An alias that only compares equal to a stored one is not on the shelf.\<close>

lemma shelf_of_variant:
  assumes "shelf_ok E p w" "find (live_row E (w_clock w) a) (w_table w) = Some r" "f_Alias (row_file r) = a"
    and "collate E b = collate E a" "b \<noteq> a"
  shows "plain_name b \<longrightarrow> folder_of p w b = None"
  using shelf_own [OF assms(1), of b "row_file r"] find_live_rows [OF assms(2)] assms(3-5)
  by (cases "folder_of p w b") (auto simp: same_alias_def)

subsection \<open>Counting a download, removing an entry\<close>

lemma shelf_of_counted:
  assumes ok: "shelf_ok E p w" and r: "find (live_row E (w_clock w) a) (w_table w) = Some r"
    and a: "plain_name a" "f_Alias (row_file r) = a"
  shows "shelf_of E p (w\<lparr>w_table := set_rows E a n (w_table w)\<rparr>) =
    (shelf_of E p w)(a := map_option (\<lambda>e. e\<lparr>en_Left := n\<rparr>) (shelf_of E p w a))"
proof
  fix b
  let ?w = "w\<lparr>w_table := set_rows E a n (w_table w)\<rparr>"
  consider "b = a" | "b \<noteq> a" "collate E b = collate E a" | "collate E b \<noteq> collate E a" by blast
  then show "shelf_of E p ?w b = ((shelf_of E p w)(a := map_option (\<lambda>e. e\<lparr>en_Left := n\<rparr>) (shelf_of E p w a))) b"
  proof cases
    case 1
    with r a(1) show ?thesis
      by (auto simp: shelf_of_def folder_of_def find_live_set_rows split: option.split list.split)
  next
    case 2
    with shelf_of_variant [OF ok r a(2) 2(2,1)] show ?thesis
      by (auto simp: shelf_of_def folder_of_def split: option.split list.split)
  next
    case 3
    then show ?thesis by (auto simp: shelf_of_def folder_of_def find_set_rows_other)
  qed
qed

text \<open>\<open>remove_entry\<close>: the live rows of the alias and its folder are gone.\<close>

definition remove_entry :: "db_env \<Rightarrow> string \<Rightarrow> string \<Rightarrow> world \<Rightarrow> world" where
  "remove_entry E p a w =
     w\<lparr>w_table := filter (\<lambda>r. \<not> live_row E (w_clock w) a r) (w_table w),
       w_dirs := remove_under (Join p a) (w_dirs w)\<rparr>"

lemma remove_entry_folder:
  assumes "plain_name a" "plain_name b"
  shows "folder_of p (remove_entry E p a w) b = (if b = a then None else folder_of p w b)"
  using assms not_under_plain by (auto simp: remove_entry_def folder_of_def remove_under_def)

lemma shelf_of_removed:
  assumes ok: "shelf_ok E p w" and r: "find (live_row E (w_clock w) a) (w_table w) = Some r"
    and a: "plain_name a" "f_Alias (row_file r) = a"
  shows "shelf_of E p (remove_entry E p a w) = (shelf_of E p w)(a := None)"
proof
  fix b
  have t: "w_table (remove_entry E p a w) = filter (\<lambda>r. \<not> live_row E (w_clock w) a r) (w_table w)"
    "w_clock (remove_entry E p a w) = w_clock w" by (simp_all add: remove_entry_def)
  consider "\<not> plain_name b" | "b = a" | "plain_name b" "b \<noteq> a" "collate E b = collate E a"
    | "plain_name b" "b \<noteq> a" "collate E b \<noteq> collate E a" by blast
  then show "shelf_of E p (remove_entry E p a w) b = ((shelf_of E p w)(a := None)) b"
  proof cases
    case 2
    then show ?thesis by (simp add: shelf_of_def remove_entry_folder t split: option.split)
  next
    case 3
    with shelf_of_variant [OF ok r a(2) 3(3,2)] show ?thesis
      by (simp add: shelf_of_def remove_entry_folder [OF a(1)] t split: option.split)
  next
    case 4
    then show ?thesis
      by (simp add: shelf_of_def remove_entry_folder [OF a(1)] t find_filter_other)
  qed (use a in \<open>auto simp: shelf_of_def\<close>)
qed

lemma rows_of_set_rows: "rows_of (w\<lparr>w_table := set_rows E a n (w_table w)\<rparr>) = set_downloads (collate E) a n (rows_of w)"
  by (simp add: rows_of_def set_rows_def set_downloads_def)

lemma shelf_ok_counted:
  assumes ok: "shelf_ok E p w" and n: "1 \<le> n" "n < 2 ^ 15"
  shows "shelf_ok E p (w\<lparr>w_table := set_rows E a n (w_table w)\<rparr>)"
proof -
  have al: "f_Alias ` set (set_downloads (collate E) a n (rows_of w)) = f_Alias ` set (rows_of w)"
    by (metis list.set_map map_alias_set_downloads)
  have "\<exists>g \<in> set (rows_of w). f_Alias f = f_Alias g" if "f \<in> set (set_downloads (collate E) a n (rows_of w))" for f
    using al that by (metis image_iff)
  with shelf_okD [OF ok] n al show ?thesis
    unfolding shelf_ok_def rows_of_set_rows
    by (auto simp: folder_of_def counters_set_downloads)
      (metis (no_types) folder_of_def)+
qed

lemma shelf_ok_removed:
  assumes ok: "shelf_ok E p w" and r: "find (live_row E (w_clock w) a) (w_table w) = Some r"
    and a: "plain_name a" "f_Alias (row_file r) = a"
  shows "shelf_ok E p (remove_entry E p a w)"
proof -
  have rows: "rows_of (remove_entry E p a w) = filter (\<lambda>g. \<not> same_alias (collate E) a g) (rows_of w)"
  proof -
    have "rows_of (remove_entry E p a w) = drop_live (collate E) (sql_now E (w_clock w)) a (rows_of w)"
      by (simp add: rows_of_def remove_entry_def drop_live_def filter_map comp_def live_row_def)
    also have "\<dots> = filter (\<lambda>g. \<not> same_alias (collate E) a g) (rows_of w)"
      using live_rowD [OF r] find_live_rows [OF r]
      by (intro drop_live_unique [OF shelf_okD(1) [OF ok], of "row_file r"]) auto
    finally show ?thesis .
  qed
  have keep: "f_Alias g \<noteq> a" if "g \<in> set (rows_of (remove_entry E p a w))" for g
    using that by (auto simp: rows same_alias_def)
  have fol: "b \<in> f_Alias ` set (rows_of (remove_entry E p a w))"
    if b: "plain_name b" "b \<noteq> a" "folder_of p w b \<noteq> None" for b
  proof -
    from shelf_okD(5) [OF ok b(1,3)] obtain g where g: "g \<in> set (rows_of w)" "f_Alias g = b" by auto
    have "\<not> same_alias (collate E) a g"
      using shelf_of_variant [OF ok r a(2), of b] b g(2) by (auto simp: same_alias_def)
    with g show ?thesis by (auto simp: rows)
  qed
  show ?thesis
    unfolding shelf_ok_def
  proof (intro conjI ballI allI impI)
    show "unique_aliases (collate E) (rows_of (remove_entry E p a w))"
      "counters_ok (rows_of (remove_entry E p a w))"
      using shelf_okD(1,2) [OF ok]
      by (auto simp: rows unique_aliases_def distinct_map_filterI counters_ok_def list_all_iff)
  next
    fix f assume f: "f \<in> set (rows_of (remove_entry E p a w))"
    then have "f \<in> set (rows_of w)" by (simp add: rows)
    from shelf_okD(3,4) [OF ok this] keep [OF f]
    show "plain_name (f_Alias f)"
      "\<exists>n b rest. folder_of p (remove_entry E p a w) (f_Alias f) = Some ((n, b) # rest)"
      by (simp_all add: remove_entry_folder [OF a(1)])
  next
    fix b assume "plain_name b" "folder_of p (remove_entry E p a w) b \<noteq> None"
    then show "b \<in> f_Alias ` set (rows_of (remove_entry E p a w))"
      using fol by (simp add: remove_entry_folder [OF a(1)] split: if_splits)
  qed
qed

lemma shelf_of_open [simp]: "shelf_of E p (w\<lparr>w_open := fds\<rparr>) = shelf_of E p w"
  by (rule ext) (simp add: shelf_of_def folder_of_def)

lemma shelf_ok_open [simp]:
  "shelf_ok E p (w\<lparr>w_open := fds\<rparr>) = shelf_ok E p w" "calm (w\<lparr>w_open := fds\<rparr>) = calm w"
  by (simp_all add: shelf_ok_def folder_of_def rows_of_def calm_def)

subsection \<open>The service implements the specification\<close>

definition answer :: "download_result result \<Rightarrow> (string \<times> string) option" where
  "answer r = (case r of Inl e \<Rightarrow> None | Inr d \<Rightarrow> Some (dr_Name d, dr_File d))"

lemma checkPassword_None:
  "checkPassword B f pwd = None \<longleftrightarrow>
   f_PasswordHash f = [] \<or> pwd \<noteq> [] \<and> bcrypt_Compare B (f_PasswordHash f) pwd"
  by (auto simp: checkPassword_def)

lemma filter_set_rows:
  assumes "\<And>r. r \<in> set rs \<Longrightarrow> same_alias (collate E) a (row_file r) \<Longrightarrow> live_row E t a r"
  shows "filter (\<lambda>r. \<not> live_row E t a r) (set_rows E a n rs) = filter (\<lambda>r. \<not> live_row E t a r) rs"
  using assms by (induction rs) (auto simp: set_rows_def live_row_def)

text \<open>When the row answers but the folder is missing, or the password is wrong, nothing happens.\<close>

lemma calm_download_refused:
  assumes "calm w" "find (live_row E (w_clock w) a) (w_table w) = Some r"
    and "checkPassword B (row_file r) pwd \<noteq> None \<or> folder_of p w a = None"
  shows "\<exists>e. Service_DownloadFile (app_service E p cfg B) \<lparr>df_Alias = a, df_Password = pwd\<rparr> w = (Inl e, w)"
proof (cases "checkPassword B (row_file r) pwd")
  case (Some x)
  with assms show ?thesis by (simp add: Service_DownloadFile_def calm_rules calm_def Let_def)
next
  case None
  with assms(3) have "folder_of p w a = None" by simp
  with assms(1) have "st_Download (NewFileStorage p) a w = (Inl (Sentinel ErrFileNotFound), w)"
    by (simp add: NewFileStorage_def FileStorage_Download_def folder_of_def os_ReadDir_def next_tick_calm
        calm_def Let_def)
  with None assms show ?thesis by (simp add: Service_DownloadFile_def calm_rules calm_def Let_def)
qed

lemma download_implements:
  assumes w: "calm w" and ok: "shelf_ok E p w" and a: "plain_name (df_Alias c)"
    and s: "Service_DownloadFile (app_service E p cfg B) c w = (r, w')"
  shows "shelf_download B (df_Alias c) (df_Password c) (shelf_of E p w) = (answer r, shelf_of E p w') \<and>
    shelf_ok E p w' \<and> calm w' \<and> w_clock w' = w_clock w"
proof -
  let ?a = "df_Alias c" and ?pwd = "df_Password c"
  have c: "c = \<lparr>df_Alias = ?a, df_Password = ?pwd\<rparr>" by simp
  show ?thesis
  proof (cases "find (live_row E (w_clock w) ?a) (w_table w)")
    case None
    with calm_download_missing [OF w, of E c p cfg B] s have "r = Inl (Sentinel ErrFileNotFound)" "w' = w" by auto
    with None w ok show ?thesis by (simp add: shelf_download_def shelf_of_def answer_def)
  next
    case (Some x)
    let ?f = "row_file x"
    note f = find_live_rows [OF Some]
    show ?thesis
    proof (cases "folder_of p w ?a = None \<or> checkPassword B ?f ?pwd \<noteq> None")
      case True
      with calm_download_refused [OF w Some] s c have "(\<exists>e. r = Inl e) \<and> w' = w" by (metis prod.inject)
      moreover have "shelf_download B ?a ?pwd (shelf_of E p w) = (None, shelf_of E p w)"
        using True Some checkPassword_None [of B ?f ?pwd]
        by (auto simp: shelf_download_def shelf_of_def split: option.split list.split)
      ultimately show ?thesis using w ok by (auto simp: answer_def)
    next
      case False
      then have own: "f_Alias ?f = ?a" using shelf_own [OF ok a] f by blast
      with shelf_okD(4) [OF ok] f obtain n b rest where d: "folder_of p w ?a = Some ((n, b) # rest)" by metis
      let ?k = "f_DownloadsLeft ?f"
      have k: "1 \<le> ?k" "?k < 2 ^ 15" using counter_range [OF shelf_okD(2) [OF ok]] f by auto
      let ?w1 = "w\<lparr>w_table := set_rows E ?a (?k - 1) (w_table w)\<rparr>"
      have r: "r = Inr \<lparr>dr_File = b, dr_Name = n, dr_Size = int (length b), dr_fd = fresh (w_open w)\<rparr>"
        and w': "w' = (downloaded E p ?a (?k - 1) w)\<lparr>w_open := fresh (w_open w) # w_open w\<rparr>"
        using calm_download [OF w Some _ d refl k, of B ?pwd cfg] False s c by auto
      have e: "shelf_of E p w ?a = Some \<lparr>en_Name = n, en_Content = b, en_Left = ?k,
          en_Hash = f_PasswordHash ?f, en_Owner = f_UserID ?f, en_Until = f_ExpiresAt ?f\<rparr>"
        using Some d a by (simp add: shelf_of_def)
      have spec: "shelf_download B ?a ?pwd (shelf_of E p w) =
          (Some (n, b), if ?k = 1 then (shelf_of E p w)(?a := None)
             else (shelf_of E p w)(?a := map_option (\<lambda>e. e\<lparr>en_Left := ?k - 1\<rparr>) (shelf_of E p w ?a)))"
        using e False checkPassword_None [of B ?f ?pwd] by (auto simp: shelf_download_def)
      show ?thesis
      proof (cases "?k = 1")
        case True
        have "filter (\<lambda>r. \<not> live_row E (w_clock w) ?a r) (set_rows E ?a 0 (w_table w)) =
            filter (\<lambda>r. \<not> live_row E (w_clock w) ?a r) (w_table w)"
        proof (rule filter_set_rows)
          fix y assume y: "y \<in> set (w_table w)" "same_alias (collate E) ?a (row_file y)"
          then have "row_file y \<in> set (rows_of w)" by (simp add: rows_of_def)
          with unique_same [OF shelf_okD(1) [OF ok], of "row_file y" ?f ?a] f y(2) have "row_file y = ?f" by blast
          with live_rowD [OF Some] show "live_row E (w_clock w) ?a y" by (simp add: live_row_def)
        qed
        then have "downloaded E p ?a (?k - 1) w = remove_entry E p ?a w"
          using True by (simp add: downloaded_def remove_entry_def)
        with True r w' spec w shelf_of_removed [OF ok Some a own] shelf_ok_removed [OF ok Some a own]
        show ?thesis by (simp add: answer_def remove_entry_def calm_def)
      next
        case k1: False
        then have "downloaded E p ?a (?k - 1) w = ?w1" using k by (simp add: downloaded_def)
        with k1 k r w' spec w shelf_of_counted [OF ok Some a own, of "?k - 1"]
          shelf_ok_counted [OF ok, of "?k - 1" ?a]
        show ?thesis by (simp add: answer_def calm_def)
      qed
    qed
  qed
qed

subsection \<open>Uploads\<close>

definition shelf_entry :: "db_env \<Rightarrow> instant \<Rightarrow> upload_file \<Rightarrow> string \<Rightarrow> entry" where
  "shelf_entry E t c h = \<lparr>en_Name = Base (uf_Filename c), en_Content = uf_File c, en_Left = uf_MaxDownloads c,
     en_Hash = h, en_Owner = ui_UserID (uf_User c), en_Until = ts_col E (t + uf_TTL c)\<rparr>"

lemma Gen_plain:
  assumes "Gen rnd len = Some (Inr a)" "0 < len"
  shows "plain_name a"
proof -
  have "set a \<subseteq> set letterBytes" "a \<noteq> []" using Gen_letters [OF assms(1)] assms(2) by auto
  moreover have "CHR ''.'' \<notin> set letterBytes" "CHR ''/'' \<notin> set letterBytes" by (simp_all add: letterBytes_def)
  ultimately show ?thesis unfolding plain_name_def by (metis list.set_intros(1) subset_iff)
qed

text \<open>On a shelf that is in order a free alias has no folder.\<close>

lemma shelf_free_alias:
  assumes ok: "shelf_ok E p w" and a: "plain_name a"
    and new: "\<forall>f \<in> set (rows_of w). \<not> same_alias (collate E) a f"
  shows "free_alias E p a w"
proof -
  have "folder_of p w a = None"
  proof (rule ccontr)
    assume "folder_of p w a \<noteq> None"
    from shelf_okD(5) [OF ok a this] new show False by (auto simp: same_alias_def)
  qed
  with new show ?thesis by (auto simp: free_alias_def rows_of_def)
qed

lemma uploaded_folder:
  assumes "plain_name a" "plain_name b"
  shows "folder_of p (uploaded E p c a h w) b =
    (if b = a then Some [(Base (uf_Filename c), uf_File c)] else folder_of p w b)"
  using assms by (simp add: folder_of_def uploaded_def Join_inj)

lemma find_snoc: "find P (xs @ [y]) = (case find P xs of Some x \<Rightarrow> Some x | None \<Rightarrow> if P y then Some y else None)"
  by (induction xs) auto

lemma uploaded_simps [simp]:
  "w_table (uploaded E p c a h w) = w_table w @ [new_row E c a h w]" "w_clock (uploaded E p c a h w) = w_clock w"
  "calm (uploaded E p c a h w) = calm w"
  "rows_of (uploaded E p c a h w) = rows_of w @ [row_file (new_row E c a h w)]"
  by (simp_all add: uploaded_def calm_def rows_of_def)

lemma shelf_of_uploaded:
  assumes ok: "shelf_ok E p w" and a: "plain_name a"
    and new: "\<forall>f \<in> set (rows_of w). \<not> same_alias (collate E) a f"
  shows "shelf_of E p (uploaded E p c a h w) =
    (if ts_col E (w_clock w + uf_TTL c) > sql_now E (w_clock w)
     then (shelf_of E p w)(a \<mapsto> shelf_entry E (w_clock w) c h) else shelf_of E p w)"
proof
  fix b
  let ?w = "uploaded E p c a h w" and ?r = "new_row E c a h w"
  have live: "live_row E (w_clock w) b ?r \<longleftrightarrow>
      collate E b = collate E a \<and> ts_col E (w_clock w + uf_TTL c) > sql_now E (w_clock w)"
    by (auto simp: live_row_def live_as_def same_alias_def new_row_def)
  have no: "find (live_row E (w_clock w) b) (w_table w) = None" if "collate E b = collate E a"
    using that new find_live_rows [of E w b] by (cases "find (live_row E (w_clock w) b) (w_table w)")
      (auto simp: same_alias_def)
  consider "\<not> plain_name b" | "plain_name b" "b = a" | "plain_name b" "b \<noteq> a" "collate E b = collate E a"
    | "plain_name b" "collate E b \<noteq> collate E a" by blast
  then show "shelf_of E p ?w b = (if ts_col E (w_clock w + uf_TTL c) > sql_now E (w_clock w)
     then (shelf_of E p w)(a \<mapsto> shelf_entry E (w_clock w) c h) else shelf_of E p w) b"
  proof cases
    case 2
    with no a live show ?thesis
      by (auto simp: shelf_of_def find_snoc uploaded_folder shelf_entry_def new_row_def)
  next
    case 3
    have "folder_of p w b = None"
    proof (rule ccontr)
      assume "folder_of p w b \<noteq> None"
      from shelf_okD(5) [OF ok 3(1) this] new 3(3) show False by (auto simp: same_alias_def)
    qed
    with 3 a show ?thesis by (auto simp: shelf_of_def uploaded_folder find_snoc split: option.split)
  next
    case 4
    with live a show ?thesis by (auto simp: shelf_of_def uploaded_folder find_snoc split: option.split)
  qed (use a in \<open>auto simp: shelf_of_def\<close>)
qed

lemma shelf_ok_uploaded:
  assumes ok: "shelf_ok E p w" and a: "plain_name a"
    and new: "\<forall>f \<in> set (rows_of w). \<not> same_alias (collate E) a f"
    and k: "1 \<le> uf_MaxDownloads c" "uf_MaxDownloads c < 2 ^ 15"
  shows "shelf_ok E p (uploaded E p c a h w)"
  unfolding shelf_ok_def
proof (intro conjI ballI allI impI)
  have "collate E a \<notin> (collate E \<circ> f_Alias) ` set (rows_of w)" using new by (auto simp: same_alias_def)
  then show "unique_aliases (collate E) (rows_of (uploaded E p c a h w))"
    using shelf_okD(1) [OF ok] by (simp add: unique_aliases_def new_row_def)
  show "counters_ok (rows_of (uploaded E p c a h w))"
    using shelf_okD(2) [OF ok] k by (simp add: counters_ok_def new_row_def)
next
  fix f assume "f \<in> set (rows_of (uploaded E p c a h w))"
  then consider "f \<in> set (rows_of w)" | "f_Alias f = a" by (auto simp: new_row_def)
  then show "plain_name (f_Alias f)"
    "\<exists>n b rest. folder_of p (uploaded E p c a h w) (f_Alias f) = Some ((n, b) # rest)"
    using shelf_okD(3,4) [OF ok, of f] a by (cases; simp add: uploaded_folder)+
next
  fix b assume "plain_name b" "folder_of p (uploaded E p c a h w) b \<noteq> None"
  with shelf_okD(5) [OF ok, of b] a show "b \<in> f_Alias ` set (rows_of (uploaded E p c a h w))"
    by (auto simp: uploaded_folder new_row_def split: if_splits)
qed

subsection \<open>Deletions\<close>

lemma calm_service_delete:
  assumes w: "calm w" and r: "find (live_row E (w_clock w) a) (w_table w) = Some r"
    and acc: "checkAccess (row_file r) (ui_UserID u) (ui_Roles u) = None"
  shows "Service_DeleteFile (app_service E p cfg B) \<lparr>del_Alias = a, del_User = u\<rparr> w = (None, remove_entry E p a w)"
  using assms
  by (simp add: Service_DeleteFile_def delete_in_tx_def calm_rules calm_def remove_entry_def Let_def)

lemma calm_delete_denied:
  assumes "calm w" "find (live_row E (w_clock w) a) (w_table w) = None \<or>
    (\<exists>r. find (live_row E (w_clock w) a) (w_table w) = Some r \<and>
       checkAccess (row_file r) (ui_UserID u) (ui_Roles u) \<noteq> None)"
  shows "\<exists>e. Service_DeleteFile (app_service E p cfg B) \<lparr>del_Alias = a, del_User = u\<rparr> w = (Some e, w)"
  using assms by (auto simp: Service_DeleteFile_def calm_rules calm_def Let_def)

text \<open>
  The owner check of a deletion is made on the row that compares equal to the alias of the request;
  it is the row of the entry where no stored alias compares equal without being the same.
\<close>

lemma delete_implements:
  assumes w: "calm w" and ok: "shelf_ok E p w" and a: "plain_name (del_Alias c)"
    and exact: "\<forall>f \<in> set (rows_of w). same_alias (collate E) (del_Alias c) f \<longrightarrow> f_Alias f = del_Alias c"
    and s: "Service_DeleteFile (app_service E p cfg B) c w = (r, w')"
  shows "shelf_delete (del_User c) (del_Alias c) (shelf_of E p w) = (r = None, shelf_of E p w') \<and>
    shelf_ok E p w' \<and> calm w' \<and> w_clock w' = w_clock w"
proof -
  let ?a = "del_Alias c" and ?u = "del_User c"
  have c: "c = \<lparr>del_Alias = ?a, del_User = ?u\<rparr>" by simp
  show ?thesis
  proof (cases "find (live_row E (w_clock w) ?a) (w_table w)")
    case None
    with calm_delete_denied [OF w, of E ?a ?u p cfg B] s c have "r \<noteq> None" "w' = w" by auto
    with None w ok show ?thesis by (simp add: shelf_delete_def shelf_of_def)
  next
    case (Some x)
    let ?f = "row_file x"
    note f = find_live_rows [OF Some]
    then have own: "f_Alias ?f = ?a" using exact by blast
    with shelf_okD(4) [OF ok] f obtain n b rest where d: "folder_of p w ?a = Some ((n, b) # rest)" by metis
    have e: "shelf_of E p w ?a = Some \<lparr>en_Name = n, en_Content = b, en_Left = f_DownloadsLeft ?f,
        en_Hash = f_PasswordHash ?f, en_Owner = f_UserID ?f, en_Until = f_ExpiresAt ?f\<rparr>"
      using Some d a by (simp add: shelf_of_def)
    show ?thesis
    proof (cases "checkAccess ?f (ui_UserID ?u) (ui_Roles ?u)")
      case None
      then have acc: "RoleAdmin \<in> set (ui_Roles ?u) \<or> f_UserID ?f = ui_UserID ?u"
        by (auto simp: checkAccess_def checkOwner_def split: if_splits)
      from calm_service_delete [OF w Some None] s c have "r = None" "w' = remove_entry E p ?a w" by auto
      with e acc w shelf_of_removed [OF ok Some a own] shelf_ok_removed [OF ok Some a own] show ?thesis
        by (auto simp: shelf_delete_def remove_entry_def calm_def)
    next
      case y: (Some y)
      then have acc: "RoleAdmin \<notin> set (ui_Roles ?u)" "f_UserID ?f \<noteq> ui_UserID ?u"
        by (auto simp: checkAccess_def checkOwner_def split: if_splits)
      from calm_delete_denied [OF w, of E ?a ?u p cfg B] Some y s c have "r \<noteq> None" "w' = w" by auto
      with e acc w ok show ?thesis by (auto simp: shelf_delete_def)
    qed
  qed
qed

end
