(* ===== verification/Shelf_Runs.thy ===== *)
theory Shelf_Runs
  imports Shelf
begin

text \<open>
  The specification of the shelf for whole runs of the program, the worker and the passage of time
  included, when no call fails: what every caller is answered is a function of the shelf, and the
  worker does nothing that a caller could see.
\<close>

subsection \<open>The specification\<close>

text \<open>What is left of a shelf at an instant.\<close>

definition shelf_at :: "db_env \<Rightarrow> instant \<Rightarrow> shelf \<Rightarrow> shelf" where
  "shelf_at E t sh a =
     (case sh a of None \<Rightarrow> None | Some e \<Rightarrow> if en_Until e > sql_now E t then Some e else None)"

text \<open>
  An upload that is answered puts a new entry under an alias that was free; a refused one, a query,
  a tick of the worker and a closed file change nothing; as time passes entries fall off.
\<close>

definition shelf_step :: "system \<Rightarrow> instant \<Rightarrow> sys_event \<Rightarrow> sys_result \<Rightarrow> shelf \<Rightarrow> shelf \<Rightarrow> bool" where
  "shelf_step S t ev r sh sh' \<longleftrightarrow>
     (case ev of
        EvUpload rnd salt c \<Rightarrow>
          (case r of
             ReUpload (Inr a) \<Rightarrow>
               (\<exists>h. hash_password (sys_bcrypt S) salt (uf_Password c) = Inr h \<and> sh a = None \<and>
                  sh' = shelf_at (sys_env S) t (sh(a \<mapsto> shelf_entry (sys_env S) t c h)))
           | _ \<Rightarrow> sh' = sh)
      | EvDownload c \<Rightarrow>
          (\<exists>x. r = ReDownload x \<and>
             shelf_download (sys_bcrypt S) (df_Alias c) (df_Password c) sh = (answer x, sh'))
      | EvDelete c \<Rightarrow>
          (\<exists>x. r = ReDelete x \<and> shelf_delete (del_User c) (del_Alias c) sh = (x = None, sh'))
      | EvEnv tape dt \<Rightarrow> sh' = shelf_at (sys_env S) (t + int dt) sh
      | _ \<Rightarrow> sh' = sh)"

fun time_of :: "sys_event \<Rightarrow> nat" where
  "time_of (EvEnv tape dt) = dt"
| "time_of ev = 0"

inductive shelf_run ::
  "system \<Rightarrow> instant \<Rightarrow> shelf \<Rightarrow> (sys_event \<times> sys_result) list \<Rightarrow> shelf \<Rightarrow> bool" for S where
  nil: "shelf_run S t sh [] sh"
| cons: "shelf_step S t ev r sh sh1 \<Longrightarrow> shelf_run S (t + int (time_of ev)) sh1 tr sh' \<Longrightarrow>
    shelf_run S t sh ((ev, r) # tr) sh'"

inductive_simps shelf_run_Nil [simp]: "shelf_run S t sh [] sh'"
inductive_simps shelf_run_Cons: "shelf_run S t sh (x # tr) sh'"

subsection \<open>Runs without failures\<close>

text \<open>
  The environment lets every call succeed, the aliases asked for are single path segments, and the
  uploads have a file name a folder can hold and an int16 number of downloads.
\<close>

definition calm_event :: "sys_event \<Rightarrow> bool" where
  "calm_event ev \<longleftrightarrow>
     (case ev of
        EvUpload rnd salt c \<Rightarrow>
          valid_name (Base (uf_Filename c)) \<and> 1 \<le> uf_MaxDownloads c \<and> uf_MaxDownloads c < 2 ^ 15
      | EvDownload c \<Rightarrow> plain_name (df_Alias c)
      | EvDelete c \<Rightarrow> plain_name (del_Alias c)
      | EvEnv tape dt \<Rightarrow> tape = []
      | _ \<Rightarrow> True)"

text \<open>The aliases a step is about.\<close>

fun aliases_in :: "sys_event \<times> sys_result \<Rightarrow> string set" where
  "aliases_in (EvUpload rnd salt c, ReUpload (Inr a)) = {a}"
| "aliases_in (EvDownload c, r) = {df_Alias c}"
| "aliases_in (EvDelete c, r) = {del_Alias c}"
| "aliases_in (ev, r) = {}"

subsection \<open>The worker\<close>

lemma fold_remove:
  "plain_name b \<Longrightarrow> \<forall>a \<in> set as. plain_name a \<Longrightarrow>
   fold (\<lambda>a. remove_under (Join p a)) as dirs (Join p b) = (if b \<in> set as then None else dirs (Join p b))"
proof (induction as arbitrary: dirs)
  case Nil
  then show ?case by simp
next
  case (Cons a as)
  then show ?case using not_under_plain [of a b p] by (auto simp: remove_under_def)
qed

lemma batch_rows: "r \<in> set (batch E w) \<Longrightarrow> r \<in> set (w_table w) \<and> expired E (w_clock w) r"
  using batch_props(1) [of E w] by auto

lemma swept_folder:
  assumes ok: "shelf_ok E p w" and b: "plain_name b"
  shows "folder_of p (swept E p w) b =
    (if b \<in> f_Alias ` row_file ` set (batch E w) then None else folder_of p w b)"
proof -
  have "\<forall>a \<in> set (map (f_Alias \<circ> row_file) (batch E w)). plain_name a"
    using shelf_okD(3) [OF ok] batch_rows by (auto simp: rows_of_def)
  from fold_remove [OF b this] show ?thesis by (auto simp: swept_def folder_of_def)
qed

lemma find_swept:
  assumes "unique_aliases (collate E) (rows_of w)"
  shows "find (live_row E (w_clock w) a) (w_table (swept E p w)) = find (live_row E (w_clock w) a) (w_table w)"
proof -
  have "find (live_row E t a) (filter (\<lambda>r. r \<notin> B) rs) = find (live_row E t a) rs"
    if "\<forall>r \<in> B. expired E t r" for B t rs
    using that by (induction rs) (auto simp: live_row_def live_as_def expired_def)
  with swept_table [OF assms, of p] batch_rows show ?thesis by auto
qed

lemma shelf_of_swept:
  assumes ok: "shelf_ok E p w"
  shows "shelf_of E p (swept E p w) = shelf_of E p w"
proof
  fix b
  note u = shelf_okD(1) [OF ok]
  show "shelf_of E p (swept E p w) b = shelf_of E p w b"
  proof (cases "plain_name b \<and> find (live_row E (w_clock w) b) (w_table w) \<noteq> None")
    case False
    then show ?thesis by (auto simp: shelf_of_def find_swept [OF u])
  next
    case True
    then obtain r where b: "plain_name b" and r: "find (live_row E (w_clock w) b) (w_table w) = Some r" by auto
    have "b \<notin> f_Alias ` row_file ` set (batch E w)"
    proof
      assume "b \<in> f_Alias ` row_file ` set (batch E w)"
      then obtain x where x: "x \<in> set (batch E w)" "f_Alias (row_file x) = b" by auto
      then have "row_file x \<in> set (rows_of w)" "same_alias (collate E) b (row_file x)"
        using batch_rows by (auto simp: rows_of_def same_alias_def)
      with unique_same [OF u] find_live_rows [OF r] have "row_file x = row_file r" by blast
      with live_rowD [OF r] batch_rows [OF x(1)] show False by (simp add: live_as_def expired_def)
    qed
    then show ?thesis by (simp add: shelf_of_def find_swept [OF u] swept_folder [OF ok b])
  qed
qed

lemma shelf_ok_swept:
  assumes ok: "shelf_ok E p w"
  shows "shelf_ok E p (swept E p w)"
proof -
  note u = shelf_okD(1) [OF ok]
  have sub: "set (rows_of (swept E p w)) \<subseteq> set (rows_of w)" by (auto simp: swept_def rows_of_def)
  have keep: "f_Alias f \<notin> f_Alias ` row_file ` set (batch E w)" if f: "f \<in> set (rows_of (swept E p w))" for f
  proof
    assume "f_Alias f \<in> f_Alias ` row_file ` set (batch E w)"
    then obtain x where "x \<in> set (batch E w)" "f_Alias (row_file x) = f_Alias f" by auto
    with f show False by (fastforce simp: swept_def rows_of_def same_alias_def)
  qed
  show ?thesis
    unfolding shelf_ok_def
  proof (intro conjI ballI allI impI)
    show "unique_aliases (collate E) (rows_of (swept E p w))" using swept_unique [OF u] .
    show "counters_ok (rows_of (swept E p w))" using shelf_okD(2) [OF ok] sub by (auto simp: counters_ok_def list_all_iff)
  next
    fix f assume f: "f \<in> set (rows_of (swept E p w))"
    with sub have "f \<in> set (rows_of w)" by auto
    from shelf_okD(3,4) [OF ok this] keep [OF f]
    show "plain_name (f_Alias f)" "\<exists>n b rest. folder_of p (swept E p w) (f_Alias f) = Some ((n, b) # rest)"
      by (simp_all add: swept_folder [OF ok])
  next
    fix b assume b: "plain_name b" "folder_of p (swept E p w) b \<noteq> None"
    then have b': "b \<notin> f_Alias ` row_file ` set (batch E w)" "folder_of p w b \<noteq> None"
      by (simp_all add: swept_folder [OF ok] split: if_splits)
    from shelf_okD(5) [OF ok b(1) b'(2)] obtain r where r: "r \<in> set (w_table w)" "f_Alias (row_file r) = b"
      by (auto simp: rows_of_def)
    with b'(1) have "r \<notin> set (batch E w)" by auto
    with r swept_table [OF u, of p] show "b \<in> f_Alias ` set (rows_of (swept E p w))"
      by (auto simp: rows_of_def)
  qed
qed

subsection \<open>Uploads, answered or refused\<close>

lemma calm_stat_any:
  assumes "calm w"
  obtains s where "repo_GetFilesStatByUserID (NewFileRepo E) u w = (Inr s, w)"
      "sql_stat_by_user u (w_clock w) (w_table w) = Inr (fst_Count s, fst_Size s)" "fst_UserID s = u"
  | e where "repo_GetFilesStatByUserID (NewFileRepo E) u w = (Inl e, w)"
proof (cases "sql_stat_by_user u (w_clock w) (w_table w)")
  case (Inl e)
  with assms have "\<exists>err. repo_GetFilesStatByUserID (NewFileRepo E) u w = (Inl err, w)"
    by (simp add: NewFileRepo_def FileRepo_GetFilesStatByUserID_def calm_query calm_def Let_def)
  with that(2) show thesis by blast
next
  case (Inr nz)
  obtain n z where nz: "nz = (n, z)" by (cases nz)
  with assms Inr calm_stat have "repo_GetFilesStatByUserID (NewFileRepo E) u w =
      (Inr \<lparr>fst_UserID = u, fst_Count = n, fst_Size = z\<rparr>, w)" by (simp add: calm_def)
  from that(1) [OF this] Inr nz show thesis by simp
qed

lemma calm_alias_taken:
  assumes w: "calm w" and h: "hash_password B salt (uf_Password c) = Inr h"
    and t: "\<exists>r \<in> set (w_table w). same_alias (collate E) a (row_file r)" and f: "fits_columns E c a h w"
  shows "\<exists>e. upload_with_alias (app_service E p cfg B) salt c a w = (Inl e, w)"
  using w h t f [folded column_error_fits]
  by (simp add: upload_with_alias_def upload_in_tx_def abandon_tx_def calm_begin calm_def NewFileRepo_def
      FileRepo_BeginTx_def FileRepo_AddFileTx_def Tx_Rollback_def next_tick_calm calm_exec sql_insert_def
      Let_def add_command_def)

lemma upload_implements:
  assumes w: "calm w" and ok: "shelf_ok E p w" and len: "0 < AliasLength cfg"
    and name: "valid_name (Base (uf_Filename c))" and k: "1 \<le> uf_MaxDownloads c" "uf_MaxDownloads c < 2 ^ 15"
    and s: "Service_UploadFile rnd salt (app_service E p cfg B) c w = Returns (r, w')"
  shows "(\<exists>e. r = Inl e) \<and> w' = w \<or>
    (\<exists>a h. r = Inr a \<and> hash_password B salt (uf_Password c) = Inr h \<and> shelf_of E p w a = None \<and>
       w' = uploaded E p c a h w \<and> plain_name a \<and> (\<forall>f \<in> set (rows_of w). \<not> same_alias (collate E) a f))"
proof (rule calm_stat_any [OF w, of E "ui_UserID (uf_User c)"])
  fix e assume "repo_GetFilesStatByUserID (NewFileRepo E) (ui_UserID (uf_User c)) w = (Inl e, w)"
  with s show ?thesis by (auto simp: Service_UploadFile_def)
next
  fix st assume st: "repo_GetFilesStatByUserID (NewFileRepo E) (ui_UserID (uf_User c)) w = (Inr st, w)"
    "sql_stat_by_user (ui_UserID (uf_User c)) (w_clock w) (w_table w) = Inr (fst_Count st, fst_Size st)"
    "fst_UserID st = ui_UserID (uf_User c)"
  show ?thesis
  proof (cases "checkUploadQuote cfg st (uf_Filesize c) (ui_Roles (uf_User c))")
    case (Some e)
    with st s show ?thesis by (auto simp: Service_UploadFile_def)
  next
    case quota: None
    then obtain a where a: "Gen rnd (AliasLength cfg) = Some (Inr a)"
      and up: "upload_with_alias (app_service E p cfg B) salt c a w = (r, w')"
      using st(1) s by (auto simp: Service_UploadFile_def split: option.splits sum.splits)
    note pa = Gen_plain [OF a len]
    show ?thesis
    proof (cases "hash_password B salt (uf_Password c)")
      case (Inl e)
      with up show ?thesis by (auto simp: upload_with_alias_def)
    next
      case h: (Inr h)
      consider "\<not> fits_columns E c a h w" | "fits_columns E c a h w" "\<exists>r \<in> set (w_table w). same_alias (collate E) a (row_file r)"
        | "fits_columns E c a h w" "\<not> (\<exists>r \<in> set (w_table w). same_alias (collate E) a (row_file r))" by blast
      then show ?thesis
      proof cases
        case 1
        with calm_not_fitting [OF w h 1, of p cfg] up show ?thesis by auto
      next
        case 2
        with calm_alias_taken [OF w h 2(2,1), of p cfg] up show ?thesis by auto
      next
        case 3
        then have new: "\<forall>f \<in> set (rows_of w). \<not> same_alias (collate E) a f" by (auto simp: rows_of_def)
        have "fst_Count st = n \<Longrightarrow> fst_Size st = z \<Longrightarrow> st = \<lparr>fst_UserID = ui_UserID (uf_User c), fst_Count = n, fst_Size = z\<rparr>" for n z
          using st(3) by simp
        with calm_upload [OF w st(2) _ a h shelf_free_alias [OF ok pa new] name 3(1)] quota s
        have "r = Inr a" "w' = uploaded E p c a h w" by auto
        moreover have "shelf_of E p w a = None"
          using new find_live_rows [of E w a] by (auto simp: shelf_of_def split: option.split)
        ultimately show ?thesis using h pa new by blast
      qed
    qed
  qed
qed

subsection \<open>Queries, closing, the passage of time\<close>

lemma calm_get_world: "w_tape w = [] \<Longrightarrow> snd (FileRepo_GetFileByAlias E a w) = w"
  by (simp add: FileRepo_GetFileByAlias_def calm_query Let_def split: sum.split)

lemma calm_list_world: "w_tape w = [] \<Longrightarrow> snd (FileRepo_GetFilesByUserID E c w) = w"
  by (simp add: FileRepo_GetFilesByUserID_def calm_query calm_check calm_scan_rows Let_def split: sum.split)

lemma calm_reads:
  assumes w: "calm w"
  shows "snd (Service_GetFileByAlias (app_service E p cfg B) g w) = w"
    "snd (Service_GetAllFiles (app_service E p cfg B) l w) = w"
    "snd (Service_GetFilesStat (app_service E p cfg B) s w) = w"
proof -
  have t: "w_tape w = []" using w by (simp add: calm_def)
  show "snd (Service_GetFileByAlias (app_service E p cfg B) g w) = w"
    using calm_get_world [OF t, of E "gf_Alias g"]
    by (auto simp: Service_GetFileByAlias_def NewFileRepo_def Let_def split: prod.splits sum.splits option.splits)
  show "snd (Service_GetAllFiles (app_service E p cfg B) l w) = w"
    using calm_list_world [OF t, of E l]
    by (auto simp: Service_GetAllFiles_def NewFileRepo_def Let_def split: prod.splits sum.splits)
  show "snd (Service_GetFilesStat (app_service E p cfg B) s w) = w"
    by (rule calm_stat_any [OF w, of E "ui_UserID (gs_User s)"])
      (simp_all add: Service_GetFilesStat_def Let_def)
qed

text \<open>An entry that is off the shelf stays off it, as the time of the database does not run backwards.\<close>

lemma find_later:
  assumes "sql_now E t \<le> sql_now E t'"
  shows "unique_aliases (collate E) (map row_file rs) \<Longrightarrow> find (live_row E t' b) rs =
    (case find (live_row E t b) rs of None \<Rightarrow> None
     | Some r \<Rightarrow> if f_ExpiresAt (row_file r) > sql_now E t' then Some r else None)"
proof (induction rs)
  case Nil
  then show ?case by simp
next
  case (Cons x xs)
  then have u: "unique_aliases (collate E) (map row_file xs)"
    and x: "\<forall>y \<in> set xs. collate E (f_Alias (row_file y)) \<noteq> collate E (f_Alias (row_file x))"
    by (auto simp: unique_aliases_def image_iff)
  show ?case
  proof (cases "live_row E t b x")
    case True
    with x have "find (live_row E t' b) xs = None"
      by (auto simp: find_None_iff live_row_def live_as_def same_alias_def)
    moreover have "live_row E t' b x \<longleftrightarrow> f_ExpiresAt (row_file x) > sql_now E t'"
      using True by (simp add: live_row_def live_as_def)
    ultimately show ?thesis using True by simp
  next
    case False
    with assms have "\<not> live_row E t' b x" by (auto simp: live_row_def live_as_def)
    with False Cons.IH [OF u] show ?thesis by simp
  qed
qed

lemma shelf_of_later:
  assumes ok: "shelf_ok E p w" and m: "mono (sql_now E)"
  shows "shelf_of E p (w\<lparr>w_tape := [], w_clock := w_clock w + int dt\<rparr>) =
    shelf_at E (w_clock w + int dt) (shelf_of E p w)"
proof
  fix b
  let ?t = "w_clock w + int dt"
  have "sql_now E (w_clock w) \<le> sql_now E ?t" using m by (simp add: mono_def)
  from find_later [OF this, of "w_table w" b] shelf_okD(1) [OF ok]
  show "shelf_of E p (w\<lparr>w_tape := [], w_clock := ?t\<rparr>) b = shelf_at E ?t (shelf_of E p w) b"
    by (auto simp: shelf_of_def shelf_at_def folder_of_def rows_of_def split: option.split list.split)
qed

subsection \<open>Runs\<close>

lemma table_step_aliases:
  assumes "table_step E ev r fs fs'" "\<And>rnd salt c. ev \<noteq> EvUpload rnd salt c"
  shows "f_Alias ` set fs' \<subseteq> f_Alias ` set fs"
proof (cases ev)
  case (EvDownload c)
  with assms(1) show ?thesis
    by (auto simp: table_step_def after_download_def set_downloads_def split: if_splits)
next
  case EvTick
  with assms(1) show ?thesis by (auto simp: table_step_def purged_def)
qed (use assms in \<open>auto simp: table_step_def\<close>)

lemma shelf_of_live: "shelf_of E p w a = Some e \<Longrightarrow> en_Until e > sql_now E (w_clock w)"
  using live_rowD [of E "w_clock w" a "w_table w"]
  by (auto simp: shelf_of_def live_as_def split: if_splits option.splits list.splits)

lemma shelf_at_now:
  "shelf_of E p w a = None \<Longrightarrow> shelf_at E (w_clock w) ((shelf_of E p w)(a \<mapsto> shelf_entry E (w_clock w) c h)) =
    (if ts_col E (w_clock w + uf_TTL c) > sql_now E (w_clock w)
     then (shelf_of E p w)(a \<mapsto> shelf_entry E (w_clock w) c h) else shelf_of E p w)"
  using shelf_of_live [of E p w]
  by (auto simp: shelf_at_def shelf_entry_def fun_eq_iff split: option.split)

lemma shelf_step_simulates:
  assumes s: "sys_step S w ev r w'" and w: "calm w" and ok: "shelf_ok (sys_env S) (sys_path S) w"
    and ev: "calm_event ev" and m: "mono (sql_now (sys_env S))" and len: "0 < AliasLength (sys_cfg S)"
    and A: "inj_on (collate (sys_env S)) A" "f_Alias ` set (rows_of w) \<subseteq> A" "aliases_in (ev, r) \<subseteq> A"
  shows "shelf_step S (w_clock w) ev r (shelf_of (sys_env S) (sys_path S) w) (shelf_of (sys_env S) (sys_path S) w') \<and>
    shelf_ok (sys_env S) (sys_path S) w' \<and> calm w' \<and> w_clock w' = w_clock w + int (time_of ev) \<and>
    f_Alias ` set (rows_of w') \<subseteq> A"
proof -
  let ?E = "sys_env S" and ?p = "sys_path S"
  have rows: "f_Alias ` set (rows_of w') \<subseteq> A" if "\<And>rnd salt c. ev \<noteq> EvUpload rnd salt c"
    using table_step_aliases [OF _ that] sys_step_table [OF s shelf_okD(1) [OF ok]] A(2) by blast
  show ?thesis
    using s
  proof (cases rule: sys_step.cases)
    case (upload rnd salt c x)
    from ev upload have c: "valid_name (Base (uf_Filename c))" "1 \<le> uf_MaxDownloads c" "uf_MaxDownloads c < 2 ^ 15"
      by (simp_all add: calm_event_def)
    from upload_implements [OF w ok len c upload(3) [unfolded sys_service_def]]
    consider e where "x = Inl e" "w' = w"
      | a h where "x = Inr a" "hash_password (sys_bcrypt S) salt (uf_Password c) = Inr h" "shelf_of ?E ?p w a = None"
        "w' = uploaded ?E ?p c a h w" "plain_name a" "\<forall>f \<in> set (rows_of w). \<not> same_alias (collate ?E) a f" by blast
    then show ?thesis
    proof cases
      case 1
      with upload w ok A show ?thesis by (simp add: shelf_step_def)
    next
      case 2
      have "shelf_of ?E ?p w' = shelf_at ?E (w_clock w) ((shelf_of ?E ?p w)(a \<mapsto> shelf_entry ?E (w_clock w) c h))"
        using shelf_of_uploaded [OF ok 2(5,6)] shelf_at_now 2(3,4) by simp
      with 2 upload w c A shelf_ok_uploaded [OF ok 2(5,6) c(2,3)] show ?thesis
        by (auto simp: shelf_step_def new_row_def)
    qed
  next
    case (download c x)
    with download_implements [OF w ok _ download(3) [unfolded sys_service_def]] ev rows show ?thesis
      by (simp add: shelf_step_def calm_event_def)
  next
    case (delete c x)
    have "\<forall>f \<in> set (rows_of w). same_alias (collate ?E) (del_Alias c) f \<longrightarrow> f_Alias f = del_Alias c"
      using A delete by (auto simp: same_alias_def dest: inj_onD)
    with delete_implements [OF w ok _ _ delete(3) [unfolded sys_service_def]] delete ev rows show ?thesis
      by (simp add: shelf_step_def calm_event_def)
  next
    case (get c x)
    with calm_reads(1) [OF w, of ?E ?p "sys_cfg S" "sys_bcrypt S" c] w ok A show ?thesis
      by (simp add: shelf_step_def sys_service_def)
  next
    case (list c x)
    with calm_reads(2) [OF w, of ?E ?p "sys_cfg S" "sys_bcrypt S" c] w ok A show ?thesis
      by (simp add: shelf_step_def sys_service_def)
  next
    case (stat c x)
    with calm_reads(3) [OF w, of ?E ?p "sys_cfg S" "sys_bcrypt S" c] w ok A show ?thesis
      by (simp add: shelf_step_def sys_service_def)
  next
    case (tick go)
    with calm_tick [OF w, of S] shelf_of_swept [OF ok] shelf_ok_swept [OF ok] w rows show ?thesis
      by (simp add: shelf_step_def)
  next
    case (close fd x)
    with calm_close [of ?p fd w] w ok rows show ?thesis
      by (simp add: shelf_step_def calm_def)
  next
    case (env dt tape)
    with ev have "tape = []" by (simp add: calm_event_def)
    with env shelf_of_later [OF ok m, of dt] w ok rows show ?thesis
      by (simp add: shelf_step_def calm_def shelf_ok_def rows_of_def folder_of_def)
  qed
qed

lemma shelf_run_simulates:
  assumes "sys_run S w tr w'" "calm w" "shelf_ok (sys_env S) (sys_path S) w"
    and "list_all (calm_event \<circ> fst) tr" "mono (sql_now (sys_env S))" "0 < AliasLength (sys_cfg S)"
    and "inj_on (collate (sys_env S)) A" "f_Alias ` set (rows_of w) \<subseteq> A" "\<Union> (aliases_in ` set tr) \<subseteq> A"
  shows "shelf_run S (w_clock w) (shelf_of (sys_env S) (sys_path S) w) tr (shelf_of (sys_env S) (sys_path S) w') \<and>
    shelf_ok (sys_env S) (sys_path S) w' \<and> calm w'"
  using assms
proof (induction rule: sys_run.induct)
  case (nil w)
  then show ?case by simp
next
  case (cons w ev r w1 tr w')
  from cons.prems have ev: "calm_event ev" and al: "aliases_in (ev, r) \<subseteq> A" by simp_all
  note st = shelf_step_simulates [OF cons.hyps(1) cons.prems(1,2) ev cons.prems(4,5,6,7) al]
  from st cons.IH cons.prems show ?case by (simp add: shelf_run_Cons) blast
qed

end
