(* ===== verification/Concurrent_Downloads.thy ===== *)
theory Concurrent_Downloads
  imports Calm_World
begin

text \<open>
  Two overlapping downloads of one alias.  \<open>DecrementDownloadsByAliasTx\<close> reads the counter with a
  plain \<open>SELECT\<close> and writes the decremented value with an \<open>UPDATE\<close>.  Here its two statements
  are steps of their own, and two transactions interleave: both read before either writes, and the
  second \<open>UPDATE\<close> waits for the commit of the first, as the row lock makes it do.  A plain
  \<open>SELECT\<close> takes no lock, so the schedule is one the database allows.
\<close>

subsection \<open>The two statements\<close>

definition decrement_read :: "db_env \<Rightarrow> nat \<Rightarrow> string \<Rightarrow> world \<Rightarrow> int result \<times> world" where
  "decrement_read E h alias w =
     (let fn = ''repository.mysql.FileRepo.DecrementDownloadsByAlias'' in
      case tx_exec h (sql_select_downloads E alias) w of
        (Inl err, w1) \<Rightarrow>
          (if err = NoRows then (Inl (Sentinel ErrFileNotFound), w1)
           else (Inl (errorf (fn @ '': failed to exec sql: '') (Ext err)), w1))
      | (Inr downloadsLeft, w1) \<Rightarrow> (Inr downloadsLeft, w1))"

definition decrement_write :: "db_env \<Rightarrow> nat \<Rightarrow> string \<Rightarrow> int \<Rightarrow> world \<Rightarrow> int result \<times> world" where
  "decrement_write E h alias downloadsLeft w =
     (let fn = ''repository.mysql.FileRepo.DecrementDownloadsByAlias'' in
      if downloadsLeft = 0 then (Inl (Sentinel ErrNoDownloadsLeft), w)
      else (let downloadsLeft' = wrap16 (downloadsLeft - 1) in
        case tx_exec h (sql_update_downloads E alias downloadsLeft') w of
          (Inl err, w1) \<Rightarrow> (Inl (errorf (fn @ '': failed to exec sql: '') (Ext err)), w1)
        | (Inr _, w1) \<Rightarrow> (Inr downloadsLeft', w1)))"

text \<open>One after the other they are the method of the repository.\<close>

lemma Decrement_split:
  "FileRepo_DecrementDownloadsByAliasTx E (SqlTx h) alias w =
     (case decrement_read E h alias w of
        (Inl err, w1) \<Rightarrow> (Inl err, w1)
      | (Inr n, w1) \<Rightarrow> decrement_write E h alias n w1)"
  by (simp add: FileRepo_DecrementDownloadsByAliasTx_def decrement_read_def decrement_write_def Let_def
      split: prod.split sum.split)

subsection \<open>Two transactions\<close>

text \<open>
  The database part of two downloads, interleaved: what each is told is left, and the world after
  both have committed; \<open>None\<close> if any call fails.
\<close>

definition overlapping_decrements :: "db_env \<Rightarrow> string \<Rightarrow> world \<Rightarrow> ((int \<times> int) \<times> world) option" where
  "overlapping_decrements E alias w =
     (case FileRepo_BeginTx w of
        (Inr (SqlTx h1), w1) \<Rightarrow>
     (case FileRepo_BeginTx w1 of
        (Inr (SqlTx h2), w2) \<Rightarrow>
     (case decrement_read E h1 alias w2 of
        (Inr n1, w3) \<Rightarrow>
     (case decrement_read E h2 alias w3 of
        (Inr n2, w4) \<Rightarrow>
     (case decrement_write E h1 alias n1 w4 of
        (Inr m1, w5) \<Rightarrow>
     (case Tx_Commit (SqlTx h1) w5 of
        (None, w6) \<Rightarrow>
     (case decrement_write E h2 alias n2 w6 of
        (Inr m2, w7) \<Rightarrow>
     (case Tx_Commit (SqlTx h2) w7 of
        (None, w8) \<Rightarrow> Some ((m1, m2), w8)
      | _ \<Rightarrow> None) | _ \<Rightarrow> None) | _ \<Rightarrow> None) | _ \<Rightarrow> None) | _ \<Rightarrow> None) | _ \<Rightarrow> None) | _ \<Rightarrow> None)
      | _ \<Rightarrow> None)"

text \<open>Both are told the same number, and the counter has gone down by one.\<close>

lemma overlapping_lost:
  assumes w: "calm w" and r: "find (live_row E (w_clock w) a) (w_table w) = Some r"
    and k: "f_DownloadsLeft (row_file r) = k" "2 \<le> k" "k < 2 ^ 15"
  shows "overlapping_decrements E a w = Some ((k - 1, k - 1), downloaded E p a (k - 1) w)"
proof -
  have k': "wrap16 (k - 1) = k - 1" using k by (intro wrap16_id) auto
  have "fresh [fresh []] \<noteq> fresh []" "fresh [] \<noteq> fresh [fresh []]"
    using fresh_not_in [of "[fresh []]"] by auto
  with w r k k' show ?thesis
    by (simp add: overlapping_decrements_def FileRepo_BeginTx_def decrement_read_def decrement_write_def
        Tx_Commit_def next_tick_calm calm_exec sql_select_downloads_def sql_update_downloads_def calm_def
        downloaded_def set_rows_def Let_def)
qed

end
