(* ===== verification/Interleaving.thy ===== *)
theory Interleaving
  imports Shelf_Runs Concurrent_Downloads
begin

text \<open>
  Requests for one alias that overlap, and ticks of the worker.  A download, a deletion and a tick are
  cut into the calls they make (\<open>DownloadFile\<close> and \<open>DeleteFile\<close> of the service and the loop body of
  the worker, with \<open>DecrementDownloadsByAliasTx\<close>, \<open>DeleteFileTx\<close> and \<open>DeleteExpiredFilesTx\<close> of the
  repository), each call is one step, and the steps of any number of them interleave in any order; a
  call may also fail.  Of the database the model keeps what the calls see of the one row: the
  committed value, and the lock with the value its holder has not committed yet.  A plain
  \<open>SELECT\<close> reads the committed value and takes no lock; \<open>UPDATE\<close>, \<open>DELETE\<close> and \<open>SELECT FOR UPDATE\<close>
  read the current value, wait for the lock and keep it until the transaction ends; one that finds
  no row locks nothing.  That is InnoDB at its default isolation level, where the scan of the worker,
  for want of an index, locks every row it reads.
\<close>

subsection \<open>What the requests share\<close>

record link =
  l_row :: "int option"
  l_lock :: "(nat \<times> int option) option"
  l_file :: bool
  l_live :: bool
  l_due :: bool

text \<open>
  \<open>l_live\<close>: the row has \<open>expires_at > NOW()\<close>; \<open>l_due\<close>: it has \<open>expires_at < NOW()\<close>.  In the second
  of the expiry itself neither holds.
\<close>

definition fresh_link :: "int \<Rightarrow> link" where
  "fresh_link k = \<lparr>l_row = Some k, l_lock = None, l_file = True, l_live = True, l_due = False\<rparr>"

text \<open>What the holder of the lock has made of the row, and what a locking statement finds.\<close>

definition held_by :: "nat \<Rightarrow> link \<Rightarrow> int option option" where
  "held_by i l = (case l_lock l of Some (j, v) \<Rightarrow> if j = i then Some v else None | None \<Rightarrow> None)"

definition waits :: "nat \<Rightarrow> link \<Rightarrow> bool" where
  "waits i l \<longleftrightarrow> l_lock l \<noteq> None \<and> held_by i l = None"

definition current :: "nat \<Rightarrow> link \<Rightarrow> int option" where
  "current i l = (case held_by i l of Some v \<Rightarrow> v | None \<Rightarrow> l_row l)"

definition release :: "nat \<Rightarrow> link \<Rightarrow> link" where
  "release i l = (if held_by i l = None then l else l\<lparr>l_lock := None\<rparr>)"

definition settle :: "nat \<Rightarrow> link \<Rightarrow> link" where
  "settle i l = (case held_by i l of None \<Rightarrow> l | Some v \<Rightarrow> l\<lparr>l_row := v, l_lock := None\<rparr>)"

subsection \<open>The calls of a request\<close>

text \<open>
  A download or a deletion, and whether the password or the caller is accepted; a tick of the worker,
  and whether its scan, which ends after a hundred expired rows, reaches the row.
\<close>

datatype job = Fetch bool | Drop bool | Purge bool

datatype outcome = Served | Dropped | Purged | Refused

datatype stage = AtGet | AtOpen | AtBegin | AtRead | AtWrite int | AtDelete | AtScan | AtErase
  | AtUnlink | AtCommit | AtRollback | Finished outcome

fun accepted :: "job \<Rightarrow> bool" where
  "accepted (Fetch b) = b"
| "accepted (Drop b) = b"
| "accepted (Purge b) = b"

text \<open>What a commit means for the request; a tick that has deleted nothing has not purged.\<close>

fun success :: "job \<Rightarrow> int option option \<Rightarrow> outcome" where
  "success (Fetch b) v = Served"
| "success (Drop b) v = Dropped"
| "success (Purge b) v = (if v = Some None then Purged else Refused)"

definition first_call :: "job \<Rightarrow> stage" where
  "first_call j = (case j of Purge b \<Rightarrow> AtBegin | _ \<Rightarrow> AtGet)"

definition after_get :: "job \<Rightarrow> stage" where
  "after_get j = (case j of Fetch b \<Rightarrow> AtOpen | _ \<Rightarrow> AtBegin)"

definition after_begin :: "job \<Rightarrow> stage" where
  "after_begin j = (case j of Fetch b \<Rightarrow> AtRead | Drop b \<Rightarrow> AtDelete | Purge b \<Rightarrow> AtScan)"

text \<open>The next call succeeds; \<open>None\<close> when it has to wait, or when there is none.\<close>

fun advance :: "nat \<Rightarrow> job \<Rightarrow> stage \<Rightarrow> link \<Rightarrow> (stage \<times> link) option" where
  "advance i j AtGet l =
     Some (if l_row l \<noteq> None \<and> l_live l \<and> accepted j then after_get j else Finished Refused, l)"
| "advance i j AtOpen l = Some (if l_file l then AtBegin else Finished Refused, l)"
| "advance i j AtBegin l = Some (after_begin j, l)"
| "advance i j AtRead l =
     Some (case l_row l of
             Some n \<Rightarrow> if l_live l \<and> n \<noteq> 0 then AtWrite n else AtRollback
           | None \<Rightarrow> AtRollback, l)"
| "advance i j (AtWrite n) l =
     (if waits i l then None
      else Some (if wrap16 (n - 1) > 0 then AtCommit else AtDelete,
                 if l_row l = None then l else l\<lparr>l_lock := Some (i, Some (wrap16 (n - 1)))\<rparr>))"
| "advance i j AtDelete l =
     (if waits i l then None
      else if current i l \<noteq> None \<and> l_live l then Some (AtUnlink, l\<lparr>l_lock := Some (i, None)\<rparr>)
      else Some (AtRollback, l))"
| "advance i j AtScan l =
     (case l_row l of
        None \<Rightarrow> Some (AtCommit, l)
      | Some n \<Rightarrow>
          if \<not> accepted j then Some (AtCommit, l)
          else if waits i l then None
          else Some (if l_due l then AtErase else AtCommit, l\<lparr>l_lock := Some (i, Some n)\<rparr>))"
| "advance i j AtErase l = Some (AtUnlink, l\<lparr>l_lock := Some (i, None)\<rparr>)"
| "advance i j AtUnlink l = Some (AtCommit, l\<lparr>l_file := False\<rparr>)"
| "advance i j AtCommit l = Some (Finished (success j (held_by i l)), settle i l)"
| "advance i j AtRollback l = Some (Finished Refused, release i l)"
| "advance i j (Finished r) l = None"

text \<open>
  The next call fails (a fault of the database or the disk, a cancelled context, a lock wait that
  times out), having taken effect all the same or not.
\<close>

fun fault :: "nat \<Rightarrow> bool \<Rightarrow> stage \<Rightarrow> link \<Rightarrow> (stage \<times> link) option" where
  "fault i took AtGet l = Some (Finished Refused, l)"
| "fault i took AtOpen l = Some (Finished Refused, l)"
| "fault i took AtBegin l = Some (Finished Refused, l)"
| "fault i took AtRead l = Some (AtRollback, l)"
| "fault i took (AtWrite n) l = Some (AtRollback, l)"
| "fault i took AtDelete l = Some (AtRollback, l)"
| "fault i took AtScan l = Some (AtRollback, l)"
| "fault i took AtErase l = Some (AtRollback, l)"
| "fault i took AtUnlink l = Some (AtRollback, if took then l\<lparr>l_file := False\<rparr> else l)"
| "fault i took AtCommit l = Some (AtRollback, if took then settle i l else release i l)"
| "fault i took AtRollback l = Some (Finished Refused, release i l)"
| "fault i took (Finished r) l = None"

subsection \<open>Interleavings\<close>

text \<open>\<open>Expire\<close>: time passes, to the second of the expiry or beyond it.\<close>

datatype move = Arrive job | Go nat | Fault nat bool | Expire bool

type_synonym traffic = "link \<times> (job \<times> stage) list"

definition perform :: "move \<Rightarrow> traffic \<Rightarrow> traffic option" where
  "perform m c = (case c of (l, rs) \<Rightarrow>
     (case m of
        Arrive j \<Rightarrow> Some (l, rs @ [(j, first_call j)])
      | Expire b \<Rightarrow> Some (l\<lparr>l_live := False, l_due := b \<or> l_due l\<rparr>, rs)
      | Go i \<Rightarrow> if i < length rs then
           map_option (\<lambda>(s, l'). (l', rs[i := (fst (rs ! i), s)])) (advance i (fst (rs ! i)) (snd (rs ! i)) l)
           else None
      | Fault i took \<Rightarrow> if i < length rs then
           map_option (\<lambda>(s, l'). (l', rs[i := (fst (rs ! i), s)])) (fault i took (snd (rs ! i)) l)
           else None))"

fun schedule :: "move list \<Rightarrow> traffic \<Rightarrow> traffic option" where
  "schedule [] c = Some c"
| "schedule (m # ms) c = (case perform m c of None \<Rightarrow> None | Some c' \<Rightarrow> schedule ms c')"

lemma schedule_append:
  "schedule (ms @ ns) c = (case schedule ms c of None \<Rightarrow> None | Some c' \<Rightarrow> schedule ns c')"
  by (induction ms arbitrary: c) (auto split: option.split)

text \<open>The interleavings, and those of them in which no call fails.\<close>

inductive interleaved :: "bool \<Rightarrow> link \<Rightarrow> traffic \<Rightarrow> bool" for faults l where
  start: "interleaved faults l (l, [])"
| move: "interleaved faults l c \<Longrightarrow> perform m c = Some c' \<Longrightarrow>
    faults \<or> (\<forall>i took. m \<noteq> Fault i took) \<Longrightarrow> interleaved faults l c'"

lemma schedule_interleaved:
  "interleaved faults l c \<Longrightarrow> schedule ms c = Some c' \<Longrightarrow>
   faults \<or> (\<forall>i took. Fault i took \<notin> set ms) \<Longrightarrow> interleaved faults l c'"
proof (induction ms arbitrary: c)
  case Nil
  then show ?case by simp
next
  case (Cons m ms)
  then obtain c1 where c1: "perform m c = Some c1" "schedule ms c1 = Some c'"
    by (auto split: option.splits)
  with Cons.prems have "interleaved faults l c1" by (auto intro: interleaved.move)
  with Cons.IH [OF this c1(2)] Cons.prems(3) show ?case by auto
qed

text \<open>How many requests ended with an outcome.\<close>

definition ended :: "outcome set \<Rightarrow> traffic \<Rightarrow> nat" where
  "ended R c = length (filter (\<lambda>(j, s). \<exists>r \<in> R. s = Finished r) (snd c))"

definition all_done :: "traffic \<Rightarrow> bool" where
  "all_done c \<longleftrightarrow> (\<forall>(j, s) \<in> set (snd c). \<exists>r. s = Finished r)"

subsection \<open>What holds in every interleaving\<close>

text \<open>
  Each stage against what its request holds: the lock with a value \<open>v\<close> (\<open>Some v\<close>) or nothing.  A
  request reaches its commit with the row deleted and the file gone, or with a counter from 1 to
  \<open>k - 1\<close>, or without the lock, when the row had gone before its \<open>UPDATE\<close>; a tick also with the
  value it found.
\<close>

fun stage_ok :: "int \<Rightarrow> job \<Rightarrow> int option option \<Rightarrow> bool \<Rightarrow> stage \<Rightarrow> bool" where
  "stage_ok k j v file (AtWrite n) \<longleftrightarrow> v = None \<and> 1 \<le> n \<and> n \<le> k \<and> (\<exists>b. j = Fetch b)"
| "stage_ok k j v file AtDelete \<longleftrightarrow> (v = None \<or> v = Some (Some 0)) \<and> (\<forall>b. j \<noteq> Purge b)"
| "stage_ok k j v file AtUnlink \<longleftrightarrow> v = Some None"
| "stage_ok k j v file AtCommit \<longleftrightarrow>
     v = Some None \<and> \<not> file \<or>
     2 \<le> k \<and> (\<exists>b. j = Fetch b) \<and> (v = None \<or> (\<exists>m. v = Some (Some m) \<and> 1 \<le> m \<and> m < k)) \<or>
     (\<exists>b. j = Purge b) \<and> (v = None \<or> (\<exists>m. v = Some (Some m) \<and> 1 \<le> m \<and> m \<le> k))"
| "stage_ok k j v file AtScan \<longleftrightarrow> v = None \<and> (\<exists>b. j = Purge b)"
| "stage_ok k j v file AtErase \<longleftrightarrow> (\<exists>b. j = Purge b) \<and> (\<exists>m. v = Some (Some m) \<and> 1 \<le> m \<and> m \<le> k)"
| "stage_ok k j v file AtRollback \<longleftrightarrow> True"
| "stage_ok k j v file AtRead \<longleftrightarrow> v = None \<and> (\<exists>b. j = Fetch b)"
| "stage_ok k j v file s \<longleftrightarrow> v = None"

definition row_ok :: "int \<Rightarrow> link \<Rightarrow> bool" where
  "row_ok k l \<longleftrightarrow> (case l_row l of Some n \<Rightarrow> 1 \<le> n \<and> n \<le> k | None \<Rightarrow> l_lock l = None \<and> \<not> l_file l)"

definition traffic_ok :: "int \<Rightarrow> traffic \<Rightarrow> bool" where
  "traffic_ok k c \<longleftrightarrow> row_ok k (fst c) \<and>
     (\<forall>i v. l_lock (fst c) = Some (i, v) \<longrightarrow> i < length (snd c)) \<and>
     (\<forall>i < length (snd c). stage_ok k (fst (snd c ! i)) (held_by i (fst c)) (l_file (fst c)) (snd (snd c ! i)))"

text \<open>A step of one request leaves what the others hold, and never brings the file back.\<close>

definition others_hold :: "nat \<Rightarrow> link \<Rightarrow> link \<Rightarrow> bool" where
  "others_hold i l l' \<longleftrightarrow> (\<forall>j. j \<noteq> i \<longrightarrow> held_by j l' = held_by j l) \<and> (l_file l' \<longrightarrow> l_file l) \<and>
     (\<forall>j v. l_lock l' = Some (j, v) \<longrightarrow> j = i \<or> l_lock l = Some (j, v))"

lemma others_hold_refl [simp]: "others_hold i l l"
  by (simp add: others_hold_def)

lemmas hold_defs = held_by_def waits_def current_def release_def settle_def others_hold_def

lemma advance_others: "advance i j s l = Some (s', l') \<Longrightarrow> stage_ok k j (held_by i l) (l_file l) s \<Longrightarrow> others_hold i l l'"
  by (cases s) (auto simp: hold_defs split: if_splits option.splits)

lemma fault_others: "fault i took s l = Some (s', l') \<Longrightarrow> others_hold i l l'"
  by (cases s) (auto simp: hold_defs split: if_splits option.splits)

lemma wrap_below: "1 \<le> n \<Longrightarrow> n \<le> k \<Longrightarrow> k < 2 ^ 15 \<Longrightarrow> wrap16 (n - 1) = n - (1 :: int)"
  by (intro wrap16_id) auto

lemma advance_ok:
  assumes "advance i j s l = Some (s', l')" "stage_ok k j (held_by i l) (l_file l) s" "row_ok k l"
    and "1 \<le> k" "k < 2 ^ 15"
  shows "stage_ok k j (held_by i l') (l_file l') s' \<and> row_ok k l'"
proof (cases s)
  case (AtWrite n)
  with assms wrap_below [of n k] show ?thesis
    by (auto simp: hold_defs row_ok_def split: if_splits option.splits prod.splits)
next
  case AtGet
  with assms show ?thesis by (auto simp: after_get_def split: job.splits if_splits)
next
  case AtBegin
  with assms show ?thesis by (auto simp: after_begin_def split: job.splits)
next
  case AtRead
  with assms show ?thesis by (auto simp: row_ok_def split: option.splits if_splits)
next
  case AtDelete
  with assms show ?thesis
    by (auto simp: hold_defs row_ok_def split: if_splits option.splits prod.splits)
next
  case AtScan
  with assms show ?thesis
    by (auto simp: hold_defs row_ok_def split: if_splits option.splits prod.splits) metis+
qed (use assms in \<open>auto simp: hold_defs row_ok_def split: if_splits option.splits prod.splits\<close>)

lemma fault_ok:
  assumes "fault i took s l = Some (s', l')" "stage_ok k j (held_by i l) (l_file l) s" "row_ok k l"
  shows "stage_ok k j (held_by i l') (l_file l') s' \<and> row_ok k l'"
  using assms by (cases s) (auto simp: hold_defs row_ok_def split: if_splits option.splits prod.splits)

lemma others_stage_ok:
  "others_hold i l l' \<Longrightarrow> n \<noteq> i \<Longrightarrow> stage_ok k j (held_by n l) (l_file l) s \<Longrightarrow> stage_ok k j (held_by n l') (l_file l') s"
  by (cases s) (auto simp: others_hold_def)

text \<open>So a step that keeps its own request in order keeps all of them in order.\<close>

lemma traffic_ok_update:
  assumes "traffic_ok k (l, rs)" "i < length rs" "others_hold i l l'" "row_ok k l'"
    and "stage_ok k (fst (rs ! i)) (held_by i l') (l_file l') s'"
  shows "traffic_ok k (l', rs[i := (fst (rs ! i), s')])"
proof -
  have "stage_ok k (fst (rs ! n)) (held_by n l') (l_file l') (snd (rs ! n))" if "n < length rs" "n \<noteq> i" for n
    using others_stage_ok [OF assms(3) that(2)] assms(1) that by (auto simp: traffic_ok_def)
  with assms show ?thesis
    by (auto simp: traffic_ok_def nth_list_update others_hold_def)
qed

lemma perform_ok:
  assumes p: "perform m (l, rs) = Some c'" and t: "traffic_ok k (l, rs)" and k: "1 \<le> k" "k < 2 ^ 15"
  shows "traffic_ok k c'"
proof (cases m)
  case (Arrive j)
  from t have "held_by (length rs) l = None" by (auto simp: traffic_ok_def held_by_def split: option.splits)
  with Arrive p t show ?thesis
    by (auto simp: perform_def traffic_ok_def nth_append less_Suc_eq first_call_def split: job.split)
next
  case (Expire b)
  with p t show ?thesis by (auto simp: perform_def traffic_ok_def row_ok_def held_by_def split: option.splits)
next
  case (Go i)
  with p obtain s' l' where i: "i < length rs" and s: "advance i (fst (rs ! i)) (snd (rs ! i)) l = Some (s', l')"
    "c' = (l', rs[i := (fst (rs ! i), s')])"
    by (auto simp: perform_def split: if_splits)
  from t i have ok: "stage_ok k (fst (rs ! i)) (held_by i l) (l_file l) (snd (rs ! i))" "row_ok k l"
    by (auto simp: traffic_ok_def)
  from advance_ok [OF s(1) ok k] advance_others [OF s(1) ok(1)] traffic_ok_update [OF t i] s(2)
  show ?thesis by simp
next
  case (Fault i took)
  with p obtain s' l' where i: "i < length rs" and s: "fault i took (snd (rs ! i)) l = Some (s', l')"
    "c' = (l', rs[i := (fst (rs ! i), s')])"
    by (auto simp: perform_def split: if_splits)
  from t i have ok: "stage_ok k (fst (rs ! i)) (held_by i l) (l_file l) (snd (rs ! i))" "row_ok k l"
    by (auto simp: traffic_ok_def)
  from fault_ok [OF s(1) ok] fault_others [OF s(1)] traffic_ok_update [OF t i] s(2)
  show ?thesis by simp
qed

lemma interleaved_ok:
  "interleaved faults (fresh_link k) c \<Longrightarrow> 1 \<le> k \<Longrightarrow> k < 2 ^ 15 \<Longrightarrow> traffic_ok k c"
proof (induction rule: interleaved.induct)
  case start
  then show ?case by (simp add: traffic_ok_def row_ok_def fresh_link_def)
next
  case (move c m c')
  then show ?case using perform_ok [of m "fst c" "snd c"] by simp
qed

subsection \<open>One download, whatever the interleaving\<close>

lemma ended_update:
  "i < length rs \<Longrightarrow> \<not> (\<exists>r. snd (rs ! i) = Finished r) \<Longrightarrow>
   ended R (l', rs[i := (j, s)]) = ended R (l, rs) + (if \<exists>r \<in> R. s = Finished r then 1 else 0)"
proof (induction rs arbitrary: i)
  case Nil
  then show ?case by simp
next
  case (Cons x xs)
  then show ?case by (cases i) (auto simp: ended_def split: prod.splits)
qed

definition taken :: "traffic \<Rightarrow> nat" where
  "taken c = ended {Served, Dropped, Purged} c + (if l_row (fst c) = None then 0 else 1)"

lemma taken_step:
  assumes p: "perform m (l, rs) = Some c'" and t: "traffic_ok 1 (l, rs)"
  shows "taken c' \<le> taken (l, rs)"
proof (cases m)
  case (Arrive j)
  with p show ?thesis by (auto simp: perform_def taken_def ended_def first_call_def split: job.split)
next
  case (Expire b)
  with p show ?thesis by (auto simp: perform_def taken_def ended_def first_call_def split: job.split)
next
  case (Go i)
  with p obtain s' l' where i: "i < length rs" and s: "advance i (fst (rs ! i)) (snd (rs ! i)) l = Some (s', l')"
    "c' = (l', rs[i := (fst (rs ! i), s')])"
    by (auto simp: perform_def split: if_splits)
  from t i have ok: "stage_ok 1 (fst (rs ! i)) (held_by i l) (l_file l) (snd (rs ! i))" "row_ok 1 l"
    by (auto simp: traffic_ok_def)
  have "\<not> (\<exists>r. snd (rs ! i) = Finished r)" using s by auto
  from ended_update [OF i this, of "{Served, Dropped, Purged}" l' "fst (rs ! i)" s' l] s ok show ?thesis
    by (cases "snd (rs ! i)")
      (auto simp: taken_def hold_defs row_ok_def after_get_def after_begin_def
        split: if_splits option.splits job.splits)
next
  case (Fault i took)
  with p obtain s' l' where i: "i < length rs" and s: "fault i took (snd (rs ! i)) l = Some (s', l')"
    "c' = (l', rs[i := (fst (rs ! i), s')])"
    by (auto simp: perform_def split: if_splits)
  from t i have ok: "stage_ok 1 (fst (rs ! i)) (held_by i l) (l_file l) (snd (rs ! i))" "row_ok 1 l"
    by (auto simp: traffic_ok_def)
  have "\<not> (\<exists>r. snd (rs ! i) = Finished r)" using s by auto
  from ended_update [OF i this, of "{Served, Dropped, Purged}" l' "fst (rs ! i)" s' l] s ok show ?thesis
    by (cases "snd (rs ! i)")
      (auto simp: taken_def hold_defs row_ok_def split: if_splits option.splits)
qed

lemma taken_at_most_once: "interleaved faults (fresh_link 1) c \<Longrightarrow> taken c \<le> 1"
proof (induction rule: interleaved.induct)
  case start
  then show ?case by (simp add: taken_def ended_def fresh_link_def)
next
  case (move c m c')
  from interleaved_ok [OF move.hyps(1)] have "traffic_ok 1 c" by simp
  with taken_step [of m "fst c" "snd c" c'] move show ?case by simp
qed

subsection \<open>The file goes with the row\<close>

text \<open>Without faults the file is missing only while a request is between its unlink and its commit.\<close>

definition whole :: "traffic \<Rightarrow> bool" where
  "whole c \<longleftrightarrow> (l_row (fst c) \<noteq> None \<longrightarrow> l_file (fst c) \<or>
     (\<exists>i < length (snd c). l_lock (fst c) = Some (i, None) \<and> snd (snd c ! i) = AtCommit))"

lemma whole_go:
  assumes i: "i < length rs" and s: "advance i (fst (rs ! i)) (snd (rs ! i)) l = Some (s', l')"
    and t: "traffic_ok k (l, rs)" and w: "whole (l, rs)"
  shows "whole (l', rs[i := (fst (rs ! i), s')])"
proof -
  have ok: "stage_ok k (fst (rs ! i)) (held_by i l) (l_file l) (snd (rs ! i))" and rk: "row_ok k l"
    using t i by (auto simp: traffic_ok_def)
  show ?thesis
  proof (cases "l_row l' \<noteq> None \<and> \<not> l_file l'")
    case False
    then show ?thesis by (auto simp: whole_def)
  next
    case True
    show ?thesis
    proof (cases "l_file l")
      case True
      with \<open>l_row l' \<noteq> None \<and> \<not> l_file l'\<close> s ok i show ?thesis
        by (cases "snd (rs ! i)") (auto simp: whole_def hold_defs split: if_splits option.splits)
    next
      case False
      have "l_row l \<noteq> None" using True False s ok rk
        by (cases "snd (rs ! i)") (auto simp: hold_defs row_ok_def split: if_splits option.splits)
      with False w obtain n where n: "n < length rs" "l_lock l = Some (n, None)" "snd (rs ! n) = AtCommit"
        by (auto simp: whole_def)
      show ?thesis
      proof (cases "n = i")
        case True
        with n s \<open>l_row l' \<noteq> None \<and> \<not> l_file l'\<close> show ?thesis by (auto simp: settle_def held_by_def)
      next
        case False
        from advance_others [OF s ok] False n have "held_by n l' = Some None" by (simp add: others_hold_def held_by_def)
        then have "l_lock l' = Some (n, None)" by (auto simp: held_by_def split: option.splits if_splits)
        with False n show ?thesis by (auto simp: whole_def)
      qed
    qed
  qed
qed

lemma interleaved_whole:
  "interleaved faults (fresh_link k) c \<Longrightarrow> \<not> faults \<Longrightarrow> 1 \<le> k \<Longrightarrow> k < 2 ^ 15 \<Longrightarrow> whole c"
proof (induction rule: interleaved.induct)
  case start
  then show ?case by (simp add: whole_def fresh_link_def)
next
  case (move c m c')
  obtain l rs where c: "c = (l, rs)" by (cases c)
  have t: "traffic_ok k (l, rs)" using interleaved_ok [OF move.hyps(1) move.prems(2,3)] c by simp
  have w: "whole (l, rs)" using move c by simp
  show ?case
  proof (cases m)
    case (Arrive j)
    with w move.hyps(2) c show ?thesis by (auto simp: perform_def whole_def nth_append first_call_def split: job.split)
  next
    case (Expire b)
    with w move.hyps(2) c show ?thesis by (auto simp: perform_def whole_def)
  next
    case (Go i)
    with move.hyps(2) c whole_go [OF _ _ t w] show ?thesis
      by (auto simp: perform_def split: if_splits)
  next
    case (Fault i took)
    with move.hyps(3) move.prems(1) show ?thesis by blast
  qed
qed

lemma done_unlocked: "traffic_ok k c \<Longrightarrow> all_done c \<Longrightarrow> l_lock (fst c) = None"
proof (rule ccontr)
  assume t: "traffic_ok k c" "all_done c" and "l_lock (fst c) \<noteq> None"
  then obtain i v where i: "l_lock (fst c) = Some (i, v)" by auto
  with t have "i < length (snd c)" by (auto simp: traffic_ok_def)
  moreover from this t(2) obtain r where "snd (snd c ! i) = Finished r"
    by (fastforce simp: all_done_def dest: nth_mem)
  ultimately show False using t(1) i by (auto simp: traffic_ok_def held_by_def)
qed

subsection \<open>The worker takes nothing before its time\<close>

text \<open>A tick that has deleted the row, or is about to, has seen it expired.\<close>

definition sweeping :: "job \<Rightarrow> int option option \<Rightarrow> stage \<Rightarrow> bool" where
  "sweeping j v s \<longleftrightarrow> s \<in> {AtErase, Finished Purged} \<or> (\<exists>b. j = Purge b) \<and> v = Some None"

definition timely :: "traffic \<Rightarrow> bool" where
  "timely c \<longleftrightarrow> (l_due (fst c) \<longrightarrow> \<not> l_live (fst c)) \<and>
     (\<forall>i < length (snd c). sweeping (fst (snd c ! i)) (held_by i (fst c)) (snd (snd c ! i)) \<longrightarrow> l_due (fst c))"

lemma timely_update:
  assumes "timely (l, rs)" "i < length rs" "others_hold i l l'" "l_due l' = l_due l" "l_live l' = l_live l"
    and "sweeping (fst (rs ! i)) (held_by i l') s' \<Longrightarrow> l_due l"
  shows "timely (l', rs[i := (fst (rs ! i), s')])"
  using assms by (auto simp: timely_def nth_list_update others_hold_def)

lemma advance_timely:
  assumes "advance i j s l = Some (s', l')" "stage_ok k j (held_by i l) (l_file l) s"
    and "sweeping j (held_by i l') s'" "sweeping j (held_by i l) s \<Longrightarrow> l_due l"
  shows "l_due l"
  using assms
  by (cases s) (auto simp: sweeping_def hold_defs after_get_def after_begin_def split: if_splits option.splits job.splits, (cases j; simp)+)

lemma fault_timely:
  assumes "fault i took s l = Some (s', l')" "sweeping j (held_by i l') s'" "sweeping j (held_by i l) s \<Longrightarrow> l_due l"
  shows "l_due l"
  using assms by (cases s) (auto simp: sweeping_def hold_defs split: if_splits option.splits)

lemma advance_time: "advance i j s l = Some (s', l') \<Longrightarrow> l_due l' = l_due l \<and> l_live l' = l_live l"
  by (cases s) (auto simp: hold_defs split: if_splits option.splits)

lemma fault_time: "fault i took s l = Some (s', l') \<Longrightarrow> l_due l' = l_due l \<and> l_live l' = l_live l"
  by (cases s) (auto simp: hold_defs split: if_splits option.splits)

lemma perform_timely:
  assumes p: "perform m (l, rs) = Some c'" and t: "traffic_ok k (l, rs)" and e: "timely (l, rs)"
  shows "timely c'"
proof (cases m)
  case (Arrive j)
  from t have "held_by (length rs) l = None" by (auto simp: traffic_ok_def held_by_def split: option.splits)
  then have "\<not> sweeping j (held_by (length rs) l) (first_call j)"
    by (auto simp: sweeping_def first_call_def split: job.splits)
  with Arrive p e show ?thesis by (auto simp: perform_def timely_def nth_append less_Suc_eq)
next
  case (Expire b)
  with p e show ?thesis by (auto simp: perform_def timely_def held_by_def)
next
  case (Go i)
  with p obtain s' l' where i: "i < length rs" and s: "advance i (fst (rs ! i)) (snd (rs ! i)) l = Some (s', l')"
    "c' = (l', rs[i := (fst (rs ! i), s')])"
    by (auto simp: perform_def split: if_splits)
  from t i have ok: "stage_ok k (fst (rs ! i)) (held_by i l) (l_file l) (snd (rs ! i))" by (auto simp: traffic_ok_def)
  have "l_due l" if "sweeping (fst (rs ! i)) (held_by i l') s'"
    by (rule advance_timely [OF s(1) ok that]) (use e i in \<open>auto simp: timely_def\<close>)
  with timely_update [OF e i advance_others [OF s(1) ok]] advance_time [OF s(1)] s(2) show ?thesis by blast
next
  case (Fault i took)
  with p obtain s' l' where i: "i < length rs" and s: "fault i took (snd (rs ! i)) l = Some (s', l')"
    "c' = (l', rs[i := (fst (rs ! i), s')])"
    by (auto simp: perform_def split: if_splits)
  have "l_due l" if "sweeping (fst (rs ! i)) (held_by i l') s'"
    by (rule fault_timely [OF s(1) that]) (use e i in \<open>auto simp: timely_def\<close>)
  with timely_update [OF e i fault_others [OF s(1)]] fault_time [OF s(1)] s(2) show ?thesis by blast
qed

lemma interleaved_timely:
  "interleaved faults (fresh_link k) c \<Longrightarrow> 1 \<le> k \<Longrightarrow> k < 2 ^ 15 \<Longrightarrow> timely c"
proof (induction rule: interleaved.induct)
  case start
  then show ?case by (simp add: timely_def fresh_link_def)
next
  case (move c m c')
  then show ?case using perform_timely [of m "fst c" "snd c" c' k] interleaved_ok [OF move.hyps(1)] by simp
qed

lemma purged_due:
  assumes "timely c" "ended {Purged} c \<noteq> 0"
  shows "\<not> l_live (fst c)"
proof -
  from assms(2) obtain j where "(j, Finished Purged) \<in> set (snd c)"
    by (auto simp: ended_def filter_empty_conv)
  then obtain i where "i < length (snd c)" "snd c ! i = (j, Finished Purged)" by (auto simp: in_set_conv_nth)
  with assms(1) show ?thesis by (force simp: timely_def sweeping_def)
qed

subsection \<open>Every request ends\<close>

text \<open>How many calls a request can still make.\<close>

fun calls_left :: "stage \<Rightarrow> nat" where
  "calls_left AtGet = 9"
| "calls_left AtOpen = 8"
| "calls_left AtBegin = 7"
| "calls_left AtRead = 6"
| "calls_left (AtWrite n) = 5"
| "calls_left AtScan = 5"
| "calls_left AtDelete = 4"
| "calls_left AtErase = 4"
| "calls_left AtUnlink = 3"
| "calls_left AtCommit = 2"
| "calls_left AtRollback = 1"
| "calls_left (Finished r) = 0"

definition work :: "traffic \<Rightarrow> nat" where
  "work c = sum_list (map (calls_left \<circ> snd) (snd c))"

lemma advance_left: "advance i j s l = Some (s', l') \<Longrightarrow> calls_left s' < calls_left s"
  by (cases s) (auto simp: after_get_def after_begin_def split: if_splits option.splits job.splits)

lemma fault_left: "fault i took s l = Some (s', l') \<Longrightarrow> calls_left s' < calls_left s"
  by (cases s) auto

lemma calls_left_bound: "calls_left s \<le> 9"
  by (cases s) auto

lemma work_bound: "work c \<le> 9 * length (snd c)"
proof -
  have "sum_list (map (calls_left \<circ> snd) xs) \<le> 9 * length xs" for xs :: "(job \<times> stage) list"
  proof (induction xs)
    case (Cons x xs)
    then show ?case using calls_left_bound [of "snd x"] by simp
  qed simp
  then show ?thesis by (simp add: work_def)
qed

text \<open>A call of a request, answered or failed.\<close>

fun is_call :: "move \<Rightarrow> bool" where
  "is_call (Go i) = True"
| "is_call (Fault i took) = True"
| "is_call m = False"

lemma work_update:
  "i < length rs \<Longrightarrow> calls_left s' < calls_left (snd (rs ! i)) \<Longrightarrow> work (l', rs[i := (j, s')]) < work (l, rs)"
proof (induction rs arbitrary: i)
  case (Cons x xs)
  then show ?case by (cases i) (auto simp: work_def)
qed simp

lemma call_lowers_work:
  assumes "perform m c = Some c'" "is_call m"
  shows "work c' < work c"
proof -
  obtain l rs where c: "c = (l, rs)" by (cases c)
  from assms obtain i s' l' where "i < length rs" "c' = (l', rs[i := (fst (rs ! i), s')])"
    "calls_left s' < calls_left (snd (rs ! i))"
    by (cases m) (auto simp: c perform_def split: if_splits dest: advance_left fault_left)
  then show ?thesis using work_update c by simp
qed

lemma calls_bounded: "schedule ms c = Some c' \<Longrightarrow> list_all is_call ms \<Longrightarrow> length ms + work c' \<le> work c"
proof (induction ms arbitrary: c)
  case (Cons m ms)
  then obtain c1 where c1: "perform m c = Some c1" "schedule ms c1 = Some c'" by (auto split: option.splits)
  with Cons call_lowers_work [OF c1(1)] show ?case by fastforce
qed simp

text \<open>A request that holds the lock never waits, and only a lock makes anyone wait.\<close>

lemma advance_unless_waiting: "\<not> (\<exists>r. s = Finished r) \<Longrightarrow> \<not> waits i l \<Longrightarrow> advance i j s l \<noteq> None"
  by (cases s) (auto split: option.split)

lemma never_stuck:
  assumes t: "traffic_ok k c" and d: "\<not> all_done c"
  shows "\<exists>i c'. perform (Go i) c = Some c'"
proof -
  obtain l rs where c: "c = (l, rs)" by (cases c)
  have "\<exists>i < length rs. \<not> (\<exists>r. snd (rs ! i) = Finished r) \<and> \<not> waits i l"
  proof (cases "l_lock l")
    case None
    with d c show ?thesis by (force simp: all_done_def waits_def in_set_conv_nth)
  next
    case (Some iv)
    obtain i v where iv: "iv = (i, v)" by (cases iv)
    with Some have h: "held_by i l = Some v" by (simp add: held_by_def)
    from t c Some iv have i: "i < length rs" by (auto simp: traffic_ok_def)
    with t c have "stage_ok k (fst (rs ! i)) (Some v) (l_file l) (snd (rs ! i))" by (auto simp: traffic_ok_def h [symmetric])
    then have "\<not> (\<exists>r. snd (rs ! i) = Finished r)" by auto
    with i h show ?thesis by (auto simp: waits_def)
  qed
  then obtain i where "i < length rs" "advance i (fst (rs ! i)) (snd (rs ! i)) l \<noteq> None"
    using advance_unless_waiting by blast
  then show ?thesis by (auto simp: c perform_def)
qed

lemma can_finish:
  assumes "interleaved faults (fresh_link k) c" "1 \<le> k" "k < 2 ^ 15"
  shows "\<exists>ms c'. schedule ms c = Some c' \<and> list_all is_call ms \<and> all_done c'"
  using assms(1)
proof (induction "work c" arbitrary: c rule: less_induct)
  case less
  show ?case
  proof (cases "all_done c")
    case True
    then show ?thesis by (intro exI [of _ "[]"]) simp
  next
    case False
    from never_stuck [OF interleaved_ok [OF less.prems assms(2,3)] False] obtain i c1
      where c1: "perform (Go i) c = Some c1" by blast
    from call_lowers_work [OF c1] less.hyps [of c1] interleaved.move [OF less.prems c1] obtain ms c'
      where "schedule ms c1 = Some c'" "list_all is_call ms" "all_done c'" by auto
    with c1 show ?thesis by (intro exI [of _ "Go i # ms"]) simp
  qed
qed

subsection \<open>Two or more downloads: any number at once\<close>

text \<open>\<open>m\<close> requests read the counter before any of them writes it; then they write and commit in turn.\<close>

definition reads :: "nat \<Rightarrow> move list" where
  "reads m = concat (map (\<lambda>i. replicate 4 (Go i)) [0..<m])"

definition writes :: "nat \<Rightarrow> move list" where
  "writes m = concat (map (\<lambda>i. [Go i, Go i]) [0..<m])"

definition crowd :: "nat \<Rightarrow> move list" where
  "crowd m = replicate m (Arrive (Fetch True)) @ reads m @ writes m"

lemma arrivals: "schedule (replicate m (Arrive j)) (l, rs) = Some (l, rs @ replicate m (j, first_call j))"
  by (induction m arbitrary: rs) (simp_all add: perform_def)

lemma replicate_next:
  "n < m \<Longrightarrow> (replicate n x @ replicate (m - n) y)[n := x] = replicate (Suc n) x @ replicate (m - Suc n) y"
  by (cases "m - n") (auto simp: list_update_append replicate_app_Cons_same Suc_diff_Suc [symmetric])

lemma one_reads:
  "i < length rs \<Longrightarrow> rs ! i = (Fetch True, AtGet) \<Longrightarrow> 0 < k \<Longrightarrow>
   schedule (replicate 4 (Go i)) (fresh_link k, rs) = Some (fresh_link k, rs[i := (Fetch True, AtWrite k)])"
  by (simp add: numeral_eq_Suc perform_def after_get_def after_begin_def fresh_link_def)

lemma all_read:
  "n \<le> m \<Longrightarrow> 0 < k \<Longrightarrow> schedule (reads n) (fresh_link k, replicate m (Fetch True, AtGet)) =
     Some (fresh_link k, replicate n (Fetch True, AtWrite k) @ replicate (m - n) (Fetch True, AtGet))"
proof (induction n)
  case 0
  then show ?case by (simp add: reads_def)
next
  case (Suc n)
  then show ?case
    by (simp add: reads_def schedule_append one_reads nth_append replicate_next del: replicate_Suc)
qed

lemma one_writes:
  "i < length rs \<Longrightarrow> rs ! i = (Fetch True, AtWrite k) \<Longrightarrow> 2 \<le> k \<Longrightarrow> k < 2 ^ 15 \<Longrightarrow>
   l_lock l = None \<Longrightarrow> l_row l \<noteq> None \<Longrightarrow>
   schedule [Go i, Go i] (l, rs) =
     Some (l\<lparr>l_row := Some (k - 1)\<rparr>, rs[i := (Fetch True, Finished Served)])"
  using wrap_below [of k k] by (auto simp: perform_def hold_defs)

lemma all_write:
  assumes "2 \<le> k" "k < 2 ^ 15"
  shows "n \<le> m \<Longrightarrow> schedule (writes n) (fresh_link k, replicate m (Fetch True, AtWrite k)) =
    Some (if n = 0 then fresh_link k else fresh_link (k - 1),
      replicate n (Fetch True, Finished Served) @ replicate (m - n) (Fetch True, AtWrite k))"
proof (induction n)
  case 0
  then show ?case by (simp add: writes_def)
next
  case (Suc n)
  let ?l = "if n = 0 then fresh_link k else fresh_link (k - 1)"
  have "?l\<lparr>l_row := Some (k - 1)\<rparr> = fresh_link (k - 1)" "l_lock ?l = None" "l_row ?l \<noteq> None"
    by (simp_all add: fresh_link_def)
  with Suc assms one_writes [of n "replicate n (Fetch True, Finished Served) @ replicate (m - n) (Fetch True, AtWrite k)" k ?l]
  show ?case
    by (simp add: writes_def schedule_append nth_append replicate_next del: replicate_Suc schedule.simps)
qed

lemma crowd_served:
  assumes "2 \<le> k" "k < 2 ^ 15" "0 < m"
  shows "schedule (crowd m) (fresh_link k, []) =
    Some (fresh_link (k - 1), replicate m (Fetch True, Finished Served))"
  using assms all_read [of m m k] all_write [OF assms(1,2), of m m]
  by (simp add: crowd_def schedule_append arrivals first_call_def)

lemma crowd_faultless: "Fault i took \<notin> set (crowd m)"
  by (auto simp: crowd_def reads_def writes_def)

subsection \<open>A request on its own\<close>

text \<open>What the requests for an alias see of a world.\<close>

definition row_of :: "db_env \<Rightarrow> string \<Rightarrow> world \<Rightarrow> row option" where
  "row_of E a w = find (\<lambda>r. same_alias (collate E) a (row_file r)) (w_table w)"

definition link_of :: "db_env \<Rightarrow> string \<Rightarrow> string \<Rightarrow> world \<Rightarrow> link" where
  "link_of E p a w =
     \<lparr>l_row = map_option (\<lambda>r. f_DownloadsLeft (row_file r)) (row_of E a w), l_lock = None,
      l_file = (folder_of p w a \<noteq> None),
      l_live = (case row_of E a w of None \<Rightarrow> False | Some r \<Rightarrow> live_row E (w_clock w) a r),
      l_due = (case row_of E a w of None \<Rightarrow> False | Some r \<Rightarrow> expired E (w_clock w) r)\<rparr>"

text \<open>The expiry of a row that is gone does not matter.\<close>

definition agree :: "link \<Rightarrow> link \<Rightarrow> bool" where
  "agree l l' \<longleftrightarrow> l_row l = l_row l' \<and> l_lock l = l_lock l' \<and> l_file l = l_file l' \<and>
     (l_row l \<noteq> None \<longrightarrow> l_live l = l_live l' \<and> l_due l = l_due l')"

text \<open>A request that runs alone, call after call, until it has ended.\<close>

definition alone :: "job \<Rightarrow> link \<Rightarrow> outcome \<Rightarrow> link \<Rightarrow> bool" where
  "alone j l r l' \<longleftrightarrow> (\<exists>n l1. schedule (Arrive j # replicate n (Go 0)) (l, []) = Some (l1, [(j, Finished r)]) \<and> agree l1 l')"

lemma aloneI:
  "schedule (Arrive j # replicate n (Go 0)) (l, []) = Some (l1, [(j, Finished r)]) \<Longrightarrow> agree l1 l' \<Longrightarrow> alone j l r l'"
  unfolding alone_def by blast

lemma agree_refl [simp]: "agree l l"
  by (simp add: agree_def)

lemmas solo_simps = numeral_eq_Suc perform_def first_call_def after_get_def after_begin_def hold_defs

lemma solo_served:
  assumes "l_row l = Some k" "l_lock l = None" "l_file l" "l_live l" "1 \<le> k" "k < 2 ^ 15"
    and "agree (if k = 1 then l\<lparr>l_row := None, l_file := False\<rparr> else l\<lparr>l_row := Some (k - 1)\<rparr>) l'"
  shows "alone (Fetch True) l Served l'"
proof (cases "k = 1")
  case True
  have "schedule (Arrive (Fetch True) # replicate 8 (Go 0)) (l, []) =
      Some (l\<lparr>l_row := None, l_file := False, l_lock := None\<rparr>, [(Fetch True, Finished Served)])"
    using assms True wrap_below [of 1 1] by (simp add: solo_simps)
  then show ?thesis by (rule aloneI) (use assms True in \<open>simp add: agree_def\<close>)
next
  case False
  with assms wrap_below [of k k]
  have "schedule (Arrive (Fetch True) # replicate 6 (Go 0)) (l, []) =
      Some (l\<lparr>l_row := Some (k - 1), l_lock := None\<rparr>, [(Fetch True, Finished Served)])"
    by (simp add: solo_simps)
  then show ?thesis by (rule aloneI) (use assms False in \<open>simp add: agree_def\<close>)
qed

lemma solo_refused:
  assumes "l_row l = None \<or> \<not> l_live l \<or> \<not> b \<or> \<not> l_file l"
  shows "alone (Fetch b) l Refused l"
proof -
  have "schedule (Arrive (Fetch b) # replicate (if l_row l \<noteq> None \<and> l_live l \<and> b then 2 else 1) (Go 0)) (l, []) =
      Some (l, [(Fetch b, Finished Refused)])"
    using assms by (auto simp: solo_simps)
  then show ?thesis by (rule aloneI) simp
qed

lemma solo_dropped:
  assumes "l_row l \<noteq> None" "l_live l" "l_lock l = None" "agree (l\<lparr>l_row := None, l_file := False\<rparr>) l'"
  shows "alone (Drop True) l Dropped l'"
proof -
  have "schedule (Arrive (Drop True) # replicate 5 (Go 0)) (l, []) =
      Some (l\<lparr>l_row := None, l_file := False, l_lock := None\<rparr>, [(Drop True, Finished Dropped)])"
    using assms by (auto simp: solo_simps)
  then show ?thesis by (rule aloneI) (use assms in \<open>simp add: agree_def\<close>)
qed

lemma solo_denied: "l_row l = None \<or> \<not> l_live l \<or> \<not> b \<Longrightarrow> alone (Drop b) l Refused l"
  by (rule aloneI [of _ 1]) (auto simp: solo_simps)

lemma solo_purged:
  assumes "l_row l \<noteq> None" "l_due l" "l_lock l = None" "agree (l\<lparr>l_row := None, l_file := False\<rparr>) l'"
  shows "alone (Purge True) l Purged l'"
proof -
  have "schedule (Arrive (Purge True) # replicate 5 (Go 0)) (l, []) =
      Some (l\<lparr>l_row := None, l_file := False, l_lock := None\<rparr>, [(Purge True, Finished Purged)])"
    using assms by (auto simp: solo_simps)
  then show ?thesis by (rule aloneI) (use assms in \<open>simp add: agree_def\<close>)
qed

lemma solo_idle:
  assumes "l_row l = None \<or> \<not> l_due l \<or> \<not> b" "l_lock l = None"
  shows "alone (Purge b) l Refused l"
proof -
  have "schedule (Arrive (Purge b) # replicate 3 (Go 0)) (l, []) =
      Some (if b then l\<lparr>l_row := l_row l, l_lock := None\<rparr> else l, [(Purge b, Finished Refused)])"
    using assms by (cases "l_row l") (auto simp: solo_simps)
  then show ?thesis by (rule aloneI) (use assms in \<open>simp add: agree_def\<close>)
qed

lemma link_of_same:
  "w_table w' = w_table w \<Longrightarrow> w_clock w' = w_clock w \<Longrightarrow> w_dirs w' = w_dirs w \<Longrightarrow> link_of E p a w' = link_of E p a w"
  by (simp add: link_of_def row_of_def folder_of_def cong: option.case_cong)

text \<open>With unique aliases the live row of an alias is its row, when that is live.\<close>

lemma row_ofD: "row_of E a w = Some r \<Longrightarrow> r \<in> set (w_table w) \<and> same_alias (collate E) a (row_file r)"
  by (auto simp: row_of_def find_Some_iff)

lemma row_of_unique:
  assumes "unique_aliases (collate E) (rows_of w)" "r \<in> set (w_table w)" "same_alias (collate E) a (row_file r)"
  shows "row_of E a w = Some r"
proof -
  have inj: "inj_on (collate E \<circ> f_Alias \<circ> row_file) (set (w_table w))"
    using assms(1) by (simp add: unique_aliases_def rows_of_def distinct_map comp_assoc)
  obtain x where x: "row_of E a w = Some x"
    using assms(2,3) by (cases "row_of E a w") (auto simp: row_of_def find_None_iff)
  with row_ofD [OF x] assms(2,3) inj_onD [OF inj, of x r] show ?thesis by (simp add: same_alias_def)
qed

lemma find_live_row:
  assumes "unique_aliases (collate E) (rows_of w)"
  shows "find (live_row E t a) (w_table w) =
    (case row_of E a w of None \<Rightarrow> None | Some r \<Rightarrow> if live_row E t a r then Some r else None)"
proof (cases "find (live_row E t a) (w_table w)")
  case None
  then show ?thesis by (auto simp: find_None_iff dest: row_ofD split: option.split)
next
  case (Some x)
  from live_rowD [OF this] row_of_unique [OF assms, of x a] live_same have "row_of E a w = Some x" by blast
  with live_rowD [OF Some] Some show ?thesis by (simp add: live_row_def)
qed

lemma link_of_live:
  assumes "unique_aliases (collate E) (rows_of w)" "find (live_row E (w_clock w) a) (w_table w) = Some r"
  shows "row_of E a w = Some r" "live_row E (w_clock w) a r"
    "link_of E p a w = \<lparr>l_row = Some (f_DownloadsLeft (row_file r)), l_lock = None,
       l_file = (folder_of p w a \<noteq> None), l_live = True, l_due = False\<rparr>"
proof -
  show r: "row_of E a w = Some r" "live_row E (w_clock w) a r"
    using assms(2) by (auto simp: find_live_row [OF assms(1)] split: option.splits if_splits)
  then have "\<not> expired E (w_clock w) r" by (auto simp: live_row_def live_as_def expired_def)
  with r show "link_of E p a w = \<lparr>l_row = Some (f_DownloadsLeft (row_file r)), l_lock = None,
       l_file = (folder_of p w a \<noteq> None), l_live = True, l_due = False\<rparr>"
    by (simp add: link_of_def)
qed

lemma link_of_not_live:
  assumes "unique_aliases (collate E) (rows_of w)" "find (live_row E (w_clock w) a) (w_table w) = None"
  shows "l_row (link_of E p a w) = None \<or> \<not> l_live (link_of E p a w)"
  using assms(2) by (auto simp: find_live_row [OF assms(1)] link_of_def split: option.splits if_splits)

lemma link_of_removed:
  assumes u: "unique_aliases (collate E) (rows_of w)" and a: "plain_name a"
    and r: "find (live_row E (w_clock w) a) (w_table w) = Some r"
  shows "agree ((link_of E p a w)\<lparr>l_row := None, l_file := False\<rparr>) (link_of E p a (remove_entry E p a w))"
proof -
  have "\<not> same_alias (collate E) a (row_file x)" if "x \<in> set (w_table w)" "\<not> live_row E (w_clock w) a x" for x
    using row_of_unique [OF u that(1)] link_of_live [OF u r] that(2) by auto
  then have "row_of E a (remove_entry E p a w) = None"
    by (auto simp: row_of_def remove_entry_def find_None_iff)
  with remove_entry_folder [OF a a, of p E w] show ?thesis by (simp add: agree_def link_of_def)
qed

lemma link_of_counted:
  assumes u: "unique_aliases (collate E) (rows_of w)"
    and r: "find (live_row E (w_clock w) a) (w_table w) = Some r"
  shows "link_of E p a (w\<lparr>w_table := set_rows E a n (w_table w)\<rparr>) = (link_of E p a w)\<lparr>l_row := Some n\<rparr>"
proof -
  have "find (\<lambda>r. same_alias (collate E) a (row_file r)) (set_rows E a n rs) =
      map_option (\<lambda>r. r\<lparr>row_file := (row_file r)\<lparr>f_DownloadsLeft := n\<rparr>\<rparr>) (find (\<lambda>r. same_alias (collate E) a (row_file r)) rs)" for rs
    by (induction rs) (auto simp: set_rows_def same_alias_def)
  then have "row_of E a (w\<lparr>w_table := set_rows E a n (w_table w)\<rparr>) =
      Some (r\<lparr>row_file := (row_file r)\<lparr>f_DownloadsLeft := n\<rparr>\<rparr>)"
    using link_of_live(1) [OF u r] by (simp add: row_of_def)
  then show ?thesis using link_of_live [OF u r]
    by (simp add: link_of_def folder_of_def live_row_def live_as_def same_alias_def expired_def)
qed

text \<open>Whether the password of a request fits the row that answers for its alias.\<close>

definition fits :: "bcrypt \<Rightarrow> db_env \<Rightarrow> download_file \<Rightarrow> world \<Rightarrow> bool" where
  "fits B E c w =
     (case find (live_row E (w_clock w) (df_Alias c)) (w_table w) of
        None \<Rightarrow> False | Some r \<Rightarrow> checkPassword B (row_file r) (df_Password c) = None)"

lemma solo_download:
  assumes w: "calm w" and ok: "shelf_ok E p w" and a: "plain_name (df_Alias c)"
    and s: "Service_DownloadFile (app_service E p cfg B) c w = (r, w')"
  shows "alone (Fetch (fits B E c w)) (link_of E p (df_Alias c) w)
    (case r of Inl e \<Rightarrow> Refused | Inr f \<Rightarrow> Served) (link_of E p (df_Alias c) w')"
proof -
  let ?a = "df_Alias c" and ?pwd = "df_Password c"
  let ?ok = "\<exists>x. find (live_row E (w_clock w) ?a) (w_table w) = Some x \<and> folder_of p w ?a \<noteq> None \<and>
    checkPassword B (row_file x) ?pwd = None"
  note u = shelf_okD(1) [OF ok]
  have c: "c = \<lparr>df_Alias = ?a, df_Password = ?pwd\<rparr>" by simp
  show ?thesis
  proof (cases ?ok)
    case False
    then have "l_row (link_of E p ?a w) = None \<or> \<not> l_live (link_of E p ?a w) \<or> \<not> fits B E c w \<or> \<not> l_file (link_of E p ?a w)"
      using link_of_not_live [OF u, of ?a p] by (auto simp: link_of_def fits_def split: option.splits)
    note solo_refused [OF this]
    moreover have "(\<exists>e. r = Inl e) \<and> w' = w"
    proof (cases "find (live_row E (w_clock w) ?a) (w_table w)")
      case None
      with calm_download_missing [OF w, of E c p cfg B] s show ?thesis by auto
    next
      case (Some x)
      with False calm_download_refused [OF w Some, of B ?pwd p cfg] s c show ?thesis by auto
    qed
    ultimately show ?thesis by auto
  next
    case True
    then obtain x where x: "find (live_row E (w_clock w) ?a) (w_table w) = Some x" "folder_of p w ?a \<noteq> None"
      "checkPassword B (row_file x) ?pwd = None" by blast
    let ?f = "row_file x" and ?k = "f_DownloadsLeft (row_file x)"
    note f = find_live_rows [OF x(1)] and l = link_of_live(3) [OF u x(1)]
    then have own: "f_Alias ?f = ?a" using shelf_own [OF ok a x(2)] by blast
    with shelf_okD(4) [OF ok] f obtain n b rest where d: "folder_of p w ?a = Some ((n, b) # rest)" by metis
    have k: "1 \<le> ?k" "?k < 2 ^ 15" using counter_range [OF shelf_okD(2) [OF ok]] f by auto
    have r: "r = Inr \<lparr>dr_File = b, dr_Name = n, dr_Size = int (length b), dr_fd = fresh (w_open w)\<rparr>"
      and w': "w' = (downloaded E p ?a (?k - 1) w)\<lparr>w_open := fresh (w_open w) # w_open w\<rparr>"
      using calm_download [OF w x(1,3) d refl k, of cfg] s c by auto
    let ?v = "w\<lparr>w_table := set_rows E ?a (?k - 1) (w_table w)\<rparr>"
    have v: "link_of E p ?a ?v = (link_of E p ?a w)\<lparr>l_row := Some (?k - 1)\<rparr>" by (rule link_of_counted [OF u x(1)])
    have "agree (if ?k = 1 then (link_of E p ?a w)\<lparr>l_row := None, l_file := False\<rparr>
        else (link_of E p ?a w)\<lparr>l_row := Some (?k - 1)\<rparr>) (link_of E p ?a w')"
    proof (cases "?k = 1")
      case True
      have "unique_aliases (collate E) (rows_of ?v)"
        "find (live_row E (w_clock ?v) ?a) (w_table ?v) = Some (x\<lparr>row_file := ?f\<lparr>f_DownloadsLeft := ?k - 1\<rparr>\<rparr>)"
        using u x(1) by (simp_all add: rows_of_set_rows find_live_set_rows)
      from link_of_removed [OF this(1) a this(2), of p] v True
      have "agree ((link_of E p ?a w)\<lparr>l_row := None, l_file := False\<rparr>) (link_of E p ?a (remove_entry E p ?a ?v))" by simp
      moreover have "link_of E p ?a w' = link_of E p ?a (remove_entry E p ?a ?v)"
        using w' True by (intro link_of_same) (simp_all add: downloaded_def remove_entry_def)
      ultimately show ?thesis using True by simp
    next
      case False
      with k have "?k - 1 > 0" by linarith
      then have "link_of E p ?a w' = link_of E p ?a ?v"
        using w' by (intro link_of_same) (simp_all add: downloaded_def)
      with False v show ?thesis by simp
    qed
    with solo_served [of "link_of E p ?a w" ?k "link_of E p ?a w'"] k r x l show ?thesis by (simp add: fits_def)
  qed
qed

text \<open>Whether the caller of a deletion may delete the row that answers for its alias.\<close>

definition may_drop :: "db_env \<Rightarrow> delete_file \<Rightarrow> world \<Rightarrow> bool" where
  "may_drop E c w =
     (case find (live_row E (w_clock w) (del_Alias c)) (w_table w) of
        None \<Rightarrow> False
      | Some r \<Rightarrow> checkAccess (row_file r) (ui_UserID (del_User c)) (ui_Roles (del_User c)) = None)"

lemma solo_delete:
  assumes w: "calm w" and ok: "shelf_ok E p w" and a: "plain_name (del_Alias c)"
    and s: "Service_DeleteFile (app_service E p cfg B) c w = (r, w')"
  shows "alone (Drop (may_drop E c w)) (link_of E p (del_Alias c) w)
    (case r of Some e \<Rightarrow> Refused | None \<Rightarrow> Dropped) (link_of E p (del_Alias c) w')"
proof -
  let ?a = "del_Alias c" and ?u = "del_User c"
  note u = shelf_okD(1) [OF ok]
  have c: "c = \<lparr>del_Alias = ?a, del_User = ?u\<rparr>" by simp
  show ?thesis
  proof (cases "may_drop E c w")
    case True
    then obtain x where x: "find (live_row E (w_clock w) ?a) (w_table w) = Some x"
      "checkAccess (row_file x) (ui_UserID ?u) (ui_Roles ?u) = None"
      by (auto simp: may_drop_def split: option.splits)
    with calm_service_delete [OF w x, of p cfg B] s c have "r = None" "w' = remove_entry E p ?a w" by auto
    with True solo_dropped [OF _ _ _ link_of_removed [OF u a x(1)]] link_of_live(3) [OF u x(1)] show ?thesis by simp
  next
    case False
    then have "find (live_row E (w_clock w) ?a) (w_table w) = None \<or>
      (\<exists>x. find (live_row E (w_clock w) ?a) (w_table w) = Some x \<and>
        checkAccess (row_file x) (ui_UserID ?u) (ui_Roles ?u) \<noteq> None)"
      by (auto simp: may_drop_def split: option.splits)
    from calm_delete_denied [OF w this, of p cfg B] s c have "(\<exists>e. r = Some e) \<and> w' = w" by auto
    with solo_denied [of "link_of E p ?a w" "may_drop E c w"] False show ?thesis by auto
  qed
qed

text \<open>Whether the batch of the worker reaches the row of an alias.\<close>

definition in_batch :: "db_env \<Rightarrow> string \<Rightarrow> world \<Rightarrow> bool" where
  "in_batch E a w = (case row_of E a w of None \<Rightarrow> False | Some r \<Rightarrow> r \<in> set (batch E w))"

lemma solo_tick:
  assumes w: "calm w" and ok: "shelf_ok (sys_env S) (sys_path S) w" and a: "plain_name a"
    and t: "FileWorker_tick (sys_worker S) w = (go, w')"
  shows "alone (Purge (in_batch (sys_env S) a w)) (link_of (sys_env S) (sys_path S) a w)
    (if in_batch (sys_env S) a w then Purged else Refused) (link_of (sys_env S) (sys_path S) a w')"
proof -
  let ?E = "sys_env S" and ?p = "sys_path S"
  note u = shelf_okD(1) [OF ok]
  have w': "w' = swept ?E ?p w" using calm_tick [OF w, of S] t by simp
  have row: "row_of ?E a w' = (case row_of ?E a w of None \<Rightarrow> None | Some r \<Rightarrow> if r \<in> set (batch ?E w) then None else Some r)"
  proof (cases "row_of ?E a w")
    case None
    then have "\<forall>x \<in> set (w_table w'). \<not> same_alias (collate ?E) a (row_file x)"
      by (auto simp: w' swept_table [OF u] row_of_def find_None_iff)
    then have "row_of ?E a w' = None" by (simp add: row_of_def find_None_iff)
    with None show ?thesis by simp
  next
    case (Some r)
    with row_ofD [OF Some] have "unique_aliases (collate ?E) (rows_of w')" "r \<notin> set (batch ?E w) \<Longrightarrow> r \<in> set (w_table w')"
      using swept_unique [OF u] by (simp_all add: w' swept_table [OF u])
    with row_of_unique [of ?E w' r a] row_ofD [OF Some] Some row_of_unique [OF u, of _ a] show ?thesis
      by (auto simp: w' swept_table [OF u] row_of_def find_None_iff)
  qed
  have same: "a \<in> f_Alias ` row_file ` set (batch ?E w) \<Longrightarrow> in_batch ?E a w"
    using row_of_unique [OF u, of _ a] batch_rows by (fastforce simp: in_batch_def same_alias_def)
  have own: "folder_of ?p w a = None" if "a \<notin> f_Alias ` row_file ` set (batch ?E w)" "in_batch ?E a w"
  proof (rule ccontr)
    assume d: "folder_of ?p w a \<noteq> None"
    from that(2) obtain r where r: "row_of ?E a w = Some r" "r \<in> set (batch ?E w)" by (auto simp: in_batch_def split: option.splits)
    with row_ofD [OF r(1)] shelf_own [OF ok a d, of "row_file r"] that(1) show False by (auto simp: rows_of_def)
  qed
  have fol: "folder_of ?p w' a = (if in_batch ?E a w then None else folder_of ?p w a)"
    using swept_folder [OF ok a] same own by (auto simp: w')
  show ?thesis
  proof (cases "in_batch ?E a w")
    case True
    then obtain r where r: "row_of ?E a w = Some r" "r \<in> set (batch ?E w)" by (auto simp: in_batch_def split: option.splits)
    have "l_row (link_of ?E ?p a w) \<noteq> None" "l_due (link_of ?E ?p a w)" "l_lock (link_of ?E ?p a w) = None"
      using r batch_rows [OF r(2)] by (auto simp: link_of_def)
    from solo_purged [OF this] True r row fol show ?thesis by (simp add: agree_def link_of_def)
  next
    case False
    then have "row_of ?E a w' = row_of ?E a w" using row by (auto simp: in_batch_def split: option.splits)
    moreover have "w_clock w' = w_clock w" by (simp add: w' swept_def)
    ultimately have "link_of ?E ?p a w' = link_of ?E ?p a w" using fol False by (simp add: link_of_def cong: option.case_cong)
    with False solo_idle [of "link_of ?E ?p a w" False] show ?thesis by (simp add: link_of_def)
  qed
qed

end
