(* ===== verification/Overlapping_Uploads.thy ===== *)
theory Overlapping_Uploads
  imports Calm_World
begin

text \<open>
  Overlapping uploads of one user.  \<open>UploadFile\<close> asks for the statistics of the user and compares
  them with the quota before it opens its transaction; the row is inserted later, and nothing keeps
  another upload from being checked in between.  Here the method is cut at that point, and any
  number of uploads run their first parts before any of them runs its second part.
\<close>

subsection \<open>The two parts of an upload\<close>

definition upload_check :: "'w service \<Rightarrow> upload_file \<Rightarrow> 'w \<Rightarrow> goerr option \<times> 'w" where
  "upload_check fs command w =
     (let fn = ''services.file.Service.UploadFile'' in
      case repo_GetFilesStatByUserID (fs_fileRepo fs) (ui_UserID (uf_User command)) w of
        (Inl err, w1) \<Rightarrow> (Some (svc_err isCtxError fn ''failed to get files stat by user id'' err), w1)
      | (Inr filesStat, w1) \<Rightarrow>
          (map_option (errorf (fn @ '': failed to upload quote: ''))
             (checkUploadQuote (fs_cfg fs) filesStat (uf_Filesize command) (ui_Roles (uf_User command))), w1))"

definition upload_store ::
  "'w service \<Rightarrow> (nat \<Rightarrow> 64 word) \<Rightarrow> nat \<Rightarrow> upload_file \<Rightarrow> 'w \<Rightarrow> (string result \<times> 'w) run" where
  "upload_store fs rnd salt command w =
     (case Gen rnd (AliasLength (fs_cfg fs)) of
        None \<Rightarrow> Diverges
      | Some (Inl panic) \<Rightarrow> Panics panic
      | Some (Inr genAlias) \<Rightarrow> Returns (upload_with_alias fs salt command genAlias w))"

text \<open>One after the other they are the method.\<close>

lemma UploadFile_parts:
  "Service_UploadFile rnd salt fs command w =
     (case upload_check fs command w of
        (Some err, w1) \<Rightarrow> Returns (Inl err, w1)
      | (None, w1) \<Rightarrow> upload_store fs rnd salt command w1)"
  by (simp add: Service_UploadFile_def upload_check_def upload_store_def Let_def split: prod.split sum.split option.split)

subsection \<open>Any number at once\<close>

text \<open>A request: the random words of its alias, the salt of its hash, its command.\<close>

type_synonym upload_call = "(nat \<Rightarrow> 64 word) \<times> nat \<times> upload_file"

fun check_all :: "'w service \<Rightarrow> upload_call list \<Rightarrow> 'w \<Rightarrow> (upload_call \<times> goerr option) list \<times> 'w" where
  "check_all fs [] w = ([], w)"
| "check_all fs ((rnd, salt, c) # us) w =
     (case upload_check fs c w of (err, w1) \<Rightarrow>
     (case check_all fs us w1 of (vs, w2) \<Rightarrow> (((rnd, salt, c), err) # vs, w2)))"

fun store_all :: "'w service \<Rightarrow> (upload_call \<times> goerr option) list \<Rightarrow> 'w \<Rightarrow> (string result list \<times> 'w) run" where
  "store_all fs [] w = Returns ([], w)"
| "store_all fs (((rnd, salt, c), err) # vs) w =
     bind_run (case err of Some e \<Rightarrow> Returns (Inl e, w) | None \<Rightarrow> upload_store fs rnd salt c w)
       (\<lambda>(r, w1). bind_run (store_all fs vs w1) (\<lambda>(rs, w2). Returns (r # rs, w2)))"

definition overlapping_uploads :: "'w service \<Rightarrow> upload_call list \<Rightarrow> 'w \<Rightarrow> (string result list \<times> 'w) run" where
  "overlapping_uploads fs us w = (case check_all fs us w of (vs, w1) \<Rightarrow> store_all fs vs w1)"

text \<open>What the second part needs to succeed, given the alias it draws.\<close>

definition storable ::
  "db_env \<Rightarrow> string \<Rightarrow> service_cfg \<Rightarrow> bcrypt \<Rightarrow> world \<Rightarrow> upload_call \<Rightarrow> string \<Rightarrow> bool" where
  "storable E p cfg B w u a \<longleftrightarrow> (case u of (rnd, salt, c) \<Rightarrow>
     Gen rnd (AliasLength cfg) = Some (Inr a) \<and> (\<exists>h. hash_password B salt (uf_Password c) = Inr h \<and> fits_columns E c a h w) \<and>
     valid_name (Base (uf_Filename c)) \<and> plain_name a \<and> free_alias E p a w)"

lemma storable_later:
  assumes "storable E p cfg B w u b" "plain_name a" "collate E a \<noteq> collate E b"
  shows "storable E p cfg B (uploaded E p c a h w) u b"
proof -
  have "Join p a \<noteq> Join p b" if "plain_name b" using assms(2,3) that Join_inj by auto
  with assms show ?thesis
    by (auto simp: storable_def free_alias_def fits_columns_def uploaded_def new_row_def same_alias_def folder_of_def)
qed

text \<open>The first parts: no call changes anything.\<close>

lemma check_all_calm:
  assumes "calm w" "sql_stat_by_user u (w_clock w) (w_table w) = Inr (n, z)"
    and "\<forall>(rnd, salt, c) \<in> set us. ui_UserID (uf_User c) = u \<and>
      checkUploadQuote cfg \<lparr>fst_UserID = u, fst_Count = n, fst_Size = z\<rparr> (uf_Filesize c) (ui_Roles (uf_User c)) = None"
  shows "check_all (app_service E p cfg B) us w = (map (\<lambda>u. (u, None)) us, w)"
  using assms(3)
proof (induction us)
  case Nil
  then show ?case by simp
next
  case (Cons x us)
  obtain rnd salt c where x: "x = (rnd, salt, c)" by (cases x) auto
  from assms(1,2) have "repo_GetFilesStatByUserID (NewFileRepo E) u w =
      (Inr \<lparr>fst_UserID = u, fst_Count = n, fst_Size = z\<rparr>, w)"
    by (simp add: calm_stat calm_def)
  with Cons x show ?case by (simp add: upload_check_def Let_def)
qed

text \<open>The second parts: every one adds its row.\<close>

lemma store_all_calm:
  assumes "list_all2 (storable E p cfg B w) us as" "distinct (map (collate E) as)" "calm w"
    and "\<forall>(rnd, salt, c) \<in> set us. ui_UserID (uf_User c) = u"
  shows "\<exists>w'. store_all (app_service E p cfg B) (map (\<lambda>u. (u, None)) us) w = Returns (map Inr as, w') \<and>
    map f_Size (filter (\<lambda>f. f_UserID f = u) (rows_of w')) =
    map f_Size (filter (\<lambda>f. f_UserID f = u) (rows_of w)) @ map (\<lambda>(rnd, salt, c). uf_Filesize c) us"
  using assms
proof (induction us arbitrary: as w)
  case Nil
  then show ?case by simp
next
  case (Cons x us)
  obtain rnd salt c where x: "x = (rnd, salt, c)" by (cases x) auto
  from Cons.prems(1) obtain a bs where as: "as = a # bs" and s: "storable E p cfg B w x a"
    and ss: "list_all2 (storable E p cfg B w) us bs" by (auto simp: list_all2_Cons1)
  from s x obtain h where h: "hash_password B salt (uf_Password c) = Inr h" "fits_columns E c a h w" and a: "plain_name a" "free_alias E p a w"
    "valid_name (Base (uf_Filename c))" "Gen rnd (AliasLength cfg) = Some (Inr a)" by (auto simp: storable_def)
  let ?w = "uploaded E p c a h w"
  have "list_all2 (storable E p cfg B ?w) us bs"
    using ss
  proof (rule list.rel_mono_strong)
    fix y b assume "b \<in> set bs" "storable E p cfg B w y b"
    with Cons.prems(2) as show "storable E p cfg B ?w y b" by (intro storable_later a) auto
  qed
  moreover have "distinct (map (collate E) bs)" "calm ?w" "\<forall>(rnd, salt, c) \<in> set us. ui_UserID (uf_User c) = u"
    using Cons.prems as by (auto simp: uploaded_def calm_def)
  ultimately obtain w' where w': "store_all (app_service E p cfg B) (map (\<lambda>u. (u, None)) us) ?w = Returns (map Inr bs, w')"
    "map f_Size (filter (\<lambda>f. f_UserID f = u) (rows_of w')) =
      map f_Size (filter (\<lambda>f. f_UserID f = u) (rows_of ?w)) @ map (\<lambda>(rnd, salt, c). uf_Filesize c) us"
    using Cons.IH by blast
  have "upload_store (app_service E p cfg B) rnd salt c w = Returns (Inr a, ?w)"
    using a(4) calm_upload_with_alias [OF Cons.prems(3) h(1) a(2,3) h(2), of cfg] by (simp add: upload_store_def)
  moreover have "map f_Size (filter (\<lambda>f. f_UserID f = u) (rows_of ?w)) =
      map f_Size (filter (\<lambda>f. f_UserID f = u) (rows_of w)) @ [uf_Filesize c]"
    using Cons.prems(4) x by (simp add: rows_of_def uploaded_def new_row_def)
  ultimately show ?case using w' x as by simp
qed

end
