(* ===== verification/Go_Time.thy ===== *)
theory Go_Time
  imports Go_Strings "HOL-Library.Log_Nat"
begin

text \<open>
  The functions of Go's \<open>time\<close> package behind the texts of durations: \<open>time.ParseDuration\<close>, and
  \<open>Hours\<close>, \<open>Minutes\<close> and \<open>Seconds\<close>, which compute in float64.  Rounding to 53 bits,
  ties to even, is written out on natural numbers: a positive float64 value is \<open>n / 2^k\<close>.
\<close>

subsection \<open>float64\<close>

definition round53 :: "nat \<Rightarrow> nat" where
  "round53 n =
     (let b = floorlog 2 n in
      if b \<le> 53 then n
      else (let s = b - 53; q = n div 2 ^ s; r = n mod 2 ^ s; half = 2 ^ (s - 1)
            in (if r > half \<or> r = half \<and> odd q then q + 1 else q) * 2 ^ s))"

text \<open>The quotient of two float64 integers: the numerator and the exponent of the denominator.\<close>

definition fl_quot :: "nat \<Rightarrow> nat \<Rightarrow> nat \<times> nat" where
  "fl_quot r d =
     (if r = 0 then (0, 0)
      else (let k = 55 + floorlog 2 d; q = r * 2 ^ k div d
            in (round53 (2 * q + (if r * 2 ^ k mod d = 0 then 0 else 1)), k + 1)))"

text \<open>
  \<open>int(d.Hours())\<close> and its like: the whole units and the quotient of the rest are added in
  float64 and the sum is truncated.
\<close>

definition float_units :: "nat \<Rightarrow> int \<Rightarrow> int" where
  "float_units unit d =
     (let n = nat \<bar>d\<bar>; (m, k) = fl_quot (n mod unit) unit
      in sgn d * int (round53 (n div unit * 2 ^ k + m) div 2 ^ k))"

lemma round53_id: "n < 2 ^ 53 \<Longrightarrow> round53 n = n"
  using floorlog_leI [of n 2 53] by (simp add: round53_def Let_def)

text \<open>Whole units come out exactly.\<close>

lemma float_units_exact:
  assumes "0 < unit" "0 \<le> d" "d mod int unit = 0" "d div int unit < 2 ^ 53"
  shows "float_units unit d = d div int unit"
proof -
  obtain n where d: "d = int n" using assms(2) nonneg_int_cases by blast
  have "int (n mod unit) = 0" using assms(3) unfolding d by (simp only: zmod_int)
  then have r: "n mod unit = 0" by (simp only: of_nat_eq_0_iff)
  have "int (n div unit) < 2 ^ 53" using assms(4) unfolding d by (simp only: zdiv_int)
  then have "n div unit < 2 ^ 53" by simp
  then have "round53 (n div unit) = n div unit" by (rule round53_id)
  with r show ?thesis
    by (cases "n = 0") (simp_all add: float_units_def fl_quot_def d zdiv_int)
qed

subsection \<open>time.ParseDuration\<close>

definition unitMap :: "string \<Rightarrow> nat option" where
  "unitMap u =
     map_of [(''ns'', 1), (''us'', 1000), ([CHR 0xC2, CHR 0xB5, CHR ''s''], 1000),
             ([CHR 0xCE, CHR 0xBC, CHR ''s''], 1000), (''ms'', 1000000), (''s'', 1000000000),
             (''m'', 60000000000), (''h'', 3600000000000)] u"

fun leadingInt :: "string \<Rightarrow> nat \<Rightarrow> (nat \<times> string) option" where
  "leadingInt [] x = Some (x, [])"
| "leadingInt (c # cs) x =
     (if \<not> isDigit c then Some (x, c # cs)
      else if x > 2 ^ 63 div 10 then None
      else (let y = x * 10 + digitVal c in if y > 2 ^ 63 then None else leadingInt cs y))"

fun leadingFraction :: "string \<Rightarrow> nat \<Rightarrow> nat \<Rightarrow> bool \<Rightarrow> nat \<times> nat \<times> string" where
  "leadingFraction [] x scale ov = (x, scale, [])"
| "leadingFraction (c # cs) x scale ov =
     (if \<not> isDigit c then (x, scale, c # cs)
      else if ov then leadingFraction cs x scale ov
      else if x > (2 ^ 63 - 1) div 10 then leadingFraction cs x scale True
      else (let y = x * 10 + digitVal c in
            if y > 2 ^ 63 then leadingFraction cs x scale True
            else leadingFraction cs y (round53 (scale * 10)) False))"

definition invalid_duration :: "'a result" where
  "invalid_duration = Inl (NewErr ''time: invalid duration'')"

definition fraction_value :: "nat \<Rightarrow> nat \<Rightarrow> nat \<Rightarrow> nat" where
  "fraction_value f unit scale =
     (case fl_quot unit scale of (m, k) \<Rightarrow> round53 (round53 f * m) div 2 ^ k)"

text \<open>One number with its unit: its value and what follows it.\<close>

definition parse_unit :: "string \<Rightarrow> (nat \<times> string) result" where
  "parse_unit s =
     (if s = [] \<or> \<not> (hd s = CHR ''.'' \<or> isDigit (hd s)) then invalid_duration
      else (case leadingInt s 0 of
        None \<Rightarrow> invalid_duration
      | Some (v, s1) \<Rightarrow>
         (let pre = length s \<noteq> length s1;
              point = (s1 \<noteq> [] \<and> hd s1 = CHR ''.'');
              (f, scale, s2) = (if point then leadingFraction (tl s1) 0 1 False else (0, 1, s1));
              post = point \<and> length (tl s1) \<noteq> length s2;
              u = takeWhile (\<lambda>c. c \<noteq> CHR ''.'' \<and> \<not> isDigit c) s2;
              s3 = drop (length u) s2
          in if \<not> pre \<and> \<not> post then invalid_duration
             else if u = [] then invalid_duration
             else (case unitMap u of
                None \<Rightarrow> invalid_duration
              | Some unit \<Rightarrow>
                  if v > 2 ^ 63 div unit then invalid_duration
                  else (let v2 = v * unit + (if f > 0 then fraction_value f unit scale else 0)
                        in if v2 > 2 ^ 63 then invalid_duration else Inr (v2, s3))))))"

lemma leadingInt_length: "leadingInt s x = Some (v, t) \<Longrightarrow> length t \<le> length s"
  by (induction s x rule: leadingInt.induct) (auto simp: Let_def split: if_splits)

lemma leadingFraction_length: "leadingFraction s x sc ov = (f, sc', t) \<Longrightarrow> length t \<le> length s"
  by (induction s x sc ov rule: leadingFraction.induct) (auto simp: Let_def split: if_splits)

lemma parse_unit_length: "parse_unit s = Inr (v, t) \<Longrightarrow> length t < length s"
proof -
  assume p: "parse_unit s = Inr (v, t)"
  then obtain n s1 where 1: "leadingInt s 0 = Some (n, s1)"
    by (auto simp: parse_unit_def invalid_duration_def split: if_splits option.splits)
  obtain f sc s2 where 2: "(if s1 \<noteq> [] \<and> hd s1 = CHR ''.'' then leadingFraction (tl s1) 0 1 False
      else (0, 1, s1)) = (f, sc, s2)" by (metis prod_cases3)
  from 2 have "length s2 \<le> length s1"
    by (auto split: if_splits dest!: leadingFraction_length)
  moreover have "length s1 \<le> length s" using 1 leadingInt_length by blast
  moreover have "takeWhile (\<lambda>c. c \<noteq> CHR ''.'' \<and> \<not> isDigit c) s2 \<noteq> []"
    "t = drop (length (takeWhile (\<lambda>c. c \<noteq> CHR ''.'' \<and> \<not> isDigit c) s2)) s2"
    using p 1 2 unfolding parse_unit_def invalid_duration_def Let_def
    by (auto split: if_split_asm option.split_asm)
  moreover have "length (takeWhile (\<lambda>c. c \<noteq> CHR ''.'' \<and> \<not> isDigit c) s2) \<le> length s2"
    by (rule length_takeWhile_le)
  ultimately show ?thesis by (cases s2) auto
qed

function parse_units :: "string \<Rightarrow> nat \<Rightarrow> nat result" where
  "parse_units s d =
     (if s = [] then Inr d
      else (case parse_unit s of
        Inl e \<Rightarrow> Inl e
      | Inr (v, t) \<Rightarrow>
          (let d2 = (d + v) mod 2 ^ 64 in
           if d2 > 2 ^ 63 then invalid_duration else parse_units t d2)))"
  by pat_completeness auto

termination
  by (relation "measure (\<lambda>(s, d). length s)") (auto dest: parse_unit_length)

declare parse_units.simps [simp del]

definition ParseDuration :: "string \<Rightarrow> int result" where
  "ParseDuration orig =
     (let signed = (orig \<noteq> [] \<and> (hd orig = CHR ''-'' \<or> hd orig = CHR ''+''));
          neg = (signed \<and> hd orig = CHR ''-'');
          s = (if signed then tl orig else orig)
      in if s = ''0'' then Inr 0
         else if s = [] then invalid_duration
         else (case parse_units s 0 of
                 Inl e \<Rightarrow> Inl e
               | Inr d \<Rightarrow>
                   if neg then Inr (wrap64 (- int d))
                   else if d > 2 ^ 63 - 1 then invalid_duration
                   else Inr (int d)))"

lemma parse_units_bound: "parse_units s d = Inr r \<Longrightarrow> d \<le> 2 ^ 63 \<Longrightarrow> r \<le> 2 ^ 63"
proof (induction s d rule: parse_units.induct)
  case (1 s d)
  show ?case
  proof (cases "s = []")
    case True
    with "1.prems" show ?thesis by (simp add: parse_units.simps)
  next
    case False
    with "1.prems" obtain v t where p: "parse_unit s = Inr (v, t)"
      by (auto simp: parse_units.simps [of s] invalid_duration_def split: sum.splits)
    with "1.prems" False have "(d + v) mod 2 ^ 64 \<le> 2 ^ 63" "parse_units t ((d + v) mod 2 ^ 64) = Inr r"
      by (auto simp: parse_units.simps [of s] invalid_duration_def Let_def split: if_splits)
    with "1.IH" [OF False p] show ?thesis by auto
  qed
qed

text \<open>A duration that is accepted is an int64, and one without a sign is not negative.\<close>

lemma ParseDuration_range:
  assumes "ParseDuration s = Inr d"
  shows "int64_range d \<and> (s \<noteq> [] \<longrightarrow> hd s \<noteq> CHR ''-'' \<longrightarrow> 0 \<le> d)"
proof -
  have w: "int64_range (wrap64 x)" for x
    unfolding int64_range_def wrap64_def
    using signed_take_bit_int_less_exp [of 63 x] signed_take_bit_int_greater_eq_minus_exp [of 63 x] by simp
  show ?thesis
    using assms w
    by (auto simp: ParseDuration_def Let_def invalid_duration_def int64_range_def
        split: if_splits sum.splits)
qed

end
