(* ===== verification/Http.thy ===== *)
theory Http
  imports Entities Go_Time
begin

text \<open>
  What the handlers and middlewares share: requests with their context values, what a handler does
  to the response, and the packages \<open>internal/delivery/util\<close> and \<open>.../util/response\<close>.

  A response is the list of what the code asked for, in order: a JSON value rendered with a status
  (\<open>render.Status\<close> and \<open>render.JSON\<close> of the chi packages, which are not part of the repository),
  a header set, bytes copied, a deadline set.  \<open>sent_status\<close> is the status the client sees: the
  first write decides, and a handler that writes nothing sends 200.
\<close>

subsection \<open>Requests and responses\<close>

datatype json =
    JStr string | JInt int | JBool bool | JTime instant | JArr "json list" | JObj "(string \<times> json) list"

datatype reply =
    Rendered int json | HeaderSet string string | Copied string
  | ReadDeadline instant | WriteDeadline instant

type_synonym replies = "reply list"

fun sent_status :: "replies \<Rightarrow> int" where
  "sent_status [] = 200"
| "sent_status (Rendered s j # rs) = s"
| "sent_status (Copied b # rs) = 200"
| "sent_status (_ # rs) = sent_status rs"

text \<open>Whether anything is written at all.\<close>

fun is_written :: "reply \<Rightarrow> bool" where
  "is_written (Rendered s j) = True"
| "is_written (Copied b) = True"
| "is_written _ = False"

definition unanswered :: "replies \<Rightarrow> bool" where
  "unanswered rs \<longleftrightarrow> \<not> list_ex is_written rs"

text \<open>The bodies that \<open>NewBodyParser\<close> puts into the context.\<close>

datatype payload =
    LoginRequest (lr_Login: string) (lr_Password: string)
  | RegisterRequest (rr_Login: string) (rr_Email: string) (rr_Password: string)
  | RefreshRequest (rf_RefreshToken: string)
  | LogoutRequest (lo_AccessToken: string) (lo_RefreshToken: string)
  | AssignRequest (as_Role: string)
  | RevokeRequest (rv_Role: string)

text \<open>The type arguments of the generic middlewares, and the type of a body.\<close>

datatype body_type = LoginT | RegisterT | RefreshT | LogoutT | AssignT | RevokeT

fun type_of :: "payload \<Rightarrow> body_type" where
  "type_of (LoginRequest l p) = LoginT"
| "type_of (RegisterRequest l e p) = RegisterT"
| "type_of (RefreshRequest t) = RefreshT"
| "type_of (LogoutRequest a t) = LogoutT"
| "type_of (AssignRequest r) = AssignT"
| "type_of (RevokeRequest r) = RevokeT"

text \<open>
  \<open>rq_Header\<close>, \<open>rq_Query\<close>, \<open>rq_URLParam\<close> and \<open>rq_FormValue\<close> give the empty string for
  what is not there, as the Go methods do.  \<open>rq_ParseForm\<close> holds when \<open>ParseMultipartForm\<close>
  succeeds with the given memory limit.
\<close>

record request =
  rq_Method :: string
  rq_RemoteAddr :: string
  rq_Header :: "string \<Rightarrow> string"
  rq_Query :: "string \<Rightarrow> string"
  rq_URLParam :: "string \<Rightarrow> string"
  rq_ContentLength :: int
  rq_Body :: string
  rq_ParseForm :: "int \<Rightarrow> bool"
  rq_FormValue :: "string \<Rightarrow> string"
  rq_FormFile :: "string \<Rightarrow> (string \<times> string) option"
  ctx_UserID :: "int option"
  ctx_Roles :: "user_role list option"
  ctx_Payload :: "payload option"

type_synonym 'w handler = "request \<Rightarrow> replies \<Rightarrow> 'w \<Rightarrow> (replies \<times> 'w) run"

subsection \<open>Error texts\<close>

definition grpc_code_name :: "grpc_code \<Rightarrow> string" where
  "grpc_code_name c = (case c of
      CodeCanceled \<Rightarrow> ''Canceled'' | CodeInvalidArgument \<Rightarrow> ''InvalidArgument''
    | CodeDeadlineExceeded \<Rightarrow> ''DeadlineExceeded'' | CodeNotFound \<Rightarrow> ''NotFound''
    | CodeAlreadyExists \<Rightarrow> ''AlreadyExists'' | CodeResourceExhausted \<Rightarrow> ''ResourceExhausted''
    | CodeUnauthenticated \<Rightarrow> ''Unauthenticated'' | OtherCode n \<Rightarrow> ''Code('' @ dec n @ '')'')"

definition ext_text :: "ext_err \<Rightarrow> string" where
  "ext_text e = (case e of
      Canceled \<Rightarrow> ''context canceled'' | DeadlineExceeded \<Rightarrow> ''context deadline exceeded''
    | NoRows \<Rightarrow> ''sql: no rows in result set''
    | TxDone \<Rightarrow> ''sql: transaction has already been committed or rolled back''
    | MySQLError n m \<Rightarrow> m
    | GrpcStatus c m \<Rightarrow> ''rpc error: code = '' @ grpc_code_name c @ '' desc = '' @ m
    | NotExist \<Rightarrow> ''file does not exist'' | EPIPE \<Rightarrow> ''broken pipe''
    | ClosedPipe \<Rightarrow> ''io: read/write on closed pipe'' | OtherErr m \<Rightarrow> m)"

fun error_text :: "goerr \<Rightarrow> string" where
  "error_text (Sentinel s) = sentinel_text s"
| "error_text (Ext x) = ext_text x"
| "error_text (NewErr m) = m"
| "error_text (Wrapf pre e post) = pre @ error_text e @ post"

subsection \<open>internal/lib/log/sl\<close>

text \<open>
  The attribute that the log calls carry: the key and the text of the error.  The method \<open>Error\<close> of a
  nil interface panics.  Where the error cannot be nil, building the attribute has no effect and the
  handlers below leave the log calls out.
\<close>

definition sl_Error :: "goerr option \<Rightarrow> (string \<times> string) boot" where
  "sl_Error err = (case err of None \<Rightarrow> Crashes nil_panic | Some e \<Rightarrow> Built (''error'', error_text e))"

subsection \<open>response.go\<close>

text \<open>\<open>Response\<close> has one field, \<open>errors\<close>, left out when empty.\<close>

definition errors_field :: "string list \<Rightarrow> (string \<times> json) list" where
  "errors_field errs = (if errs = [] then [] else [(''errors'', JArr (map JStr errs))])"

definition Error :: "string list \<Rightarrow> json" where
  "Error errorMessages = JObj (errors_field errorMessages)"

record field_error =
  fe_ActualTag :: string
  fe_Field :: string
  fe_Param :: string

definition validation_message :: "field_error \<Rightarrow> string" where
  "validation_message err =
     (if fe_ActualTag err = ''min''
      then fe_Field err @ '' must be greater or equal than '' @ fe_Param err
      else if fe_ActualTag err = ''required'' then fe_Field err @ '' is required''
      else if fe_ActualTag err = ''url'' then fe_Field err @ '' is not a URL''
      else fe_Field err @ '' is not a valid value'')"

definition ValidationError :: "field_error list \<Rightarrow> json" where
  "ValidationError errs = JObj (errors_field (map validation_message errs))"

definition RenderError :: "int \<Rightarrow> string \<Rightarrow> replies \<Rightarrow> replies" where
  "RenderError statusCode errorMessage w = w @ [Rendered statusCode (Error [errorMessage])]"

definition RenderValidationError :: "field_error list \<Rightarrow> replies \<Rightarrow> replies" where
  "RenderValidationError errs w = w @ [Rendered 422 (ValidationError errs)]"

definition RenderFileServiceError :: "goerr \<Rightarrow> replies \<Rightarrow> bool \<times> replies" where
  "RenderFileServiceError err w =
     (if errors_Is err (Sentinel ErrFileNotFound)
      then (True, RenderError 404 ''file with current alias not found'' w)
      else if errors_Is err (Sentinel ErrFilePasswordRequired)
      then (True, RenderError 401 ''password for file is required'' w)
      else if errors_Is err (Sentinel ErrFilePasswordInvalid)
      then (True, RenderError 403 ''invalid password'' w)
      else if errors_Is err (Sentinel ErrFileSizeTooBig)
      then (True, RenderError 413 ''file size is very big'' w)
      else if errors_Is err (Sentinel ErrForbidden)
      then (True, RenderError 403 ''forbidden'' w)
      else if errors_Is err (Sentinel ErrUploadLimitExceeded)
      then (True, RenderError 403
              ''your upload limit exceeded. delete unnecessary files to upload new'' w)
      else (False, w))"

definition RenderAuthServiceError :: "goerr \<Rightarrow> replies \<Rightarrow> bool \<times> replies" where
  "RenderAuthServiceError err w =
     (if errors_Is err (Sentinel ErrAccessTokenExpired)
      then (True, RenderError 401 ''access token is expired, refresh or login again'' w)
      else if errors_Is err (Sentinel ErrAccessTokenRevoked)
      then (True, RenderError 401 ''access token is revoked, refresh or login again'' w)
      else if errors_Is err (Sentinel ErrInvalidArgument)
      then (True, RenderError 422 (error_text err) w)
      else if errors_Is err (Sentinel ErrInvalidAccessToken)
      then (True, RenderError 401 ''invalid access token'' w)
      else if errors_Is err (Sentinel ErrUserAlreadyExists)
      then (True, RenderError 409 ''user with this login or email already exists'' w)
      else if errors_Is err (Sentinel ErrRoleNotExist)
      then (True, RenderError 404 ''user has not this role'' w)
      else if errors_Is err (Sentinel ErrTooManyRequests)
      then (True, RenderError 429 ''too many requests. try again later'' w)
      else if errors_Is err (Sentinel ErrUserNotFound)
      then (True, RenderError 404 ''user not found'' w)
      else if errors_Is err (Sentinel ErrInvalidCredentials)
      then (True, RenderError 401 ''login or password is invalid'' w)
      else if errors_Is err (Sentinel ErrInvalidRefreshToken)
      then (True, RenderError 401 ''refresh token is invalid'' w)
      else (False, w))"

text \<open>The statuses of the two tables, by sentinel.\<close>

fun file_error_status :: "sentinel \<Rightarrow> int option" where
  "file_error_status ErrFileNotFound = Some 404"
| "file_error_status ErrFilePasswordRequired = Some 401"
| "file_error_status ErrFilePasswordInvalid = Some 403"
| "file_error_status ErrFileSizeTooBig = Some 413"
| "file_error_status ErrForbidden = Some 403"
| "file_error_status ErrUploadLimitExceeded = Some 403"
| "file_error_status _ = None"

fun auth_error_status :: "sentinel \<Rightarrow> int option" where
  "auth_error_status ErrAccessTokenExpired = Some 401"
| "auth_error_status ErrAccessTokenRevoked = Some 401"
| "auth_error_status ErrInvalidArgument = Some 422"
| "auth_error_status ErrInvalidAccessToken = Some 401"
| "auth_error_status ErrUserAlreadyExists = Some 409"
| "auth_error_status ErrRoleNotExist = Some 404"
| "auth_error_status ErrTooManyRequests = Some 429"
| "auth_error_status ErrUserNotFound = Some 404"
| "auth_error_status ErrInvalidCredentials = Some 401"
| "auth_error_status ErrInvalidRefreshToken = Some 401"
| "auth_error_status _ = None"

definition leaf_status :: "(sentinel \<Rightarrow> int option) \<Rightarrow> goerr \<Rightarrow> int option" where
  "leaf_status table err = (case leaf_of err of Sentinel s \<Rightarrow> table s | _ \<Rightarrow> None)"

lemma errors_Is_sentinel: "errors_Is err (Sentinel s) \<longleftrightarrow> leaf_of err = Sentinel s"
  by (metis is_domain_def is_domain_leaf)

lemma RenderFileServiceError_status:
  "case leaf_status file_error_status err of
     None \<Rightarrow> RenderFileServiceError err w = (False, w)
   | Some s \<Rightarrow> \<exists>j. RenderFileServiceError err w = (True, w @ [Rendered s j])"
proof (cases "leaf_of err")
  case (Sentinel s)
  then show ?thesis
    unfolding leaf_status_def RenderFileServiceError_def errors_Is_sentinel RenderError_def
    by (cases s) simp_all
qed (simp_all add: leaf_status_def RenderFileServiceError_def errors_Is_sentinel)

lemma RenderAuthServiceError_status:
  "case leaf_status auth_error_status err of
     None \<Rightarrow> RenderAuthServiceError err w = (False, w)
   | Some s \<Rightarrow> \<exists>j. RenderAuthServiceError err w = (True, w @ [Rendered s j])"
proof (cases "leaf_of err")
  case (Sentinel s)
  then show ?thesis
    unfolding leaf_status_def RenderAuthServiceError_def errors_Is_sentinel RenderError_def
    by (cases s) simp_all
qed (simp_all add: leaf_status_def RenderAuthServiceError_def errors_Is_sentinel)

subsection \<open>util.go\<close>

text \<open>\<open>%02d\<close>.\<close>

definition pad2 :: "int \<Rightarrow> string" where
  "pad2 x = (if 0 \<le> x \<and> x < 10 then CHR ''0'' # decInt x else decInt x)"

definition TimeString :: "duration \<Rightarrow> string" where
  "TimeString d =
     pad2 (float_units 3600000000000 d) @ ''h'' @
     pad2 (float_units 60000000000 d smod 60) @ ''m'' @
     pad2 (float_units 1000000000 d smod 60) @ ''s''"

definition IsCtxError :: "goerr \<Rightarrow> bool" where
  "IsCtxError err \<longleftrightarrow> errors_Is err (Ext Canceled) \<or> errors_Is err (Ext DeadlineExceeded)"

lemma IsCtxError_is [simp]: "IsCtxError err = isCtxError err"
  by (simp add: IsCtxError_def isCtxError_def)

definition ExtractIP :: "string \<Rightarrow> string" where
  "ExtractIP remoteAddr =
     (case SplitHostPort remoteAddr of None \<Rightarrow> remoteAddr | Some (host, port) \<Rightarrow> host)"

definition ScanPaginationArgs :: "request \<Rightarrow> int \<times> int" where
  "ScanPaginationArgs r =
     (let page = (case Atoi (rq_Query r ''page'') of Inl _ \<Rightarrow> 1 | Inr p \<Rightarrow> if p < 1 then 1 else p);
          limit = (case Atoi (rq_Query r ''limit'') of
                     Inl _ \<Rightarrow> 10
                   | Inr l \<Rightarrow> if l < 1 then 10 else if l > 100 then 100 else l)
      in (page, limit))"

lemma ScanPaginationArgs_range:
  "ScanPaginationArgs r = (page, limit) \<Longrightarrow> 1 \<le> page \<and> page < 2 ^ 63 \<and> 1 \<le> limit \<and> limit \<le> 100"
  using ParseInt_range [of "rq_Query r ''page''" 64]
  by (auto simp: ScanPaginationArgs_def Atoi_def Let_def split: sum.splits if_splits)

end
