(* ===== verification/Rate_Limiter.thy ===== *)
theory Rate_Limiter
  imports World Go_Time
begin

text \<open>
  \<open>internal/infrastructure/redis/rate_limiter.go\<close>: a fixed-window counter per caller, kept in
  Redis by a Lua script.  The keyspace is a map from keys to a value and an optional expiry; a key
  whose time has come is gone for every command.  \<open>INCR\<close>, \<open>EXPIRE\<close> and \<open>DEL\<close> are what the
  script and the client call.  A call that fails may have taken effect.

  The locale \<open>limiter\<close> is the contract of the interface \<open>RateLimiter\<close> the middlewares use.
\<close>

record redis =
  rd_clock :: instant
  rd_tape :: "tick list"
  rd_keys :: "string \<rightharpoonup> int \<times> instant option"

definition rd_tick :: "redis \<Rightarrow> tick \<times> redis" where
  "rd_tick rd =
     (case rd_tape rd of
        [] \<Rightarrow> (ok_tick, rd)
      | t # ts \<Rightarrow> (t, rd\<lparr>rd_clock := rd_clock rd + int (t_dt t), rd_tape := ts\<rparr>))"

subsection \<open>Redis commands\<close>

definition rd_get :: "redis \<Rightarrow> string \<Rightarrow> (int \<times> instant option) option" where
  "rd_get rd k =
     (case rd_keys rd k of
        None \<Rightarrow> None
      | Some (n, None) \<Rightarrow> Some (n, None)
      | Some (n, Some e) \<Rightarrow> if rd_clock rd < e then Some (n, Some e) else None)"

text \<open>\<open>INCR\<close> keeps the expiry of an existing key; beyond int64 it is an error.\<close>

definition redis_INCR :: "string \<Rightarrow> redis \<Rightarrow> (ext_err + int) \<times> redis" where
  "redis_INCR k rd =
     (case rd_get rd k of
        None \<Rightarrow> (Inr 1, rd\<lparr>rd_keys := (rd_keys rd)(k \<mapsto> (1, None))\<rparr>)
      | Some (n, e) \<Rightarrow>
          if n = 2 ^ 63 - 1 then (Inl (OtherErr ''ERR increment or decrement would overflow''), rd)
          else (Inr (n + 1), rd\<lparr>rd_keys := (rd_keys rd)(k \<mapsto> (n + 1, e))\<rparr>))"

text \<open>\<open>EXPIRE\<close> with a time that is not positive deletes the key.\<close>

definition redis_EXPIRE :: "string \<Rightarrow> int \<Rightarrow> redis \<Rightarrow> redis" where
  "redis_EXPIRE k secs rd =
     (case rd_get rd k of
        None \<Rightarrow> rd
      | Some (n, e) \<Rightarrow>
          if secs \<le> 0 then rd\<lparr>rd_keys := (rd_keys rd)(k := None)\<rparr>
          else rd\<lparr>rd_keys := (rd_keys rd)(k \<mapsto> (n, Some (rd_clock rd + secs * second)))\<rparr>)"

definition redis_DEL :: "string \<Rightarrow> redis \<Rightarrow> redis" where
  "redis_DEL k rd = rd\<lparr>rd_keys := (rd_keys rd)(k := None)\<rparr>"

subsection \<open>The limiter\<close>

definition allowScript :: "string \<Rightarrow> int \<Rightarrow> int \<Rightarrow> int \<Rightarrow> redis \<Rightarrow> (ext_err + int) \<times> redis" where
  "allowScript key mx window block rd =
     (case redis_INCR key rd of
        (Inl err, rd1) \<Rightarrow> (Inl err, rd1)
      | (Inr count, rd1) \<Rightarrow>
          (let rd2 = (if count = 1 then redis_EXPIRE key window rd1 else rd1) in
           if count > mx then (Inr 0, redis_EXPIRE key block rd2) else (Inr 1, rd2)))"

definition prefix :: string where "prefix = ''rate''"

text \<open>\<open>fmt.Sprintf("%s:%s:%s", prefix, rl.params.Field, value)\<close>.\<close>

definition limiter_key :: "rate_limiter_params \<Rightarrow> string \<Rightarrow> string" where
  "limiter_key params value = prefix @ '':'' @ rp_Field params @ '':'' @ value"

text \<open>\<open>int(d.Seconds())\<close>: the seconds of a duration in float64, rounded towards zero.\<close>

definition whole_seconds :: "duration \<Rightarrow> int" where
  "whole_seconds d = float_units 1000000000 d"

definition RateLimiter_Allow :: "rate_limiter_params \<Rightarrow> string \<Rightarrow> redis \<Rightarrow> bool result \<times> redis" where
  "RateLimiter_Allow params value rd =
     (let fn = ''infrastructure.redis.RateLimiter.Allow''; key = limiter_key params value in
      case rd_tick rd of (t, rd1) \<Rightarrow>
      (case allowScript key (rp_MaxAttempts params) (whole_seconds (rp_Window params))
              (whole_seconds (rp_BlockDuration params)) rd1 of (r, rd2) \<Rightarrow>
        (case t_fault t of
           Some err \<Rightarrow> (Inl (errorf (fn @ '': '') (Ext err)), if t_took t then rd2 else rd1)
         | None \<Rightarrow>
             (case r of
                Inl err \<Rightarrow> (Inl (errorf (fn @ '': '') (Ext err)), rd2)
              | Inr res \<Rightarrow> (Inr (res = 1), rd2)))))"

definition RateLimiter_Reset :: "rate_limiter_params \<Rightarrow> string \<Rightarrow> redis \<Rightarrow> goerr option \<times> redis" where
  "RateLimiter_Reset params value rd =
     (let fn = ''infrastructure.redis.RateLimiter.Reset''; key = limiter_key params value in
      case rd_tick rd of (t, rd1) \<Rightarrow>
        (case t_fault t of
           Some err \<Rightarrow> (Some (errorf (fn @ '': failed to del key: '') (Ext err)),
                        if t_took t then redis_DEL key rd1 else rd1)
         | None \<Rightarrow> (None, redis_DEL key rd1)))"

text \<open>How many attempts count against a value now.\<close>

definition hits_of :: "rate_limiter_params \<Rightarrow> redis \<Rightarrow> string \<Rightarrow> int" where
  "hits_of params rd value = (case rd_get rd (limiter_key params value) of None \<Rightarrow> 0 | Some (n, e) \<Rightarrow> n)"

text \<open>Every counter that exists is positive.\<close>

definition redis_ok :: "redis \<Rightarrow> bool" where
  "redis_ok rd \<longleftrightarrow> (\<forall>k n e. rd_keys rd k = Some (n, e) \<longrightarrow> 1 \<le> n)"

subsection \<open>Keys\<close>

lemma limiter_key_inj [simp]: "limiter_key params u = limiter_key params v \<longleftrightarrow> u = v"
  by (simp add: limiter_key_def)

lemma append_sep_inj:
  "c \<notin> set a \<Longrightarrow> c \<notin> set b \<Longrightarrow> a @ c # u = b @ c # v \<longleftrightarrow> a = b \<and> u = v"
proof (induction a arbitrary: b)
  case Nil
  then show ?case by (cases b) auto
next
  case (Cons x a)
  then show ?case by (cases b) auto
qed

text \<open>Limiters with different fields never share a counter, whatever the values contain.\<close>

lemma limiter_key_fields:
  assumes "CHR '':'' \<notin> set (rp_Field p)" "CHR '':'' \<notin> set (rp_Field q)"
  shows "limiter_key p u = limiter_key q v \<longleftrightarrow> rp_Field p = rp_Field q \<and> u = v"
  using append_sep_inj [OF assms] by (simp add: limiter_key_def)

subsection \<open>What the commands do to the counters\<close>

lemma rd_get_tick:
  assumes "rd_tick rd = (t, rd1)"
  shows "rd_get rd1 k = rd_get rd k \<or> rd_get rd1 k = None"
  using assms by (auto simp: rd_tick_def rd_get_def split: list.splits option.splits)

lemma rd_tick_keys: "rd_tick rd = (t, rd1) \<Longrightarrow> rd_keys rd1 = rd_keys rd"
  by (auto simp: rd_tick_def split: list.splits)

lemma redis_ok_tick: "rd_tick rd = (t, rd1) \<Longrightarrow> redis_ok rd1 = redis_ok rd"
  by (simp add: redis_ok_def rd_tick_keys)

lemma rd_get_key: "rd_get rd k = Some x \<Longrightarrow> rd_keys rd k = Some x"
  by (auto simp: rd_get_def split: option.splits if_splits)

lemma rd_get_ok: "redis_ok rd \<Longrightarrow> rd_get rd k = Some (n, e) \<Longrightarrow> 1 \<le> n"
  using rd_get_key unfolding redis_ok_def by blast

lemma rd_get_EXPIRE:
  "rd_get (redis_EXPIRE k s rd) j =
     (if j = k then (case rd_get rd k of None \<Rightarrow> None
        | Some (n, e) \<Rightarrow> if s \<le> 0 then None else Some (n, Some (rd_clock rd + s * second)))
      else rd_get rd j)"
  by (auto simp: redis_EXPIRE_def rd_get_def split: option.splits if_splits)

lemma rd_get_DEL: "rd_get (redis_DEL k rd) j = (if j = k then None else rd_get rd j)"
  by (auto simp: redis_DEL_def rd_get_def split: option.split)

lemma rd_get_upd:
  "rd_get (rd\<lparr>rd_keys := (rd_keys rd)(k \<mapsto> (n, e))\<rparr>) j =
     (if j = k then (case e of None \<Rightarrow> Some (n, None)
        | Some t \<Rightarrow> if rd_clock rd < t then Some (n, Some t) else None)
      else rd_get rd j)"
  by (auto simp: rd_get_def split: option.split)

lemma rd_get_live: "rd_get rd k = Some (n, Some t) \<Longrightarrow> rd_clock rd < t"
  by (auto simp: rd_get_def split: option.splits if_splits)

lemma rd_get_INCR:
  "redis_INCR k rd = (r, rd') \<Longrightarrow>
   rd_get rd' j =
     (if j = k then (case rd_get rd k of None \<Rightarrow> Some (1, None)
        | Some (n, e) \<Rightarrow> if n = 2 ^ 63 - 1 then Some (n, e) else Some (n + 1, e))
      else rd_get rd j)"
proof (cases "rd_get rd k")
  case None
  assume "redis_INCR k rd = (r, rd')"
  with None have "rd' = rd\<lparr>rd_keys := (rd_keys rd)(k \<mapsto> (1, None))\<rparr>" by (simp add: redis_INCR_def)
  with None show ?thesis by (simp add: rd_get_upd)
next
  case (Some x)
  assume i: "redis_INCR k rd = (r, rd')"
  obtain n e where x: "x = (n, e)" by (cases x)
  have "rd' = (if n = 2 ^ 63 - 1 then rd else rd\<lparr>rd_keys := (rd_keys rd)(k \<mapsto> (n + 1, e))\<rparr>)"
    using i Some x by (auto simp: redis_INCR_def split: if_splits)
  with Some x rd_get_live [of rd k n] show ?thesis by (cases e) (auto simp: rd_get_upd)
qed

lemma redis_ok_upd: "redis_ok rd \<Longrightarrow> 1 \<le> n \<Longrightarrow> redis_ok (rd\<lparr>rd_keys := (rd_keys rd)(k \<mapsto> (n, e))\<rparr>)"
  unfolding redis_ok_def by simp

lemma redis_ok_del: "redis_ok rd \<Longrightarrow> redis_ok (rd\<lparr>rd_keys := (rd_keys rd)(k := None)\<rparr>)"
  unfolding redis_ok_def by simp

lemma redis_ok_INCR: "redis_ok rd \<Longrightarrow> redis_INCR k rd = (r, rd') \<Longrightarrow> redis_ok rd'"
proof (cases "rd_get rd k")
  case (Some x)
  assume ok: "redis_ok rd" "redis_INCR k rd = (r, rd')"
  obtain n e where x: "x = (n, e)" by (cases x)
  have "1 \<le> n + 1" using rd_get_ok [OF ok(1)] Some x by fastforce
  with ok Some x show ?thesis by (auto simp: redis_INCR_def split: if_splits intro: redis_ok_upd)
qed (auto simp: redis_INCR_def intro: redis_ok_upd)

lemma redis_ok_EXPIRE: "redis_ok rd \<Longrightarrow> redis_ok (redis_EXPIRE k s rd)"
  using rd_get_ok [of rd k]
  by (auto simp: redis_EXPIRE_def split: option.split intro!: redis_ok_upd redis_ok_del)

lemma redis_ok_DEL: "redis_ok rd \<Longrightarrow> redis_ok (redis_DEL k rd)"
  by (simp add: redis_DEL_def redis_ok_del)

lemmas redis_ok_cmds = redis_ok_INCR redis_ok_EXPIRE redis_ok_DEL

definition count_of :: "redis \<Rightarrow> string \<Rightarrow> int" where
  "count_of rd k = (case rd_get rd k of None \<Rightarrow> 0 | Some (n, e) \<Rightarrow> n)"

lemma count_nonneg: "redis_ok rd \<Longrightarrow> 0 \<le> count_of rd k"
  by (auto simp: count_of_def split: option.splits dest: rd_get_ok)

lemma count_EXPIRE: "redis_ok rd \<Longrightarrow> count_of (redis_EXPIRE k s rd) j \<le> count_of rd j"
  by (auto simp: count_of_def rd_get_EXPIRE split: option.splits dest: rd_get_ok)

lemma count_EXPIRE_other: "j \<noteq> k \<Longrightarrow> count_of (redis_EXPIRE k s rd) j = count_of rd j"
  by (simp add: count_of_def rd_get_EXPIRE)

lemma count_INCR:
  assumes "redis_INCR k rd = (r, rd')" "redis_ok rd"
  shows "count_of rd' k \<le> count_of rd k + 1 \<and> (j \<noteq> k \<longrightarrow> count_of rd' j = count_of rd j) \<and>
    (\<forall>c. r = Inr c \<longrightarrow> c = count_of rd k + 1 \<and> count_of rd' k = c)"
  using rd_get_INCR [OF assms(1)] assms
  by (auto simp: count_of_def redis_INCR_def split: option.splits if_splits)

text \<open>The script raises the counter of its own key by one at most and touches no other.\<close>

lemma allowScript_counts:
  assumes s: "allowScript k mx win block rd = (r, rd')" and ok: "redis_ok rd"
  shows "redis_ok rd' \<and> count_of rd' k \<le> count_of rd k + 1 \<and> (j \<noteq> k \<longrightarrow> count_of rd' j = count_of rd j) \<and>
    (\<forall>c. r = Inr c \<longrightarrow> (c = 1 \<longleftrightarrow> count_of rd k + 1 \<le> mx) \<and> (c = 1 \<longrightarrow> count_of rd' k \<le> mx))"
proof -
  obtain r1 rd1 where 1: "redis_INCR k rd = (r1, rd1)" by (cases "redis_INCR k rd")
  note c = count_INCR [OF 1 ok, of j]
  have ok1: "redis_ok rd1" using redis_ok_cmds(1) [OF ok 1] .
  show ?thesis
  proof (cases r1)
    case (Inl e)
    with s 1 c ok1 show ?thesis by (auto simp: allowScript_def)
  next
    case (Inr n)
    define rd2 where "rd2 = (if n = 1 then redis_EXPIRE k win rd1 else rd1)"
    have ok2: "redis_ok rd2" using ok1 redis_ok_cmds(2) by (simp add: rd2_def)
    have c2: "count_of rd2 k \<le> n" "j \<noteq> k \<Longrightarrow> count_of rd2 j = count_of rd j" "n = count_of rd k + 1"
      using c Inr count_EXPIRE [OF ok1, of k win k] count_EXPIRE_other [of j k win rd1] by (auto simp: rd2_def)
    show ?thesis
    proof (cases "n > mx")
      case True
      then have "r = Inr 0" "rd' = redis_EXPIRE k block rd2"
        using s 1 Inr by (simp_all add: allowScript_def rd2_def Let_def)
      with c2 True count_EXPIRE [OF ok2, of k block k] count_EXPIRE_other [of j k block rd2]
        redis_ok_cmds(2) [OF ok2] show ?thesis by auto
    next
      case False
      then have "r = Inr 1" "rd' = rd2" using s 1 Inr by (simp_all add: allowScript_def rd2_def Let_def)
      with c2 False ok2 show ?thesis by auto
    qed
  qed
qed

lemma count_tick:
  "rd_tick rd = (t, rd1) \<Longrightarrow> redis_ok rd \<Longrightarrow> count_of rd1 k \<le> count_of rd k"
  using rd_get_tick [of rd t rd1 k] count_nonneg [of rd k] by (auto simp: count_of_def)

subsection \<open>The contract\<close>

text \<open>
  \<open>hits w v\<close> are the attempts that count against \<open>v\<close>; they only fall as time passes.  An attempt
  counts once at most, against its own value only; a value with fewer than \<open>mx\<close> hits is allowed;
  an allowed value has at most \<open>mx\<close> hits; a reset clears the hits.
\<close>

locale limiter =
  fixes allow :: "string \<Rightarrow> 'w \<Rightarrow> bool result \<times> 'w"
    and reset :: "string \<Rightarrow> 'w \<Rightarrow> goerr option \<times> 'w"
    and hits :: "'w \<Rightarrow> string \<Rightarrow> int"
    and valid :: "'w \<Rightarrow> bool"
    and mx :: int
  assumes allow_valid: "valid w \<Longrightarrow> allow v w = (r, w') \<Longrightarrow> valid w'"
    and allow_own: "valid w \<Longrightarrow> allow v w = (r, w') \<Longrightarrow> hits w' v \<le> hits w v + 1"
    and allow_other: "valid w \<Longrightarrow> allow v w = (r, w') \<Longrightarrow> u \<noteq> v \<Longrightarrow> hits w' u \<le> hits w u"
    and allow_below: "valid w \<Longrightarrow> allow v w = (Inr b, w') \<Longrightarrow> hits w v < mx \<Longrightarrow> b"
    and allow_bound: "valid w \<Longrightarrow> allow v w = (Inr True, w') \<Longrightarrow> hits w' v \<le> mx"
    and reset_valid: "valid w \<Longrightarrow> reset v w = (x, w') \<Longrightarrow> valid w'"
    and reset_own: "valid w \<Longrightarrow> reset v w = (x, w') \<Longrightarrow> hits w' v \<le> hits w v"
    and reset_ok: "valid w \<Longrightarrow> reset v w = (None, w') \<Longrightarrow> hits w' v = 0"
    and reset_other: "valid w \<Longrightarrow> reset v w = (x, w') \<Longrightarrow> u \<noteq> v \<Longrightarrow> hits w' u \<le> hits w u"
begin

text \<open>A sequence of attempts by several callers: what each was told, \<open>None\<close> for an error.\<close>

fun attempts :: "string list \<Rightarrow> 'w \<Rightarrow> bool option list \<times> 'w" where
  "attempts [] w = ([], w)"
| "attempts (v # vs) w =
     (case allow v w of (r, w1) \<Rightarrow>
        (case attempts vs w1 of (rs, w2) \<Rightarrow>
           ((case r of Inl e \<Rightarrow> None | Inr b \<Rightarrow> Some b) # rs, w2)))"

text \<open>
  A caller is never refused before \<open>mx\<close> attempts of its own, whatever the others do and whatever
  fails: the i-th attempt is not refused when it is at most the \<open>mx\<close>-th of its caller.
\<close>

lemma not_refused_early:
  assumes "valid w" "\<forall>v. hits w v \<le> h v"
    and "attempts vs w = (rs, w')" "i < length vs"
    and "h (vs ! i) + int (length (filter (\<lambda>v. v = vs ! i) (take i vs))) < mx"
  shows "rs ! i \<noteq> Some False"
  using assms
proof (induction vs arbitrary: w rs i h)
  case Nil
  then show ?case by simp
next
  case (Cons v vs)
  obtain r w1 where 1: "allow v w = (r, w1)" by (cases "allow v w")
  from Cons.prems(3) 1 obtain rs1 where 2: "attempts vs w1 = (rs1, w')"
    and rs: "rs = (case r of Inl e \<Rightarrow> None | Inr b \<Rightarrow> Some b) # rs1" by (auto split: prod.split_asm)
  show ?case
  proof (cases i)
    case 0
    have "r \<noteq> Inr False"
    proof
      assume "r = Inr False"
      with allow_below [OF Cons.prems(1)] 1 have "\<not> hits w v < mx" by blast
      moreover have "hits w v \<le> h v" using Cons.prems(2) by blast
      ultimately show False using Cons.prems(5) 0 by simp
    qed
    with rs 0 show ?thesis by (auto split: sum.split)
  next
    case (Suc j)
    let ?h = "h(v := h v + 1)"
    have "hits w1 u \<le> ?h u" for u
    proof (cases "u = v")
      case True
      with allow_own [OF Cons.prems(1) 1] Cons.prems(2) show ?thesis by (simp add: order.trans)
    next
      case False
      have "hits w1 u \<le> hits w u" using allow_other [OF Cons.prems(1) 1 False] .
      also have "\<dots> \<le> h u" using Cons.prems(2) by blast
      finally show ?thesis using False by simp
    qed
    then have "rs1 ! j \<noteq> Some False"
      using Cons.IH [of w1 ?h rs1 j] allow_valid [OF Cons.prems(1) 1] 2 Cons.prems(4,5) Suc
      by (auto split: if_splits)
    with rs Suc show ?thesis by simp
  qed
qed

text \<open>After a reset a caller has its whole budget again.\<close>

lemma reset_budget:
  assumes "valid w" "reset v w = (None, w1)" "0 < mx" "allow v w1 = (Inr b, w2)"
  shows b
  using allow_below [OF reset_valid [OF assms(1,2)] assms(4)] reset_ok [OF assms(1,2)] assms(3) by simp

end

interpretation redis_limiter: limiter "RateLimiter_Allow params" "RateLimiter_Reset params"
  "hits_of params" redis_ok "rp_MaxAttempts params" for params
proof
  fix w v r w'
  assume ok: "redis_ok w" and a: "RateLimiter_Allow params v w = (r, w')"
  let ?k = "limiter_key params v"
  obtain t w1 where t: "rd_tick w = (t, w1)" by (cases "rd_tick w")
  obtain s w2 where s: "allowScript ?k (rp_MaxAttempts params) (whole_seconds (rp_Window params))
      (whole_seconds (rp_BlockDuration params)) w1 = (s, w2)"
    by (cases "allowScript ?k (rp_MaxAttempts params) (whole_seconds (rp_Window params))
      (whole_seconds (rp_BlockDuration params)) w1")
  have w': "w' = w1 \<or> w' = w2"
    using a t s by (auto simp: RateLimiter_Allow_def Let_def split: option.splits sum.splits if_splits)
  have ok1: "redis_ok w1" using redis_ok_tick [OF t] ok by simp
  note c = allowScript_counts [OF s ok1]
  note d = count_tick [OF t ok]
  show "redis_ok w'" using w' ok1 c by auto
  show "hits_of params w' v \<le> hits_of params w v + 1"
    using w' c [of ?k] d [of ?k] by (auto simp: hits_of_def count_of_def [symmetric])
  show "hits_of params w' u \<le> hits_of params w u" if "u \<noteq> v" for u
    using w' c [of "limiter_key params u"] d [of "limiter_key params u"] that
    by (auto simp: hits_of_def count_of_def [symmetric])
next
  fix w v b w'
  assume ok: "redis_ok w" and a: "RateLimiter_Allow params v w = (Inr b, w')"
  let ?k = "limiter_key params v"
  obtain t w1 where t: "rd_tick w = (t, w1)" by (cases "rd_tick w")
  from a t obtain n where s: "allowScript ?k (rp_MaxAttempts params) (whole_seconds (rp_Window params))
      (whole_seconds (rp_BlockDuration params)) w1 = (Inr n, w')" and b: "b \<longleftrightarrow> n = 1"
    by (auto simp: RateLimiter_Allow_def Let_def split: option.splits sum.splits prod.splits)
  have ok1: "redis_ok w1" using redis_ok_tick [OF t] ok by simp
  note c = allowScript_counts [OF s ok1]
  note d = count_tick [OF t ok, of ?k]
  show b if "hits_of params w v < rp_MaxAttempts params"
    using that c d b by (auto simp: hits_of_def count_of_def [symmetric])
  show "hits_of params w' v \<le> rp_MaxAttempts params" if "RateLimiter_Allow params v w = (Inr True, w')"
    using that a c b by (auto simp: hits_of_def count_of_def [symmetric])
next
  fix w v x w'
  assume ok: "redis_ok w" and a: "RateLimiter_Reset params v w = (x, w')"
  obtain t w1 where t: "rd_tick w = (t, w1)" by (cases "rd_tick w")
  have w': "w' = w1 \<or> w' = redis_DEL (limiter_key params v) w1"
    using a t by (auto simp: RateLimiter_Reset_def Let_def split: option.splits if_splits)
  have ok1: "redis_ok w1" using redis_ok_tick [OF t] ok by simp
  note d = count_tick [OF t ok]
  show "redis_ok w'" using w' ok1 redis_ok_cmds(3) by auto
  have del: "count_of (redis_DEL k w1) j \<le> count_of w1 j" for k j
    using count_nonneg [OF ok1] by (simp add: count_of_def rd_get_DEL)
  show "hits_of params w' v \<le> hits_of params w v" "hits_of params w' u \<le> hits_of params w u" for u
    using w' d del order.trans by (fastforce simp: hits_of_def count_of_def [symmetric])+
next
  fix w v w'
  assume "redis_ok w" "RateLimiter_Reset params v w = (None, w')"
  then show "hits_of params w' v = 0"
    by (auto simp: RateLimiter_Reset_def Let_def hits_of_def rd_get_DEL split: prod.splits option.splits)
qed

subsection \<open>A window of attempts\<close>

text \<open>Attempts of one caller at the given times, when no call fails.\<close>

fun attempts_at :: "rate_limiter_params \<Rightarrow> string \<Rightarrow> instant list \<Rightarrow> redis \<Rightarrow> bool result list" where
  "attempts_at params v [] rd = []"
| "attempts_at params v (t # ts) rd =
     (case RateLimiter_Allow params v (rd\<lparr>rd_clock := t, rd_tape := []\<rparr>) of (r, rd1) \<Rightarrow>
        r # attempts_at params v ts rd1)"

abbreviation window_secs :: "rate_limiter_params \<Rightarrow> int" where
  "window_secs params \<equiv> whole_seconds (rp_Window params)"

abbreviation block_secs :: "rate_limiter_params \<Rightarrow> int" where
  "block_secs params \<equiv> whole_seconds (rp_BlockDuration params)"

text \<open>The script on a key with a live counter, and on one without.\<close>

lemma EXPIRE_key:
  "rd_get rd k = Some (n, e) \<Longrightarrow> 0 < s \<Longrightarrow>
   redis_EXPIRE k s rd = rd\<lparr>rd_keys := (rd_keys rd)(k \<mapsto> (n, Some (rd_clock rd + s * second)))\<rparr>"
  by (simp add: redis_EXPIRE_def)

lemma script_run:
  assumes g: "rd_get rd k = (if n = 0 then None else Some (n, Some e))" "n \<noteq> 2 ^ 63 - 1" "0 < win" "0 < block"
  shows "\<exists>rd'. allowScript k mx win block rd = (Inr (if n + 1 \<le> mx then 1 else 0), rd') \<and>
    rd_keys rd' k = Some (n + 1, Some (if n + 1 > mx then rd_clock rd + block * second
      else if n = 0 then rd_clock rd + win * second else e))"
proof -
  define rd1 where "rd1 = rd\<lparr>rd_keys := (rd_keys rd)(k \<mapsto> (n + 1, if n = 0 then None else Some e))\<rparr>"
  have 1: "redis_INCR k rd = (Inr (n + 1), rd1)" using g by (auto simp: redis_INCR_def rd1_def)
  define e2 where "e2 = (if n = 0 then rd_clock rd + win * second else e)"
  define rd2 where "rd2 = (if n + 1 = 1 then redis_EXPIRE k win rd1 else rd1)"
  have get1: "rd_get rd1 k = Some (n + 1, if n = 0 then None else Some e)"
    using g(1) rd_get_live [of rd k n e] by (auto simp: rd1_def rd_get_upd)
  have rd2: "rd_clock rd2 = rd_clock rd" "rd_keys rd2 k = Some (n + 1, Some e2)"
    using EXPIRE_key [OF get1 g(3)] by (auto simp: rd2_def rd1_def e2_def)
  have "rd_clock rd < e2" using g rd_get_live [of rd k n e] by (auto simp: e2_def)
  then have get2: "rd_get rd2 k = Some (n + 1, Some e2)" using rd2 by (simp add: rd_get_def)
  have "allowScript k mx win block rd =
      (if n + 1 > mx then (Inr 0, redis_EXPIRE k block rd2) else (Inr 1, rd2))"
    using 1 by (simp add: allowScript_def rd2_def Let_def)
  with rd2 EXPIRE_key [OF get2 g(4)] show ?thesis by (auto simp: e2_def)
qed

lemma Allow_calm:
  assumes "rd_tape rd = []" "rd_get rd (limiter_key params v) = (if n = 0 then None else Some (n, Some e))"
    and "n \<noteq> 2 ^ 63 - 1" "0 < window_secs params" "0 < block_secs params"
  shows "\<exists>rd'. RateLimiter_Allow params v rd = (Inr (n + 1 \<le> rp_MaxAttempts params), rd') \<and>
    rd_keys rd' (limiter_key params v) =
      Some (n + 1, Some (if n + 1 > rp_MaxAttempts params then rd_clock rd + block_secs params * second
        else if n = 0 then rd_clock rd + window_secs params * second else e))"
  using script_run [OF assms(2-5), of "rp_MaxAttempts params"] assms(1)
  by (auto simp: RateLimiter_Allow_def rd_tick_def Let_def)

lemma attempts_at_live:
  assumes "rd_keys rd (limiter_key params v) = Some (n, Some e)" "1 \<le> n"
    and "\<forall>t \<in> set ts. t < e \<and> t0 \<le> t \<and> t < t0 + block_secs params * second"
    and "n + int (length ts) < 2 ^ 63" "0 < window_secs params" "0 < block_secs params"
  shows "attempts_at params v ts rd = map (\<lambda>i. Inr (n + 1 + int i \<le> rp_MaxAttempts params)) [0..<length ts]"
  using assms
proof (induction ts arbitrary: rd n e)
  case Nil
  then show ?case by simp
next
  case (Cons t ts)
  obtain rd' where a: "RateLimiter_Allow params v (rd\<lparr>rd_clock := t, rd_tape := []\<rparr>) = (Inr (n + 1 \<le> rp_MaxAttempts params), rd')"
    and k: "rd_keys rd' (limiter_key params v) =
      Some (n + 1, Some (if n + 1 \<le> rp_MaxAttempts params then e else t + block_secs params * second))"
    using Allow_calm [of "rd\<lparr>rd_clock := t, rd_tape := []\<rparr>" params v n e] Cons.prems
    by (auto simp: rd_get_def)
  have "attempts_at params v ts rd' = map (\<lambda>i. Inr (n + 1 + 1 + int i \<le> rp_MaxAttempts params)) [0..<length ts]"
    by (rule Cons.IH [OF k]) (use Cons.prems in force)+
  moreover have "[0..<length (t # ts)] = 0 # map Suc [0..<length ts]"
    by (simp add: upt_conv_Cons map_Suc_upt del: upt_Suc)
  ultimately show ?case using a by (simp add: algebra_simps del: upt_Suc)
qed

lemma attempts_in_window:
  assumes new: "rd_keys rd (limiter_key params v) = None"
    and times: "\<forall>t \<in> set ts. t0 \<le> t \<and> t < t0 + window_secs params * second"
    and w: "0 < window_secs params" "window_secs params \<le> block_secs params" "0 < rp_MaxAttempts params"
    and n: "int (length ts) < 2 ^ 63 - 1"
  shows "attempts_at params v (t0 # ts) rd =
    map (\<lambda>i. Inr (int i < rp_MaxAttempts params)) [0..<Suc (length ts)]"
proof -
  have "rd_get (rd\<lparr>rd_clock := t0, rd_tape := []\<rparr>) (limiter_key params v) = None"
    using new by (simp add: rd_get_def)
  with Allow_calm [of "rd\<lparr>rd_clock := t0, rd_tape := []\<rparr>" params v 0] w obtain rd' where
    a: "RateLimiter_Allow params v (rd\<lparr>rd_clock := t0, rd_tape := []\<rparr>) = (Inr True, rd')"
    and k: "rd_keys rd' (limiter_key params v) = Some (1, Some (t0 + window_secs params * second))" by auto
  have "window_secs params * second \<le> block_secs params * second" using w by simp
  then have "attempts_at params v ts rd' =
      map (\<lambda>i. Inr (1 + 1 + int i \<le> rp_MaxAttempts params)) [0..<length ts]"
    by (intro attempts_at_live [OF k, of ts t0]) (use times w n in force)+
  moreover have "[0..<Suc (length ts)] = 0 # map Suc [0..<length ts]"
    by (simp add: upt_conv_Cons map_Suc_upt del: upt_Suc)
  ultimately show ?thesis using a w(3) by (auto simp del: upt_Suc)
qed

text \<open>
  A refused caller stays refused: an attempt less than the block time later is refused too, and
  starts the block time again.
\<close>

lemma refused_again:
  assumes r: "rd_tape rd = []" "rd_get rd (limiter_key params v) = Some (n, Some e)" "1 \<le> n" "n < 2 ^ 62"
    and p: "0 < window_secs params" "0 < block_secs params"
    and a: "RateLimiter_Allow params v rd = (Inr False, rd')"
    and t: "t < rd_clock rd + block_secs params * second"
  shows "\<exists>rd''. RateLimiter_Allow params v (rd'\<lparr>rd_clock := t, rd_tape := []\<rparr>) = (Inr False, rd'') \<and>
    rd_keys rd'' (limiter_key params v) = Some (n + 2, Some (t + block_secs params * second))"
proof -
  have g: "rd_get rd (limiter_key params v) = (if n = 0 then None else Some (n, Some e))" using r by simp
  have "rp_MaxAttempts params < n + 1"
    "rd_keys rd' (limiter_key params v) = Some (n + 1, Some (rd_clock rd + block_secs params * second))"
    using Allow_calm [OF r(1) g _ p] a r(3,4) by (auto split: if_splits)
  with Allow_calm [of "rd'\<lparr>rd_clock := t, rd_tape := []\<rparr>" params v "n + 1"] t p r(3,4)
  show ?thesis by (simp add: rd_get_def algebra_simps)
qed

subsection \<open>What the limiter promises\<close>


lemma seconds_of_minute: "whole_seconds minute = 60"
  by (simp add: whole_seconds_def float_units_exact)


text \<open>
  Nobody is refused early: in any sequence of attempts of any callers, with calls to Redis failing
  or not, an attempt is not refused while its caller has made fewer than \<open>MaxAttempts\<close> attempts,
  those that counted before the sequence included.
\<close>

theorem never_refused_early:
  assumes "redis_ok rd" "\<forall>v. hits_of params rd v \<le> h v"
    and "redis_limiter.attempts params vs rd = (rs, rd')" "i < length vs"
    and "h (vs ! i) + int (length (filter (\<lambda>v. v = vs ! i) (take i vs))) < rp_MaxAttempts params"
  shows "rs ! i \<noteq> Some False"
  using assms by (rule redis_limiter.not_refused_early)

theorem never_refused_early_witness:
  "fst (redis_limiter.attempts \<lparr>rp_Field = ''files'', rp_MaxAttempts = 1, rp_Window = minute, rp_BlockDuration = minute\<rparr>
     [''a'', ''b''] \<lparr>rd_clock = 0, rd_tape = [], rd_keys = Map.empty\<rparr>) ! 1 \<noteq> Some False"
proof -
  let ?p = "\<lparr>rp_Field = ''files'', rp_MaxAttempts = 1, rp_Window = minute, rp_BlockDuration = minute\<rparr>"
  let ?rd = "\<lparr>rd_clock = 0, rd_tape = [], rd_keys = Map.empty\<rparr>"
  obtain rs rd' where "redis_limiter.attempts ?p [''a'', ''b''] ?rd = (rs, rd')"
    by (cases "redis_limiter.attempts ?p [''a'', ''b''] ?rd")
  with never_refused_early [of ?rd ?p "\<lambda>_. 0" "[''a'', ''b'']" rs rd' 1] show ?thesis
    by (simp add: redis_ok_def hits_of_def rd_get_def)
qed

text \<open>
  C30: Every refused attempt starts the wait again: an attempt less than the block duration after a
  refused one is refused too, and the counter then lives for another block duration from that moment.
\<close>

theorem refusal_renews_the_wait:
  assumes "rd_tape rd = []" "rd_get rd (limiter_key params v) = Some (n, Some e)" "1 \<le> n" "n < 2 ^ 62"
    and "0 < whole_seconds (rp_Window params)" "0 < whole_seconds (rp_BlockDuration params)"
    and "RateLimiter_Allow params v rd = (Inr False, rd')"
    and "t < rd_clock rd + whole_seconds (rp_BlockDuration params) * second"
  shows "\<exists>rd''. RateLimiter_Allow params v (rd'\<lparr>rd_clock := t, rd_tape := []\<rparr>) = (Inr False, rd'') \<and>
    rd_keys rd'' (limiter_key params v) = Some (n + 2, Some (t + whole_seconds (rp_BlockDuration params) * second))"
  using assms by (rule refused_again)

theorem refusal_renews_the_wait_witness:
  "\<exists>rd' rd''. RateLimiter_Allow \<lparr>rp_Field = ''f'', rp_MaxAttempts = 2, rp_Window = minute, rp_BlockDuration = minute\<rparr> ''ip''
      (rd'\<lparr>rd_clock := 59 * second, rd_tape := []\<rparr>) = (Inr False, rd'') \<and>
    rd_keys rd'' ''rate:f:ip'' = Some (4, Some (119 * second))"
proof -
  let ?p = "\<lparr>rp_Field = ''f'', rp_MaxAttempts = 2, rp_Window = minute, rp_BlockDuration = minute\<rparr>"
  let ?rd = "\<lparr>rd_clock = 0, rd_tape = [], rd_keys = [''rate:f:ip'' \<mapsto> (2, Some 5)]\<rparr>"
  have k: "limiter_key ?p ''ip'' = ''rate:f:ip''" by (simp add: limiter_key_def prefix_def)
  have g: "rd_get ?rd (limiter_key ?p ''ip'') = Some (2, Some 5)" by (simp add: k rd_get_def)
  then obtain rd' where "RateLimiter_Allow ?p ''ip'' ?rd = (Inr False, rd')"
    using Allow_calm [of ?rd ?p "''ip''" 2 5] by (auto simp: seconds_of_minute)
  from refusal_renews_the_wait [OF _ g _ _ _ _ this, of "59 * second"] show ?thesis
    by (auto simp: seconds_of_minute k)
qed

subsection \<open>Several limiters on one Redis\<close>

lemma keys_INCR: "redis_INCR k rd = (r, rd') \<Longrightarrow> j \<noteq> k \<Longrightarrow> rd_keys rd' j = rd_keys rd j"
  by (auto simp: redis_INCR_def split: option.splits if_splits)

lemma keys_EXPIRE: "j \<noteq> k \<Longrightarrow> rd_keys (redis_EXPIRE k s rd) j = rd_keys rd j"
  by (auto simp: redis_EXPIRE_def split: option.split)

lemma keys_DEL: "j \<noteq> k \<Longrightarrow> rd_keys (redis_DEL k rd) j = rd_keys rd j"
  by (simp add: redis_DEL_def)

lemma keys_script: "allowScript k mx win block rd = (r, rd') \<Longrightarrow> j \<noteq> k \<Longrightarrow> rd_keys rd' j = rd_keys rd j"
  by (auto simp: allowScript_def Let_def keys_EXPIRE split: prod.splits sum.splits if_splits dest: keys_INCR)

lemma keys_limiter:
  assumes "j \<noteq> limiter_key params v"
  shows "rd_keys (snd (RateLimiter_Allow params v rd)) j = rd_keys rd j"
    "rd_keys (snd (RateLimiter_Reset params v rd)) j = rd_keys rd j"
  using assms rd_tick_keys [of rd] keys_script [OF _ assms] keys_DEL [OF assms]
  by (auto simp: RateLimiter_Allow_def RateLimiter_Reset_def Let_def split: prod.split sum.split option.split)

text \<open>What a caller is told depends on the clock, the failures and its own counter only.\<close>

lemma Allow_answer:
  "rd_tick rd = (t, rd1) \<Longrightarrow> fst (RateLimiter_Allow q v rd) =
     (let fn = ''infrastructure.redis.RateLimiter.Allow'' in
      case t_fault t of
        Some err \<Rightarrow> Inl (errorf (fn @ '': '') (Ext err))
      | None \<Rightarrow> (case fst (allowScript (limiter_key q v) (rp_MaxAttempts q) (whole_seconds (rp_Window q))
                        (whole_seconds (rp_BlockDuration q)) rd1) of
                   Inl err \<Rightarrow> Inl (errorf (fn @ '': '') (Ext err)) | Inr res \<Rightarrow> Inr (res = 1)))"
  by (cases "allowScript (limiter_key q v) (rp_MaxAttempts q) (whole_seconds (rp_Window q))
        (whole_seconds (rp_BlockDuration q)) rd1")
    (simp add: RateLimiter_Allow_def Let_def split: sum.split option.split)

lemma INCR_answer: "rd_get x k = rd_get y k \<Longrightarrow> fst (redis_INCR k x) = fst (redis_INCR k y)"
  by (simp add: redis_INCR_def split: option.split)

lemma script_answer: "fst (allowScript k mx win block rd) =
    (case fst (redis_INCR k rd) of Inl err \<Rightarrow> Inl err | Inr count \<Rightarrow> Inr (if count > mx then 0 else 1))"
  by (simp add: allowScript_def Let_def split: prod.split sum.split)

lemma Allow_depends:
  assumes "rd_keys rd' (limiter_key q v) = rd_keys rd (limiter_key q v)"
  shows "fst (RateLimiter_Allow q v (rd'\<lparr>rd_clock := t, rd_tape := tape\<rparr>)) =
    fst (RateLimiter_Allow q v (rd\<lparr>rd_clock := t, rd_tape := tape\<rparr>))"
proof -
  let ?k = "limiter_key q v"
  have get: "rd_get (rd'\<lparr>rd_clock := u, rd_tape := ts\<rparr>) ?k = rd_get (rd\<lparr>rd_clock := u, rd_tape := ts\<rparr>) ?k" for u ts
    using assms by (simp add: rd_get_def split: option.split)
  obtain tk u ts where tick: "\<And>x. rd_tick (x\<lparr>rd_clock := t, rd_tape := tape\<rparr>) = (tk, x\<lparr>rd_clock := u, rd_tape := ts\<rparr>)"
    by (cases tape) (auto simp: rd_tick_def)
  show ?thesis by (simp only: Allow_answer [OF tick] script_answer INCR_answer [OF get])
qed

text \<open>
  Limiters with different fields, and callers of one limiter, never disturb each other, whatever
  characters the caller's address contains and whatever fails: neither an attempt nor a reset changes
  the counter or the expiry of another field or another caller, so what that one is told next is what
  it would have been told without it.
\<close>

theorem limiters_are_apart:
  assumes "CHR '':'' \<notin> set (rp_Field p)" "CHR '':'' \<notin> set (rp_Field q)"
    and "rp_Field p \<noteq> rp_Field q \<or> u \<noteq> v"
    and "rd' = snd (RateLimiter_Allow p u rd) \<or> rd' = snd (RateLimiter_Reset p u rd)"
  shows "rd_keys rd' (limiter_key q v) = rd_keys rd (limiter_key q v) \<and>
    fst (RateLimiter_Allow q v (rd'\<lparr>rd_clock := t, rd_tape := tape\<rparr>)) =
    fst (RateLimiter_Allow q v (rd\<lparr>rd_clock := t, rd_tape := tape\<rparr>))"
proof -
  have "limiter_key q v \<noteq> limiter_key p u" using limiter_key_fields [OF assms(1,2)] assms(3) by metis
  with keys_limiter [OF this] assms(4) have k: "rd_keys rd' (limiter_key q v) = rd_keys rd (limiter_key q v)" by auto
  show ?thesis using k Allow_depends [OF k] by simp
qed

theorem limiters_are_apart_witness:
  "fst (RateLimiter_Allow \<lparr>rp_Field = ''admin'', rp_MaxAttempts = 1, rp_Window = minute, rp_BlockDuration = minute\<rparr> ''::1''
     ((snd (RateLimiter_Allow \<lparr>rp_Field = ''files'', rp_MaxAttempts = 1, rp_Window = minute, rp_BlockDuration = minute\<rparr> ''::1''
        \<lparr>rd_clock = 0, rd_tape = [], rd_keys = Map.empty\<rparr>))\<lparr>rd_clock := 0, rd_tape := []\<rparr>)) = Inr True"
proof -
  let ?p = "\<lparr>rp_Field = ''files'', rp_MaxAttempts = 1, rp_Window = minute, rp_BlockDuration = minute\<rparr>"
  let ?q = "\<lparr>rp_Field = ''admin'', rp_MaxAttempts = 1, rp_Window = minute, rp_BlockDuration = minute\<rparr>"
  let ?rd = "\<lparr>rd_clock = 0, rd_tape = [], rd_keys = Map.empty\<rparr>"
  have "fst (RateLimiter_Allow ?q ''::1'' ?rd) = Inr True"
    by (simp add: RateLimiter_Allow_def rd_tick_def allowScript_def redis_INCR_def rd_get_def Let_def)
  with limiters_are_apart [of ?p ?q "''::1''" "''::1''" _ ?rd "[]" 0, OF _ _ _ disjI1 [OF refl]] show ?thesis by simp
qed

end
