(* ===== verification/Middlewares.thy ===== *)
theory Middlewares
  imports Http Rate_Limiter
begin

text \<open>
  \<open>internal/delivery/middlewares\<close>: each middleware takes the next handler and gives a handler.
  A handler that calls \<open>next.ServeHTTP\<close> with changed context values calls the next handler with
  an updated request.
\<close>

subsection \<open>base64.StdEncoding.DecodeString\<close>

definition b64_val :: "char \<Rightarrow> nat option" where
  "b64_val c =
     (let n = code c in
      if 65 \<le> n \<and> n \<le> 90 then Some (n - 65)
      else if 97 \<le> n \<and> n \<le> 122 then Some (n - 71)
      else if 48 \<le> n \<and> n \<le> 57 then Some (n + 4)
      else if n = 43 then Some 62 else if n = 47 then Some 63 else None)"

definition b64_bits :: "char list \<Rightarrow> nat option" where
  "b64_bits cs = foldl (\<lambda>a c. case (a, b64_val c) of
     (Some x, Some v) \<Rightarrow> Some (x * 64 + v) | _ \<Rightarrow> None) (Some 0) cs"

fun b64_groups :: "string \<Rightarrow> string option" where
  "b64_groups [] = Some []"
| "b64_groups (a # b # c # d # rest) =
     (if d = CHR ''='' then
        (if rest \<noteq> [] then None
         else if c = CHR ''='' then
           map_option (\<lambda>n. [char_of (n div 16 mod 256)]) (b64_bits [a, b])
         else map_option (\<lambda>n. [char_of (n div 1024 mod 256), char_of (n div 4 mod 256)]) (b64_bits [a, b, c]))
      else (case (b64_bits [a, b, c, d], b64_groups rest) of
              (Some n, Some bs) \<Rightarrow>
                Some (char_of (n div 65536 mod 256) # char_of (n div 256 mod 256) # char_of (n mod 256) # bs)
            | _ \<Rightarrow> None))"
| "b64_groups _ = None"

definition b64_decode :: "string \<Rightarrow> string option" where
  "b64_decode s = b64_groups (filter (\<lambda>c. code c \<noteq> 10 \<and> code c \<noteq> 13) s)"

subsection \<open>auth.go\<close>

record validate_result =
  vr_UserID :: int
  vr_Roles :: "user_role list"
  vr_ExpiresAt :: int

record user_claims =
  uc_UserID :: int
  uc_Roles :: "user_role list"

definition extractBearerToken :: "string \<Rightarrow> string" where
  "extractBearerToken header =
     (if header = [] then []
      else (let parts = SplitN2 (CHR '' '') header in
            if length parts \<noteq> 2 \<or> ToLower (parts ! 0) \<noteq> ''bearer'' then []
            else TrimSpace (parts ! 1)))"

type_synonym 'w TokenValidator = "string \<Rightarrow> 'w \<Rightarrow> (validate_result result \<times> 'w) run"

definition NewAuth ::
  "'w TokenValidator \<Rightarrow> 'w handler \<Rightarrow> 'w handler" where
  "NewAuth validateToken next r w s =
     (let token = extractBearerToken (rq_Header r ''Authorization'') in
      if token = [] then Returns (RenderError 401 ''unauthorized request'' w, s)
      else bind_run (validateToken token s) (\<lambda>(res, s1).
        case res of
          Inl err \<Rightarrow>
            (case RenderAuthServiceError err w of
               (True, w1) \<Rightarrow> Returns (w1, s1)
             | (False, w1) \<Rightarrow> if IsCtxError err then Returns (w1, s1) else Returns (w1, s1))
        | Inr tokenInfo \<Rightarrow>
            next (r\<lparr>ctx_UserID := Some (vr_UserID tokenInfo), ctx_Roles := Some (vr_Roles tokenInfo)\<rparr>) w s1))"

definition GetUserClaims :: "request \<Rightarrow> user_claims result" where
  "GetUserClaims r =
     (case ctx_UserID r of
        None \<Rightarrow> Inl (NewErr ''failed to get user id from context'')
      | Some userID \<Rightarrow>
          (case ctx_Roles r of
             None \<Rightarrow> Inl (NewErr ''failed to get user roles from context'')
           | Some roles \<Rightarrow> Inr \<lparr>uc_UserID = userID, uc_Roles = roles\<rparr>))"

definition WithUserClaims :: "user_claims \<Rightarrow> request \<Rightarrow> request" where
  "WithUserClaims claims r =
     r\<lparr>ctx_UserID := Some (uc_UserID claims), ctx_Roles := Some (uc_Roles claims)\<rparr>"

subsection \<open>rate_limiter.go\<close>

definition NewRateLimiter ::
  "(string \<Rightarrow> 'w \<Rightarrow> bool result \<times> 'w) \<Rightarrow> 'w handler \<Rightarrow> 'w handler" where
  "NewRateLimiter allow next r w s =
     (let ip = ExtractIP (rq_RemoteAddr r) in
      if ip = [] then Returns (RenderError 500 ''internal server error'' w, s)
      else (case allow ip s of
        (Inl err, s1) \<Rightarrow> next r w s1
      | (Inr allowed, s1) \<Rightarrow>
          if \<not> allowed then Returns (RenderError 429 ''too many requests. try again later'' w, s1)
          else next r w s1))"

subsection \<open>admin.go\<close>

definition admin_handler ::
  "string \<Rightarrow> (string \<Rightarrow> 'w \<Rightarrow> bool result \<times> 'w) \<Rightarrow> (string \<Rightarrow> 'w \<Rightarrow> goerr option \<times> 'w) \<Rightarrow>
   'w handler \<Rightarrow> 'w handler" where
  "admin_handler adminSecret allow reset next r w s =
     (let ip = ExtractIP (rq_RemoteAddr r) in
      if ip = [] then Returns (RenderError 500 ''internal server error'' w, s)
      else (case allow ip s of (allowed, s1) \<Rightarrow>
        if allowed = Inr False
        then Returns (RenderError 429 ''too many requests. try again later'' w, s1)
        else (let secret = extractBearerToken (rq_Header r ''Authorization'') in
          if secret = [] then Returns (RenderError 401 ''unauthorized request'' w, s1)
          else (case b64_decode secret of
             None \<Rightarrow> Returns (RenderError 401 ''unauthorized request'' w, s1)
           | Some decodedSecret \<Rightarrow>
               if decodedSecret = adminSecret
               then (case reset ip s1 of (_, s2) \<Rightarrow> next r w s2)
               else Returns (RenderError 401 ''unauthorized request'' w, s1)))))"

text \<open>
  Building it logs and exits the process when the secret of the environment is not base64.  When it
  is missing or empty, the decoding has no error and the log call reads the text of a nil error.
  The offset in the text of the decoding error is left out.
\<close>

definition NewAdminAuth ::
  "string \<Rightarrow> (string \<Rightarrow> 'w \<Rightarrow> bool result \<times> 'w) \<Rightarrow> (string \<Rightarrow> 'w \<Rightarrow> goerr option \<times> 'w) \<Rightarrow>
   'w handler \<Rightarrow> 'w handler boot" where
  "NewAdminAuth secretEnv allow reset next =
     (case (case b64_decode secretEnv of
              None \<Rightarrow> ([], Some (Ext (OtherErr ''illegal base64 data'')))
            | Some bytes \<Rightarrow> (bytes, None)) of
        (adminSecret, err) \<Rightarrow>
          if err \<noteq> None \<or> length adminSecret = 0
          then bind_boot (sl_Error err) (\<lambda>attr. Exits 1)
          else Built (admin_handler adminSecret allow reset next))"

definition NewAdminUserContext :: "'w handler \<Rightarrow> 'w handler" where
  "NewAdminUserContext next r w s =
     (let userID = (case ParseInt (rq_URLParam r ''id'') 64 of Inl _ \<Rightarrow> 0 | Inr i \<Rightarrow> i)
      in next (r\<lparr>ctx_UserID := Some userID, ctx_Roles := Some [RoleAdmin]\<rparr>) w s)"

subsection \<open>timeout_limiter.go\<close>

record timeout_params =
  tl_ReadTimeout :: duration
  tl_WriteTimeout :: duration

text \<open>\<open>now\<close> reads the clock; a deadline the connection refuses is only logged.\<close>

definition NewTimeoutLimiter :: "('w \<Rightarrow> instant) \<Rightarrow> timeout_params \<Rightarrow> 'w handler \<Rightarrow> 'w handler" where
  "NewTimeoutLimiter now params next r w s =
     next r (w @ [ReadDeadline (now s + tl_ReadTimeout params),
                  WriteDeadline (now s + tl_WriteTimeout params)]) s"

subsection \<open>parsing.go, validating.go\<close>

definition maxBytes :: nat where "maxBytes = 10 * 1024 * 1024"

definition methodsToSkip :: "string list" where
  "methodsToSkip = [''GET'', ''HEAD'', ''DELETE'', ''OPTIONS'']"

type_synonym DefaultSetter = "service_cfg \<Rightarrow> payload \<Rightarrow> payload"

text \<open>
  \<open>decode\<close> is \<open>render.DecodeJSON\<close> for the request type, \<open>setDefault\<close> the type's \<open>SetDefault\<close>
  if it has one (none of the repository's types has).
\<close>

definition NewBodyParser ::
  "service_cfg \<Rightarrow> (string \<Rightarrow> payload option) \<Rightarrow> DefaultSetter option \<Rightarrow>
   'w handler \<Rightarrow> 'w handler" where
  "NewBodyParser cfg decode setDefault next r0 w s =
     (let r = r0\<lparr>rq_Body := take maxBytes (rq_Body r0)\<rparr> in
      if rq_Method r \<in> set methodsToSkip then next r w s
      else if rq_ContentLength r \<le> 0 then Returns (RenderError 400 ''request body is empty'' w, s)
      else (case decode (rq_Body r) of
          None \<Rightarrow> Returns (RenderError 400 ''failed to decode request body'' w, s)
        | Some request \<Rightarrow>
            (let request' = (case setDefault of None \<Rightarrow> request | Some d \<Rightarrow> d cfg request)
             in next (r\<lparr>ctx_Payload := Some request'\<rparr>) w s)))"

text \<open>\<open>GetParsedBodyRequest[T]\<close>: a type assertion on the context value.\<close>

definition GetParsedBodyRequest :: "body_type \<Rightarrow> request \<Rightarrow> payload option" where
  "GetParsedBodyRequest T r =
     (case ctx_Payload r of None \<Rightarrow> None | Some p \<Rightarrow> if type_of p = T then Some p else None)"

definition WithParsedBodyRequest :: "payload \<Rightarrow> request \<Rightarrow> request" where
  "WithParsedBodyRequest p r = r\<lparr>ctx_Payload := Some p\<rparr>"

text \<open>\<open>validate\<close> is \<open>validate.Struct\<close>: the fields it objects to, none when it returns nil.\<close>

definition NewValidator ::
  "body_type \<Rightarrow> (payload \<Rightarrow> field_error list) \<Rightarrow> 'w handler \<Rightarrow> 'w handler" where
  "NewValidator T validate next r w s =
     (case GetParsedBodyRequest T r of
        None \<Rightarrow> Returns (RenderError 500 ''internal server error'' w, s)
      | Some request \<Rightarrow>
          (case validate request of
             [] \<Rightarrow> next r w s
           | e # es \<Rightarrow> Returns (RenderValidationError (e # es) w, s)))"

subsection \<open>logging.go\<close>

text \<open>
  \<open>wrw\<close> counts what the next handler writes: the status is 0 when it writes nothing.  \<open>emit\<close>
  writes a log entry, \<open>now\<close> reads the clock, \<open>bytesOf\<close> is the length of what the renderer
  encodes.  The path and the identifier of the request, and the entry written while a panic
  passes, are left out.
\<close>

record log_entry =
  le_method :: string
  le_remote :: string
  le_user_agent :: string
  le_status_code :: int
  le_bytes :: nat
  le_duration :: duration

definition wrapped_status :: "replies \<Rightarrow> int" where
  "wrapped_status rs = (if unanswered rs then 0 else sent_status rs)"

definition NewLogger ::
  "(log_entry \<Rightarrow> 'w \<Rightarrow> 'w) \<Rightarrow> ('w \<Rightarrow> instant) \<Rightarrow> (replies \<Rightarrow> nat) \<Rightarrow> 'w handler \<Rightarrow> 'w handler" where
  "NewLogger emit now bytesOf next r w s =
     bind_run (next r w s) (\<lambda>(w1, s1).
       (let written = drop (length w) w1 in
        Returns (w1, emit \<lparr>le_method = rq_Method r, le_remote = rq_RemoteAddr r,
                           le_user_agent = rq_Header r ''User-Agent'',
                           le_status_code = wrapped_status written,
                           le_bytes = bytesOf written, le_duration = now s1 - now s\<rparr> s1)))"

subsection \<open>Facts\<close>

text \<open>The header is accepted when it is the scheme, a space and the rest, the scheme in any case.\<close>

lemma bearer_token_shape:
  "extractBearerToken h = t \<and> t \<noteq> [] \<longleftrightarrow>
   (\<exists>scheme rest. h = scheme @ CHR '' '' # rest \<and> CHR '' '' \<notin> set scheme \<and>
      ToLower scheme = ''bearer'' \<and> t = TrimSpace rest \<and> t \<noteq> [])"
proof (cases "breakAt (CHR '' '') h")
  case None
  then have "extractBearerToken h = []" by (auto simp: extractBearerToken_def SplitN2_def)
  with None breakAt_None [of "CHR '' ''" h] show ?thesis by auto
next
  case (Some x)
  obtain a b where x: "x = (a, b)" by (cases x)
  with Some have h: "h = a @ CHR '' '' # b" "CHR '' '' \<notin> set a" using breakAt_Some by metis+
  have u: "scheme = a \<and> rest = b" if "h = scheme @ CHR '' '' # rest" "CHR '' '' \<notin> set scheme" for scheme rest
    using that h append_sep_inj by metis
  have e: "extractBearerToken h = (if ToLower a \<noteq> ''bearer'' then [] else TrimSpace b)"
    using Some x h by (simp add: extractBearerToken_def SplitN2_def Let_def)
  show ?thesis
  proof
    assume "extractBearerToken h = t \<and> t \<noteq> []"
    with e have "ToLower a = ''bearer''" "t = TrimSpace b" "t \<noteq> []" by (metis)+
    with h show "\<exists>scheme rest. h = scheme @ CHR '' '' # rest \<and> CHR '' '' \<notin> set scheme \<and>
      ToLower scheme = ''bearer'' \<and> t = TrimSpace rest \<and> t \<noteq> []" by blast
  next
    assume "\<exists>scheme rest. h = scheme @ CHR '' '' # rest \<and> CHR '' '' \<notin> set scheme \<and>
      ToLower scheme = ''bearer'' \<and> t = TrimSpace rest \<and> t \<noteq> []"
    with u e show "extractBearerToken h = t \<and> t \<noteq> []" by metis
  qed
qed

lemma GetUserClaims_With [simp]: "GetUserClaims (WithUserClaims c r) = Inr c"
  by (simp add: GetUserClaims_def WithUserClaims_def)

text \<open>Behind the admin secret: the next handler runs after the secret was sent, or nothing does.\<close>

lemma NewAdminAuth_cases:
  "NewAdminAuth secretEnv allow reset next =
     (case b64_decode secretEnv of
        None \<Rightarrow> Exits 1
      | Some key \<Rightarrow> if key = [] then Crashes nil_panic else Built (admin_handler key allow reset next))"
  by (simp add: NewAdminAuth_def sl_Error_def split: option.split)

lemma NewAdminAuth_Built:
  "NewAdminAuth env allow reset next = Built h \<longleftrightarrow>
   (\<exists>key. b64_decode env = Some key \<and> key \<noteq> [] \<and> h = admin_handler key allow reset next)"
  by (auto simp: NewAdminAuth_cases split: option.split)

lemma admin_handler_elim:
  assumes "admin_handler key allow reset next r w s = Returns (w', s')"
  shows "s' = s \<or> s' = snd (allow (ExtractIP (rq_RemoteAddr r)) s) \<or>
    b64_decode (extractBearerToken (rq_Header r ''Authorization'')) = Some key \<and>
    next r w (snd (reset (ExtractIP (rq_RemoteAddr r)) (snd (allow (ExtractIP (rq_RemoteAddr r)) s)))) =
      Returns (w', s')"
  using assms by (auto simp: admin_handler_def Let_def split: option.split_asm if_split_asm prod.split_asm)

lemma NewAuth_elim:
  assumes "NewAuth validate next r w s = Returns (w', s')"
  shows "s' = s \<or>
    (\<exists>e. validate (extractBearerToken (rq_Header r ''Authorization'')) s = Returns (Inl e, s')) \<or>
    (\<exists>info s1. extractBearerToken (rq_Header r ''Authorization'') \<noteq> [] \<and>
       validate (extractBearerToken (rq_Header r ''Authorization'')) s = Returns (Inr info, s1) \<and>
       next (r\<lparr>ctx_UserID := Some (vr_UserID info), ctx_Roles := Some (vr_Roles info)\<rparr>) w s1 =
         Returns (w', s'))"
proof (cases "extractBearerToken (rq_Header r ''Authorization'') = []")
  case True
  with assms show ?thesis by (simp add: NewAuth_def)
next
  case False
  with assms obtain x s1 where v: "validate (extractBearerToken (rq_Header r ''Authorization'')) s = Returns (x, s1)"
    by (auto simp: NewAuth_def Let_def bind_run_Returns)
  with assms False show ?thesis
    by (cases x) (auto simp: NewAuth_def Let_def split: prod.split_asm bool.split_asm)
qed

text \<open>What the limiter's contract gives to requests that pass through the middleware.\<close>

context limiter
begin

text \<open>A caller below its budget passes, or the limiter is out of order and the caller passes too.\<close>

lemma below_budget_passes:
  assumes "valid s" "ip = ExtractIP (rq_RemoteAddr r)" "ip \<noteq> []" "hits s ip < mx"
  shows "\<exists>s1. NewRateLimiter allow next r w s = next r w s1 \<and> valid s1 \<and> hits s1 ip \<le> hits s ip + 1"
proof -
  obtain x s1 where a: "allow ip s = (x, s1)" by (cases "allow ip s")
  have "x \<noteq> Inr False" using allow_below [OF assms(1)] a assms(4) by auto
  with a assms allow_valid [OF assms(1) a] allow_own [OF assms(1) a] show ?thesis
    by (auto simp: NewRateLimiter_def split: sum.split)
qed

text \<open>The answer 429 goes to callers that have used their budget up.\<close>

lemma refusal_means_spent:
  assumes "valid s" "allow (ExtractIP (rq_RemoteAddr r)) s = (Inr False, s1)"
  shows "mx \<le> hits s (ExtractIP (rq_RemoteAddr r))"
  using allow_below [OF assms] by force

end

text \<open>
  A token is taken from the header exactly when the header is the scheme Bearer, in any case, one
  space and a rest that is not blank; the token is the rest without the spaces around it.
\<close>

theorem bearer_token_form:
  "extractBearerToken h = t \<and> t \<noteq> [] \<longleftrightarrow>
   (\<exists>scheme rest. h = scheme @ CHR '' '' # rest \<and> CHR '' '' \<notin> set scheme \<and>
      ToLower scheme = ''bearer'' \<and> t = TrimSpace rest \<and> t \<noteq> [])"
  by (rule bearer_token_shape)

end
