(* ===== verification/Grpc_Clients.thy ===== *)
theory Grpc_Clients
  imports Middlewares
begin

text \<open>
  \<open>internal/infrastructure/grpc\<close>: the clients of the authentication service.  The generated stubs
  of the protocol package are parameters, as records of calls over the state \<open>'w\<close>; what they
  return is arbitrary.  \<open>mapGrpcError\<close> turns gRPC statuses into the program's errors.
\<close>

subsection \<open>Messages of the protocol\<close>

record pb_user =
  pb_UserId :: int
  pb_Login :: string
  pb_Email :: string
  pb_Roles :: "string list"
  pb_IsAdmin :: bool
  pb_CreatedAt :: "instant option"

record pb_tokens =
  pb_AccessToken :: string
  pb_RefreshToken :: string
  pb_ExpiresIn :: int
  pb_User :: "pb_user option"

datatype token_status = TS_EXPIRED | TS_INVALID | TS_REVOKED | TS_OTHER nat

record pb_validate =
  pb_Status :: token_status
  pb_VUserId :: int
  pb_VRoles :: "string list"
  pb_ExpiresAt :: int

record pb_users =
  pb_Total :: int
  pb_Users :: "pb_user list"

record 'w auth_stub =
  stub_Login :: "string \<Rightarrow> string \<Rightarrow> 'w \<Rightarrow> pb_tokens result \<times> 'w"
  stub_Register :: "string \<Rightarrow> string \<Rightarrow> string \<Rightarrow> 'w \<Rightarrow> int result \<times> 'w"
  stub_Refresh :: "string \<Rightarrow> 'w \<Rightarrow> pb_tokens result \<times> 'w"
  stub_Logout :: "string \<Rightarrow> string \<Rightarrow> 'w \<Rightarrow> goerr option \<times> 'w"
  stub_ValidateToken :: "string \<Rightarrow> 'w \<Rightarrow> pb_validate result \<times> 'w"

record 'w user_stub =
  stub_GetUser :: "int \<Rightarrow> 'w \<Rightarrow> pb_user option result \<times> 'w"
  stub_GetUsers :: "string option \<Rightarrow> int \<Rightarrow> int \<Rightarrow> 'w \<Rightarrow> pb_users result \<times> 'w"
  stub_AssignRole :: "int \<Rightarrow> string \<Rightarrow> 'w \<Rightarrow> goerr option \<times> 'w"
  stub_RevokeRole :: "int \<Rightarrow> string \<Rightarrow> 'w \<Rightarrow> goerr option \<times> 'w"

subsection \<open>mapping.go\<close>

text \<open>\<open>status.FromError\<close>: the status of the chain; a wrapped one takes the text of the whole error.\<close>

fun find_status :: "goerr \<Rightarrow> (grpc_code \<times> string) option" where
  "find_status (Ext (GrpcStatus c m)) = Some (c, m)"
| "find_status (Wrapf pre e post) = find_status e"
| "find_status _ = None"

definition status_FromError :: "goerr \<Rightarrow> (grpc_code \<times> string) option" where
  "status_FromError err =
     (case err of
        Ext (GrpcStatus c m) \<Rightarrow> Some (c, m)
      | _ \<Rightarrow> map_option (\<lambda>(c, m). (c, error_text err)) (find_status err))"

text \<open>\<open>st.Err()\<close>: nil for the code OK, which is number 0.\<close>

definition status_Err :: "grpc_code \<Rightarrow> string \<Rightarrow> goerr option" where
  "status_Err c m = (if c = OtherCode 0 then None else Some (Ext (GrpcStatus c m)))"

definition pbRolesToDomain :: "string list \<Rightarrow> user_role list" where
  "pbRolesToDomain roles = map (\<lambda>role. role) roles"

definition pbUserToDomain :: "pb_user \<Rightarrow> user" where
  "pbUserToDomain user =
     \<lparr>u_ID = pb_UserId user, u_Login = pb_Login user, u_Email = pb_Email user,
      u_Roles = pbRolesToDomain (pb_Roles user), u_IsAdmin = pb_IsAdmin user,
      u_CreatedAt = (case pb_CreatedAt user of None \<Rightarrow> 0 | Some t \<Rightarrow> t)\<rparr>"

definition mapGrpcError :: "goerr \<Rightarrow> goerr option" where
  "mapGrpcError err =
     (case status_FromError err of
        None \<Rightarrow> Some (NewErr ''failed to get grpc status from error'')
      | Some (cd, message) \<Rightarrow>
          (if cd = CodeUnauthenticated then Some (Sentinel ErrInvalidCredentials)
           else if cd = CodeAlreadyExists then Some (Sentinel ErrUserAlreadyExists)
           else if cd = CodeResourceExhausted then Some (Sentinel ErrTooManyRequests)
           else if cd = CodeNotFound then Some (Sentinel ErrUserNotFound)
           else if cd = CodeInvalidArgument
           then Some (Wrapf [] (Sentinel ErrInvalidArgument) ('': '' @ message))
           else if cd = CodeCanceled then Some (Ext Canceled)
           else if cd = CodeDeadlineExceeded then Some (Ext DeadlineExceeded)
           else status_Err cd message))"

text \<open>\<open>mapGrpcError(nil)\<close> is nil.\<close>

definition mapGrpcError_opt :: "goerr option \<Rightarrow> goerr option" where
  "mapGrpcError_opt err = (case err of None \<Rightarrow> None | Some e \<Rightarrow> mapGrpcError e)"

text \<open>\<open>status.Code\<close>; 2 is the code Unknown.\<close>

definition status_Code :: "goerr \<Rightarrow> grpc_code" where
  "status_Code err = (case status_FromError err of None \<Rightarrow> OtherCode 2 | Some (c, m) \<Rightarrow> c)"

subsection \<open>auth_client.go\<close>

text \<open>
  A call that returned an error returns \<open>nil, mapGrpcError(err)\<close>; were the mapped error nil (the code
  OK), the caller would read a nil result and panic.
\<close>

definition failed :: "goerr option \<Rightarrow> 'w \<Rightarrow> ('a result \<times> 'w) run" where
  "failed err w = (case err of None \<Rightarrow> Panics nil_panic | Some e \<Rightarrow> Returns (Inl e, w))"

record login_result =
  lg_Tokens :: token_pair
  lg_User :: user
  lg_ExpiresIn :: int

record register_result =
  rgr_UserID :: int

record refresh_result =
  rs_Tokens :: token_pair
  rs_ExpiresIn :: int

definition AuthClient_Login ::
  "'w auth_stub \<Rightarrow> login_command \<Rightarrow> 'w \<Rightarrow> (login_result result \<times> 'w) run" where
  "AuthClient_Login ac command w =
     (case stub_Login ac (lc_Login command) (lc_Password command) w of
        (Inl err, w1) \<Rightarrow> failed (mapGrpcError err) w1
      | (Inr res, w1) \<Rightarrow>
          (case pb_User res of
             None \<Rightarrow> Panics nil_panic
           | Some u \<Rightarrow>
               Returns (Inr \<lparr>lg_Tokens = \<lparr>tp_AccessToken = pb_AccessToken res,
                                          tp_RefreshToken = pb_RefreshToken res\<rparr>,
                             lg_User = pbUserToDomain u, lg_ExpiresIn = pb_ExpiresIn res\<rparr>, w1)))"

definition AuthClient_Register ::
  "'w auth_stub \<Rightarrow> register_command \<Rightarrow> 'w \<Rightarrow> (register_result result \<times> 'w) run" where
  "AuthClient_Register ac command w =
     (case stub_Register ac (rg_Login command) (rg_Email command) (rg_Password command) w of
        (Inl err, w1) \<Rightarrow> failed (mapGrpcError err) w1
      | (Inr userId, w1) \<Rightarrow> Returns (Inr \<lparr>rgr_UserID = userId\<rparr>, w1))"

definition AuthClient_Refresh ::
  "'w auth_stub \<Rightarrow> refresh_command \<Rightarrow> 'w \<Rightarrow> (refresh_result result \<times> 'w) run" where
  "AuthClient_Refresh ac command w =
     (case stub_Refresh ac (fc_RefreshToken command) w of
        (Inl err, w1) \<Rightarrow>
          (if status_Code err = CodeUnauthenticated
           then Returns (Inl (Sentinel ErrInvalidRefreshToken), w1)
           else failed (mapGrpcError err) w1)
      | (Inr res, w1) \<Rightarrow>
          Returns (Inr \<lparr>rs_Tokens = \<lparr>tp_AccessToken = pb_AccessToken res,
                                     tp_RefreshToken = pb_RefreshToken res\<rparr>,
                        rs_ExpiresIn = pb_ExpiresIn res\<rparr>, w1))"

definition AuthClient_Logout :: "'w auth_stub \<Rightarrow> logout_command \<Rightarrow> 'w \<Rightarrow> goerr option \<times> 'w" where
  "AuthClient_Logout ac command w =
     (case stub_Logout ac (oc_RefreshToken command) (oc_AccessToken command) w of
        (Some err, w1) \<Rightarrow>
          (if status_Code err = CodeUnauthenticated
           then (Some (Sentinel ErrInvalidRefreshToken), w1)
           else (mapGrpcError err, w1))
      | (None, w1) \<Rightarrow> (None, w1))"

definition AuthClient_ValidateToken ::
  "'w auth_stub \<Rightarrow> string \<Rightarrow> 'w \<Rightarrow> (validate_result result \<times> 'w) run" where
  "AuthClient_ValidateToken ac accessToken w =
     (case stub_ValidateToken ac accessToken w of
        (Inl err, w1) \<Rightarrow> failed (mapGrpcError err) w1
      | (Inr res, w1) \<Rightarrow>
          (case pb_Status res of
             TS_EXPIRED \<Rightarrow> Returns (Inl (Sentinel ErrAccessTokenExpired), w1)
           | TS_INVALID \<Rightarrow> Returns (Inl (Sentinel ErrInvalidAccessToken), w1)
           | TS_REVOKED \<Rightarrow> Returns (Inl (Sentinel ErrAccessTokenRevoked), w1)
           | TS_OTHER n \<Rightarrow>
               Returns (Inr \<lparr>vr_UserID = pb_VUserId res, vr_Roles = pbRolesToDomain (pb_VRoles res),
                             vr_ExpiresAt = pb_ExpiresAt res\<rparr>, w1)))"

subsection \<open>user_client.go\<close>

record users_result =
  us_Total :: int
  us_Users :: "user list"

definition UserClient_GetUserByID :: "'w user_stub \<Rightarrow> int \<Rightarrow> 'w \<Rightarrow> (user result \<times> 'w) run" where
  "UserClient_GetUserByID us userID w =
     (case stub_GetUser us userID w of
        (Inl err, w1) \<Rightarrow> failed (mapGrpcError err) w1
      | (Inr None, w1) \<Rightarrow> Panics nil_panic
      | (Inr (Some u), w1) \<Rightarrow> Returns (Inr (pbUserToDomain u), w1))"

definition UserClient_GetAllUsers ::
  "'w user_stub \<Rightarrow> get_all_users \<Rightarrow> 'w \<Rightarrow> (users_result result \<times> 'w) run" where
  "UserClient_GetAllUsers us command w =
     (case stub_GetUsers us (gu_Role command) (wrap32 (gu_Page command)) (wrap32 (gu_Limit command)) w of
        (Inl err, w1) \<Rightarrow> failed (mapGrpcError err) w1
      | (Inr res, w1) \<Rightarrow>
          Returns (Inr \<lparr>us_Total = pb_Total res, us_Users = map pbUserToDomain (pb_Users res)\<rparr>, w1))"

definition UserClient_AssignRole :: "'w user_stub \<Rightarrow> assign_role \<Rightarrow> 'w \<Rightarrow> goerr option \<times> 'w" where
  "UserClient_AssignRole us command w =
     (case stub_AssignRole us (ar_UserID command) (ar_Role command) w of (err, w1) \<Rightarrow> (mapGrpcError_opt err, w1))"

definition UserClient_RevokeRole :: "'w user_stub \<Rightarrow> revoke_role \<Rightarrow> 'w \<Rightarrow> goerr option \<times> 'w" where
  "UserClient_RevokeRole us command w =
     (case stub_RevokeRole us (vk_UserID command) (vk_Role command) w of (err, w1) \<Rightarrow>
        (if (case err of None \<Rightarrow> False | Some e \<Rightarrow> status_Code e = CodeNotFound)
         then (Some (Sentinel ErrRoleNotExist), w1)
         else (mapGrpcError_opt err, w1)))"

subsection \<open>Facts\<close>

lemma mapGrpcError_status:
  "mapGrpcError (Ext (GrpcStatus c m)) =
     (case c of
        CodeUnauthenticated \<Rightarrow> Some (Sentinel ErrInvalidCredentials)
      | CodeAlreadyExists \<Rightarrow> Some (Sentinel ErrUserAlreadyExists)
      | CodeResourceExhausted \<Rightarrow> Some (Sentinel ErrTooManyRequests)
      | CodeNotFound \<Rightarrow> Some (Sentinel ErrUserNotFound)
      | CodeInvalidArgument \<Rightarrow> Some (Wrapf [] (Sentinel ErrInvalidArgument) ('': '' @ m))
      | CodeCanceled \<Rightarrow> Some (Ext Canceled)
      | CodeDeadlineExceeded \<Rightarrow> Some (Ext DeadlineExceeded)
      | OtherCode n \<Rightarrow> if n = 0 then None else Some (Ext (GrpcStatus (OtherCode n) m)))"
  by (cases c) (simp_all add: mapGrpcError_def status_FromError_def status_Err_def)

lemma mapGrpcError_not_ok:
  "(\<forall>m. status_FromError err \<noteq> Some (OtherCode 0, m)) \<Longrightarrow> mapGrpcError err \<noteq> None"
  by (auto simp: mapGrpcError_def status_Err_def split: option.split)

text \<open>
  Every status of the authentication service becomes the error that \<open>mapping.go\<close> names for it, and
  the two clients that look at the code first say "invalid refresh token" for Unauthenticated where the
  others say "invalid credentials".
\<close>

theorem grpc_statuses_are_mapped:
  "mapGrpcError (Ext (GrpcStatus c m)) =
     (case c of
        CodeUnauthenticated \<Rightarrow> Some (Sentinel ErrInvalidCredentials)
      | CodeAlreadyExists \<Rightarrow> Some (Sentinel ErrUserAlreadyExists)
      | CodeResourceExhausted \<Rightarrow> Some (Sentinel ErrTooManyRequests)
      | CodeNotFound \<Rightarrow> Some (Sentinel ErrUserNotFound)
      | CodeInvalidArgument \<Rightarrow> Some (Wrapf [] (Sentinel ErrInvalidArgument) ('': '' @ m))
      | CodeCanceled \<Rightarrow> Some (Ext Canceled)
      | CodeDeadlineExceeded \<Rightarrow> Some (Ext DeadlineExceeded)
      | OtherCode n \<Rightarrow> if n = 0 then None else Some (Ext (GrpcStatus (OtherCode n) m))) \<and>
   AuthClient_Refresh (ac\<lparr>stub_Refresh := \<lambda>t w. (Inl (Ext (GrpcStatus CodeUnauthenticated m)), w)\<rparr>) \<lparr>fc_RefreshToken = t\<rparr> w =
     Returns (Inl (Sentinel ErrInvalidRefreshToken), w) \<and>
   AuthClient_Login (ac\<lparr>stub_Login := \<lambda>l p w. (Inl (Ext (GrpcStatus CodeUnauthenticated m)), w)\<rparr>) \<lparr>lc_Login = l, lc_Password = pw\<rparr> w =
     Returns (Inl (Sentinel ErrInvalidCredentials), w)"
  by (simp add: mapGrpcError_status AuthClient_Refresh_def AuthClient_Login_def status_Code_def status_FromError_def failed_def)

end
