(* ===== verification/Handlers.thy ===== *)
theory Handlers
  imports Middlewares Grpc_Clients Go_Paths
begin

text \<open>
  \<open>internal/delivery/handlers\<close>: the fourteen handlers.  Each is the function \<open>New\<close> of its
  package, named after the package; the service it calls is an argument, of the type that
  renders the interface the package declares for it.  JSON objects list the
  fields that \<open>encoding/json\<close> writes, in the order of the struct, without the empty ones that
  carry \<open>omitempty\<close>.
\<close>

subsection \<open>Shared branches\<close>

definition str_field :: "string \<Rightarrow> string \<Rightarrow> (string \<times> json) list" where
  "str_field n v = (if v = [] then [] else [(n, JStr v)])"

definition int_field :: "string \<Rightarrow> int \<Rightarrow> (string \<times> json) list" where
  "int_field n v = (if v = 0 then [] else [(n, JInt v)])"

definition arr_field :: "string \<Rightarrow> json list \<Rightarrow> (string \<times> json) list" where
  "arr_field n v = (if v = [] then [] else [(n, JArr v)])"

definition internal_error :: "replies \<Rightarrow> replies" where
  "internal_error w = RenderError 500 ''internal server error'' w"

text \<open>
  The error branch of the handlers: what the table of errors renders is the answer, an error of
  the context is not answered, anything else is 500.
\<close>

definition file_failure :: "goerr \<Rightarrow> replies \<Rightarrow> replies" where
  "file_failure err w =
     (case RenderFileServiceError err w of
        (True, w1) \<Rightarrow> w1
      | (False, w1) \<Rightarrow> if IsCtxError err then w1 else internal_error w1)"

definition auth_failure :: "goerr \<Rightarrow> replies \<Rightarrow> replies" where
  "auth_failure err w =
     (case RenderAuthServiceError err w of
        (True, w1) \<Rightarrow> w1
      | (False, w1) \<Rightarrow> if IsCtxError err then w1 else internal_error w1)"

definition plain_failure :: "goerr \<Rightarrow> replies \<Rightarrow> replies" where
  "plain_failure err w = (if IsCtxError err then w else internal_error w)"

definition requesting_user :: "user_claims \<Rightarrow> user_info" where
  "requesting_user claims = \<lparr>ui_UserID = uc_UserID claims, ui_Roles = uc_Roles claims\<rparr>"

subsection \<open>api/upload\<close>

record upload_request =
  ur_MaxDownloads :: int
  ur_TTL :: duration
  ur_Password :: string

definition getRequestFromForm :: "service_cfg \<Rightarrow> request \<Rightarrow> upload_request result" where
  "getRequestFromForm cfg r =
     (let maxDownloadsStr = rq_FormValue r ''max_downloads''; ttlStr = rq_FormValue r ''ttl'' in
      case (if maxDownloadsStr \<noteq> [] then
              (case ParseInt (rq_FormValue r ''max_downloads'') 16 of
                 Inl _ \<Rightarrow> Inl (NewErr ''max_downloads must be a number'')
               | Inr parsedDownloads \<Rightarrow>
                   if parsedDownloads \<le> 0 \<or> parsedDownloads > 10000
                   then Inl (NewErr ''max_downloads must be between 1 and 10000'')
                   else Inr (wrap16 parsedDownloads))
            else Inr (DefaultMaxDownloads cfg)) of
        Inl err \<Rightarrow> Inl err
      | Inr maxDownloads \<Rightarrow>
     (case (if ttlStr \<noteq> [] then
              (case ParseDuration ttlStr of
                 Inl _ \<Rightarrow> Inl (NewErr (''ttl must be like '' @ [CHR 0x27] @ ''1h30m'' @ [CHR 0x27]))
               | Inr ttl \<Rightarrow> Inr ttl)
            else Inr (DefaultTtl cfg)) of
        Inl err \<Rightarrow> Inl err
      | Inr ttl \<Rightarrow>
          Inr \<lparr>ur_MaxDownloads = maxDownloads, ur_TTL = ttl,
               ur_Password = rq_FormValue r ''password''\<rparr>))"

definition upload_Response :: "string \<Rightarrow> json" where
  "upload_Response alias = JObj (str_field ''alias'' alias)"

type_synonym 'w FileUploader = "upload_file \<Rightarrow> 'w \<Rightarrow> (string result \<times> 'w) run"

definition upload_New ::
  "'w FileUploader \<Rightarrow> service_cfg \<Rightarrow> 'w handler" where
  "upload_New uploadFile cfg r w s =
     (case GetUserClaims r of
        Inl err \<Rightarrow> Returns (internal_error w, s)
      | Inr claims \<Rightarrow>
     (if \<not> rq_ParseForm r (MaxFilesSizeForVipInBytes (Permissions cfg))
      then Returns (RenderError 400 ''failed to parse multipart/form'' w, s)
      else
     (case getRequestFromForm cfg r of
        Inl err \<Rightarrow> Returns (RenderError 400 (error_text err) w, s)
      | Inr request \<Rightarrow>
     (case rq_FormFile r ''file'' of
        None \<Rightarrow> Returns (RenderError 400 ''file is required'' w, s)
      | Some (filename, file) \<Rightarrow>
          bind_run
            (uploadFile \<lparr>uf_File = file, uf_Filesize = int (length file), uf_Filename = filename,
                         uf_MaxDownloads = ur_MaxDownloads request,
                         uf_Password = ur_Password request, uf_TTL = ur_TTL request,
                         uf_User = requesting_user claims\<rparr> s)
            (\<lambda>(res, s1). Returns (case res of
               Inl err \<Rightarrow> file_failure err w
             | Inr alias \<Rightarrow> w @ [Rendered 201 (upload_Response alias)], s1))))))"

subsection \<open>api/download\<close>

type_synonym 'w FileDownloader = "download_file \<Rightarrow> 'w \<Rightarrow> download_result result \<times> 'w"

text \<open>
  \<open>mimeType\<close> is \<open>mime.TypeByExtension\<close>, which reads tables of the system; \<open>copyOut\<close> is
  \<open>io.Copy\<close> to the response: how many bytes went out and what error ended it, if any.
\<close>

definition download_New ::
  "'w FileDownloader \<Rightarrow> (nat \<Rightarrow> 'w \<Rightarrow> goerr option \<times> 'w) \<Rightarrow>
   (string \<Rightarrow> string) \<Rightarrow> (string \<Rightarrow> 'w \<Rightarrow> (nat \<times> goerr option) \<times> 'w) \<Rightarrow> 'w handler" where
  "download_New downloadFile closeFile mimeType copyOut r w s =
     (let alias = rq_URLParam r ''alias''; password = rq_Header r ''X-Resource-Password'' in
      case downloadFile \<lparr>df_Alias = alias, df_Password = password\<rparr> s of
        (Inl err, s1) \<Rightarrow> Returns (file_failure err w, s1)
      | (Inr file, s1) \<Rightarrow>
          (let ct = mimeType (filepath_Ext (dr_Name file));
               contentType = (if ct = [] then ''application/octet-stream'' else ct);
               w1 = w @ [HeaderSet ''Content-Type'' contentType,
                         HeaderSet ''Content-Disposition''
                           (''attachment; filename='' @ [CHR 0x22] @ dr_Name file @ [CHR 0x22]),
                         HeaderSet ''Content-Length'' (decInt (dr_Size file))] in
           case copyOut (dr_File file) s1 of
             ((n, err), s2) \<Rightarrow>
               (let sent = take n (dr_File file);
                    w2 = (if sent = [] then w1 else w1 @ [Copied sent]);
                    w3 = (case err of
                            None \<Rightarrow> w2
                          | Some e \<Rightarrow>
                              if errors_Is e (Ext EPIPE) \<or> errors_Is e (Ext ClosedPipe) then w2
                              else internal_error w2)
                in Returns (w3, snd (closeFile (dr_fd file) s2)))))"

subsection \<open>api/files\<close>

definition delete_Response :: json where
  "delete_Response = JObj []"

type_synonym 'w FileDeleter = "delete_file \<Rightarrow> 'w \<Rightarrow> goerr option \<times> 'w"

definition delete_New :: "'w FileDeleter \<Rightarrow> 'w handler" where
  "delete_New deleteFile r w s =
     (let alias = rq_URLParam r ''alias'' in
      case GetUserClaims r of
        Inl err \<Rightarrow> Returns (internal_error w, s)
      | Inr claims \<Rightarrow>
     (case deleteFile \<lparr>del_Alias = alias, del_User = requesting_user claims\<rparr> s of
        (Some err, s1) \<Rightarrow> Returns (file_failure err w, s1)
      | (None, s1) \<Rightarrow> Returns (w @ [Rendered 204 delete_Response], s1)))"

definition get_Response :: "get_file_result \<Rightarrow> json" where
  "get_Response file = JObj
     (str_field ''filename'' (gr_Filename file) @ int_field ''filesize'' (gr_Filesize file) @
      int_field ''downloads_left'' (gr_DownloadsLeft file) @
      str_field ''expires_in'' (TimeString (gr_ExpiresIn file)))"

type_synonym 'w FileGetter = "get_file \<Rightarrow> 'w \<Rightarrow> get_file_result result \<times> 'w"

definition get_New :: "'w FileGetter \<Rightarrow> 'w handler" where
  "get_New getFileByAlias r w s =
     (let alias = rq_URLParam r ''alias'' in
      case GetUserClaims r of
        Inl err \<Rightarrow> Returns (internal_error w, s)
      | Inr claims \<Rightarrow>
     (case getFileByAlias \<lparr>gf_Alias = alias, gf_User = requesting_user claims\<rparr> s of
        (Inl err, s1) \<Rightarrow> Returns (file_failure err w, s1)
      | (Inr file, s1) \<Rightarrow>
          Returns (w @ [Rendered 200 (get_Response file)], s1)))"

definition getAll_file :: "get_file_result \<Rightarrow> json" where
  "getAll_file file = JObj
     [(''alias'', JStr (gr_Alias file)), (''filename'', JStr (gr_Filename file)),
      (''filesize'', JInt (gr_Filesize file)), (''downloads_left'', JInt (gr_DownloadsLeft file)),
      (''expires_at'', JStr (TimeString (gr_ExpiresIn file)))]"

definition getAll_Response :: "int \<Rightarrow> int \<Rightarrow> get_all_files_result \<Rightarrow> json" where
  "getAll_Response page limit files = JObj
     (int_field ''total'' (gar_Total files) @ int_field ''limit'' limit @
      int_field ''page'' page @ arr_field ''files'' (map getAll_file (gar_Files files)))"

type_synonym 'w AllFilesGetter = "get_all_files \<Rightarrow> 'w \<Rightarrow> get_all_files_result result \<times> 'w"

definition getAll_New :: "'w AllFilesGetter \<Rightarrow> 'w handler" where
  "getAll_New getAllFiles r w s =
     (case ScanPaginationArgs r of (page, limit) \<Rightarrow>
      case GetUserClaims r of
        Inl err \<Rightarrow> Returns (internal_error w, s)
      | Inr claims \<Rightarrow>
     (case getAllFiles \<lparr>ga_Page = page, ga_Limit = limit, ga_UserID = uc_UserID claims\<rparr> s of
        (Inl err, s1) \<Rightarrow> Returns (plain_failure err w, s1)
      | (Inr files, s1) \<Rightarrow>
          Returns (w @ [Rendered 200 (getAll_Response page limit files)], s1)))"

definition stat_Response :: "get_files_stat_result \<Rightarrow> json" where
  "stat_Response result = JObj
     (int_field ''occupied_size'' (fst_Size (gsr_Stat result)) @ int_field ''max_size'' (gsr_MaxSize result) @
      int_field ''count'' (fst_Count (gsr_Stat result)) @ int_field ''max_count'' (gsr_MaxCount result))"

type_synonym 'w FilesStatGetter = "get_files_stat \<Rightarrow> 'w \<Rightarrow> get_files_stat_result result \<times> 'w"

definition stat_New :: "'w FilesStatGetter \<Rightarrow> 'w handler" where
  "stat_New getFilesStat r w s =
     (case GetUserClaims r of
        Inl err \<Rightarrow> Returns (internal_error w, s)
      | Inr claims \<Rightarrow>
     (case getFilesStat \<lparr>gs_User = requesting_user claims\<rparr> s of
        (Inl err, s1) \<Rightarrow> Returns (plain_failure err w, s1)
      | (Inr result, s1) \<Rightarrow>
          Returns (w @ [Rendered 200 (stat_Response result)], s1)))"

subsection \<open>api/auth\<close>

definition login_Response :: "login_result \<Rightarrow> json" where
  "login_Response result = JObj
     (str_field ''access_token'' (tp_AccessToken (lg_Tokens result)) @
      str_field ''refresh_token'' (tp_RefreshToken (lg_Tokens result)) @
      int_field ''expires_in'' (lg_ExpiresIn result))"

type_synonym 'w UserLogin = "login_command \<Rightarrow> 'w \<Rightarrow> (login_result result \<times> 'w) run"

definition login_New ::
  "'w UserLogin \<Rightarrow> 'w handler" where
  "login_New login r w s =
     (case GetParsedBodyRequest LoginT r of
        None \<Rightarrow> Returns (internal_error w, s)
      | Some request \<Rightarrow>
          bind_run (login \<lparr>lc_Login = lr_Login request, lc_Password = lr_Password request\<rparr> s) (\<lambda>(res, s1). Returns (case res of
              Inl err \<Rightarrow> auth_failure err w
            | Inr result \<Rightarrow> w @ [Rendered 200 (login_Response result)], s1)))"

type_synonym 'w UserLogout = "logout_command \<Rightarrow> 'w \<Rightarrow> goerr option \<times> 'w"

text \<open>Success sets a status and writes nothing.\<close>

definition logout_New ::
  "'w UserLogout \<Rightarrow> 'w handler" where
  "logout_New logout r w s =
     (case GetParsedBodyRequest LogoutT r of
        None \<Rightarrow> Returns (internal_error w, s)
      | Some request \<Rightarrow>
          (case logout \<lparr>oc_RefreshToken = lo_RefreshToken request, oc_AccessToken = lo_AccessToken request\<rparr> s of
             (Some err, s1) \<Rightarrow> Returns (auth_failure err w, s1)
           | (None, s1) \<Rightarrow> Returns (w, s1)))"

definition refresh_Response :: "refresh_result \<Rightarrow> json" where
  "refresh_Response result = JObj
     (str_field ''access_token'' (tp_AccessToken (rs_Tokens result)) @
      str_field ''refresh_token'' (tp_RefreshToken (rs_Tokens result)) @
      int_field ''expires_in'' (rs_ExpiresIn result))"

type_synonym 'w TokenRefresh = "refresh_command \<Rightarrow> 'w \<Rightarrow> (refresh_result result \<times> 'w) run"

definition refresh_New ::
  "'w TokenRefresh \<Rightarrow> 'w handler" where
  "refresh_New refresh r w s =
     (case GetParsedBodyRequest RefreshT r of
        None \<Rightarrow> Returns (internal_error w, s)
      | Some request \<Rightarrow>
          bind_run (refresh \<lparr>fc_RefreshToken = rf_RefreshToken request\<rparr> s) (\<lambda>(res, s1). Returns (case res of
              Inl err \<Rightarrow> auth_failure err w
            | Inr result \<Rightarrow> w @ [Rendered 200 (refresh_Response result)], s1)))"

definition register_Response :: "register_result \<Rightarrow> json" where
  "register_Response result = JObj (int_field ''user_id'' (rgr_UserID result))"

type_synonym 'w UserRegister = "register_command \<Rightarrow> 'w \<Rightarrow> (register_result result \<times> 'w) run"

definition register_New ::
  "'w UserRegister \<Rightarrow> 'w handler" where
  "register_New register r w s =
     (case GetParsedBodyRequest RegisterT r of
        None \<Rightarrow> Returns (internal_error w, s)
      | Some request \<Rightarrow>
          bind_run (register \<lparr>rg_Login = rr_Login request, rg_Email = rr_Email request, rg_Password = rr_Password request\<rparr> s)
            (\<lambda>(res, s1). Returns (case res of
              Inl err \<Rightarrow> auth_failure err w
            | Inr result \<Rightarrow> w @ [Rendered 200 (register_Response result)], s1)))"

subsection \<open>api/admin/users\<close>

definition user_json :: "user \<Rightarrow> json" where
  "user_json u = JObj
     [(''ID'', JInt (u_ID u)), (''Login'', JStr (u_Login u)), (''Email'', JStr (u_Email u)),
      (''Roles'', JArr (map JStr (u_Roles u))), (''IsAdmin'', JBool (u_IsAdmin u)),
      (''CreatedAt'', JTime (u_CreatedAt u))]"

definition userGet_Response :: "user \<Rightarrow> json" where
  "userGet_Response u = JObj [(''user'', user_json u)]"

type_synonym 'w UserGetter = "int \<Rightarrow> 'w \<Rightarrow> (user result \<times> 'w) run"

definition userGet_New :: "'w UserGetter \<Rightarrow> 'w handler" where
  "userGet_New getUserByID r w s =
     (case ParseInt (rq_URLParam r ''id'') 64 of
        Inl _ \<Rightarrow> Returns (RenderError 400 ''failed to parse user id'' w, s)
      | Inr userID \<Rightarrow>
          bind_run (getUserByID userID s) (\<lambda>(res, s1). Returns (case res of
              Inl err \<Rightarrow> auth_failure err w
            | Inr u \<Rightarrow> w @ [Rendered 200 (userGet_Response u)], s1)))"

definition userGetAll_Response :: "int \<Rightarrow> int \<Rightarrow> users_result \<Rightarrow> json" where
  "userGetAll_Response page limit result = JObj
     (int_field ''page'' page @ int_field ''limit'' limit @ int_field ''total'' (us_Total result) @
      arr_field ''users'' (map user_json (us_Users result)))"

type_synonym 'w AllUsersGetter = "get_all_users \<Rightarrow> 'w \<Rightarrow> (users_result result \<times> 'w) run"

definition userGetAll_New ::
  "'w AllUsersGetter \<Rightarrow> 'w handler" where
  "userGetAll_New getAllUsers r w s =
     (case ScanPaginationArgs r of (page, limit) \<Rightarrow>
      let roleQuery = rq_Query r ''role''; role = (if roleQuery \<noteq> [] then Some roleQuery else None) in
      bind_run (getAllUsers \<lparr>gu_Page = page, gu_Limit = limit, gu_Role = role\<rparr> s) (\<lambda>(res, s1). Returns (case res of
          Inl err \<Rightarrow> plain_failure err w
        | Inr result \<Rightarrow> w @ [Rendered 200 (userGetAll_Response page limit result)], s1)))"

definition assign_Response :: json where
  "assign_Response = JObj []"

type_synonym 'w RoleAssigning = "assign_role \<Rightarrow> 'w \<Rightarrow> goerr option \<times> 'w"

definition assign_New :: "'w RoleAssigning \<Rightarrow> 'w handler" where
  "assign_New assignRole r w s =
     (case GetParsedBodyRequest AssignT r of
        None \<Rightarrow> Returns (internal_error w, s)
      | Some request \<Rightarrow>
     (case ParseInt (rq_URLParam r ''id'') 64 of
        Inl _ \<Rightarrow> Returns (RenderError 400 ''failed to parse user id'' w, s)
      | Inr userID \<Rightarrow>
     (case assignRole \<lparr>ar_UserID = userID, ar_Role = as_Role request\<rparr> s of
        (Some err, s1) \<Rightarrow> Returns (auth_failure err w, s1)
      | (None, s1) \<Rightarrow> Returns (w @ [Rendered 201 assign_Response], s1))))"

definition revoke_Response :: json where
  "revoke_Response = JObj []"

type_synonym 'w RoleRevoker = "revoke_role \<Rightarrow> 'w \<Rightarrow> goerr option \<times> 'w"

definition revoke_New :: "'w RoleRevoker \<Rightarrow> 'w handler" where
  "revoke_New revokeRole r w s =
     (case GetParsedBodyRequest RevokeT r of
        None \<Rightarrow> Returns (internal_error w, s)
      | Some request \<Rightarrow>
     (case ParseInt (rq_URLParam r ''id'') 64 of
        Inl _ \<Rightarrow> Returns (RenderError 400 ''failed to parse user id'' w, s)
      | Inr userID \<Rightarrow>
     (case revokeRole \<lparr>vk_UserID = userID, vk_Role = rv_Role request\<rparr> s of
        (Some err, s1) \<Rightarrow> Returns (auth_failure err w, s1)
      | (None, s1) \<Rightarrow> Returns (w @ [Rendered 204 revoke_Response], s1))))"

declare delete_Response_def [simp] assign_Response_def [simp] revoke_Response_def [simp]
  upload_Response_def [simp] get_Response_def [simp] getAll_Response_def [simp] stat_Response_def [simp]
  login_Response_def [simp] refresh_Response_def [simp] register_Response_def [simp]
  userGet_Response_def [simp] userGetAll_Response_def [simp]

subsection \<open>Facts\<close>

text \<open>
  The error branch of the file handlers: the status of the table, no answer for an error of the
  context, 500 otherwise.
\<close>

definition failure_status :: "(sentinel \<Rightarrow> int option) \<Rightarrow> goerr \<Rightarrow> int option" where
  "failure_status table err =
     (case leaf_status table err of
        Some s \<Rightarrow> Some s
      | None \<Rightarrow> if isCtxError err then None else Some 500)"

lemma file_failure_status:
  "case failure_status file_error_status err of
     None \<Rightarrow> file_failure err w = w
   | Some s \<Rightarrow> \<exists>j. file_failure err w = w @ [Rendered s j]"
  using RenderFileServiceError_status [of err w]
  by (auto simp: file_failure_def failure_status_def internal_error_def RenderError_def
      split: option.splits)

lemma auth_failure_status:
  "case failure_status auth_error_status err of
     None \<Rightarrow> auth_failure err w = w
   | Some s \<Rightarrow> \<exists>j. auth_failure err w = w @ [Rendered s j]"
  using RenderAuthServiceError_status [of err w]
  by (auto simp: auth_failure_def failure_status_def internal_error_def RenderError_def
      split: option.splits)

lemma sent_status_prefix: "unanswered w \<Longrightarrow> sent_status (w @ w') = sent_status w'"
proof (induction w)
  case (Cons x w)
  then show ?case by (cases x) (simp_all add: unanswered_def)
qed simp

lemma unanswered_append: "unanswered (w @ w') \<longleftrightarrow> unanswered w \<and> unanswered w'"
  by (simp add: unanswered_def)

text \<open>What the form of an upload may contain.\<close>

lemma getRequestFromForm_bounds:
  assumes "getRequestFromForm cfg r = Inr q"
    and "1 \<le> DefaultMaxDownloads cfg" "DefaultMaxDownloads cfg < 2 ^ 15"
    and "int64_range (DefaultTtl cfg)"
  shows "1 \<le> ur_MaxDownloads q" "ur_MaxDownloads q < 2 ^ 15" "int64_range (ur_TTL q)"
proof -
  have "wrap16 n = n" if "0 < n" "n \<le> 10000" for n :: int using that by (intro wrap16_id) auto
  with assms show "1 \<le> ur_MaxDownloads q" "ur_MaxDownloads q < 2 ^ 15"
    by (auto simp: getRequestFromForm_def Let_def split: if_splits sum.splits)
  show "int64_range (ur_TTL q)"
    using assms ParseDuration_range
    by (auto simp: getRequestFromForm_def Let_def split: if_splits sum.splits)
qed

text \<open>
  What the upload handler passes on is of the types the service and the database expect: the
  number of downloads is at least 1 and fits the int16 column, the time to live is an int64, if the
  defaults of the configuration are.
\<close>

theorem upload_form_bounds:
  assumes "getRequestFromForm cfg r = Inr q"
    and "1 \<le> DefaultMaxDownloads cfg" "DefaultMaxDownloads cfg < 2 ^ 15" "int64_range (DefaultTtl cfg)"
  shows "1 \<le> ur_MaxDownloads q \<and> ur_MaxDownloads q < 2 ^ 15 \<and> int64_range (ur_TTL q) \<and>
    (rq_FormValue r ''max_downloads'' \<noteq> [] \<longrightarrow> ur_MaxDownloads q \<le> 10000)"
proof -
  have "wrap16 n = n" if "0 < n" "n \<le> 10000" for n :: int using that by (intro wrap16_id) auto
  with assms(1) have "rq_FormValue r ''max_downloads'' \<noteq> [] \<longrightarrow> ur_MaxDownloads q \<le> 10000"
    by (auto simp: getRequestFromForm_def Let_def split: if_split_asm sum.split_asm)
  with getRequestFromForm_bounds [OF assms] show ?thesis by blast
qed

theorem upload_form_bounds_witness:
  "\<exists>q. getRequestFromForm
      \<lparr>DefaultTtl = hour, DefaultMaxDownloads = 1, AliasLength = 6, FileWorkerDelay = minute,
       Permissions = \<lparr>MaxFilesSizeForUser = [], MaxFilesSizeForVip = [], MaxUploadedFiles = 1,
         MaxFilesSizeForUserInBytes = 1, MaxFilesSizeForVipInBytes = 1\<rparr>\<rparr>
      \<lparr>rq_Method = ''POST'', rq_RemoteAddr = [], rq_Header = \<lambda>h. [], rq_Query = \<lambda>q. [], rq_URLParam = \<lambda>u. [],
       rq_ContentLength = 0, rq_Body = [], rq_ParseForm = \<lambda>n. True,
       rq_FormValue = \<lambda>f. if f = ''max_downloads'' then ''25'' else [], rq_FormFile = \<lambda>f. None,
       ctx_UserID = None, ctx_Roles = None, ctx_Payload = None\<rparr> = Inr q \<and>
    ur_MaxDownloads q \<le> 10000 \<and> ur_MaxDownloads q = 25"
proof -
  let ?cfg = "\<lparr>DefaultTtl = hour, DefaultMaxDownloads = 1, AliasLength = 6, FileWorkerDelay = minute,
       Permissions = \<lparr>MaxFilesSizeForUser = [], MaxFilesSizeForVip = [], MaxUploadedFiles = 1,
         MaxFilesSizeForUserInBytes = 1, MaxFilesSizeForVipInBytes = 1\<rparr>\<rparr>"
  let ?r = "\<lparr>rq_Method = ''POST'', rq_RemoteAddr = [], rq_Header = \<lambda>h. [], rq_Query = \<lambda>q. [], rq_URLParam = \<lambda>u. [],
       rq_ContentLength = 0, rq_Body = [], rq_ParseForm = \<lambda>n. True,
       rq_FormValue = \<lambda>f. if f = ''max_downloads'' then ''25'' else [], rq_FormFile = \<lambda>f. None,
       ctx_UserID = None, ctx_Roles = None, ctx_Payload = None\<rparr>"
  have "ParseInt ''25'' 16 = Inr (int 25)"
    using ParseInt_digits [of "''25''" 25 16] by (simp add: isDigit_def digitVal_def code_def)
  then have q: "getRequestFromForm ?cfg ?r = Inr \<lparr>ur_MaxDownloads = 25, ur_TTL = hour, ur_Password = []\<rparr>"
    by (simp add: getRequestFromForm_def wrap16_id)
  from q upload_form_bounds [OF q] show ?thesis by (simp add: int64_range_def)
qed


end
