(* ===== verification/Config.thy ===== *)
theory Config
  imports Sizes
begin

text \<open>
  \<open>internal/config/config.go\<close>: the configuration and how it is loaded.  The environment, the
  existence of the file and the reading of the file (\<open>cleanenv\<close>, which fills the defaults) are
  parameters.
\<close>

definition EnvLocal :: string where "EnvLocal = ''local''"
definition EnvDev :: string where "EnvDev = ''dev''"
definition EnvProd :: string where "EnvProd = ''prod''"

record storage_cfg =
  sg_Type :: string
  sg_Path :: string

record cors_cfg =
  AllowedOrigins :: "string list"
  AllowedOriginsEnv :: string
  AllowedCredentials :: bool
  MaxAge :: int

record http_cfg =
  hs_Port :: int
  hs_WriteTimeout :: duration
  hs_ReadTimeout :: duration
  hs_IdleTimeout :: duration
  hs_CORS :: cors_cfg

record redis_cfg =
  rc_Addr :: string
  rc_Password :: string
  rc_DB :: int
  rc_DialTimeout :: duration
  rc_Timeout :: duration
  rc_MaxRetries :: int

record limiters_cfg =
  rl_Admin :: rate_limiter_params
  rl_Files :: rate_limiter_params
  rl_Register :: rate_limiter_params

record auth_cfg =
  au_Addr :: string

record config =
  cf_Env :: string
  cf_DbHost :: string
  cf_DbPassword :: string
  cf_DbConnectionString :: string
  cf_Storage :: storage_cfg
  cf_HttpServer :: http_cfg
  cf_Service :: service_cfg
  cf_RateLimiter :: limiters_cfg
  cf_AuthService :: auth_cfg
  cf_Redis :: redis_cfg

text \<open>\<open>strings.Split(s, ",")\<close> with every part trimmed.\<close>

definition split_origins :: "string \<Rightarrow> string list" where
  "split_origins s = map TrimSpace (Split (CHR '','') s)"

definition connection_string :: "config \<Rightarrow> string" where
  "connection_string cfg =
     ''root:'' @ cf_DbPassword cfg @ ''@tcp('' @ cf_DbHost cfg @
     '')/ExpireShare?charset=utf8&parseTime=True''"

definition Load ::
  "(string \<Rightarrow> string) \<Rightarrow> (string \<Rightarrow> goerr option) \<Rightarrow> (string \<Rightarrow> config result) \<Rightarrow> config result" where
  "Load getenv stat readConfig =
     (let cfgPath = getenv ''CONFIG_PATH'' in
      if cfgPath = [] then Inl (NewErr ''env variable CONFIG_PATH not found'')
      else if stat cfgPath = Some (Ext NotExist)
      then Inl (NewErr (''config file '' @ cfgPath @ '' does not exist''))
      else (case readConfig cfgPath of
          Inl err \<Rightarrow> Inl (errorf ''failed to read config: '' err)
        | Inr cfg \<Rightarrow>
            (let http = cf_HttpServer cfg;
                 origins = split_origins (AllowedOriginsEnv (hs_CORS http));
                 cfg1 = cfg\<lparr>cf_HttpServer := http\<lparr>hs_CORS := (hs_CORS http)\<lparr>AllowedOrigins := origins\<rparr>\<rparr>\<rparr>
             in case setPermissionsConfig (Permissions (cf_Service cfg1)) of
                  Inl err \<Rightarrow> Inl err
                | Inr perms \<Rightarrow>
                    (let cfg2 = cfg1\<lparr>cf_Service := (cf_Service cfg1)\<lparr>Permissions := perms\<rparr>\<rparr>
                     in Inr (cfg2\<lparr>cf_DbConnectionString := connection_string cfg2\<rparr>)))))"

definition MustLoad :: "config result \<Rightarrow> config boot" where
  "MustLoad loaded = (case loaded of Inl err \<Rightarrow> Exits 1 | Inr cfg \<Rightarrow> Built cfg)"

subsection \<open>Facts\<close>

text \<open>A configuration that loads has the limits its size strings say.\<close>

lemma setPermissionsConfig_Inr:
  assumes "setPermissionsConfig p = Inr q"
  shows "ToBytes (MaxFilesSizeForUser p) = Inr (MaxFilesSizeForUserInBytes q)"
    "ToBytes (MaxFilesSizeForVip p) = Inr (MaxFilesSizeForVipInBytes q)"
    "MaxUploadedFiles q = MaxUploadedFiles p"
    "MaxFilesSizeForUser q = MaxFilesSizeForUser p" "MaxFilesSizeForVip q = MaxFilesSizeForVip p"
  using assms by (auto simp: setPermissionsConfig_def Let_def split: sum.split_asm)

lemma Load_limits:
  assumes "Load getenv stat readConfig = Inr cfg"
  shows "ToBytes (MaxFilesSizeForUser (Permissions (cf_Service cfg))) =
      Inr (MaxFilesSizeForUserInBytes (Permissions (cf_Service cfg)))"
    "ToBytes (MaxFilesSizeForVip (Permissions (cf_Service cfg))) =
      Inr (MaxFilesSizeForVipInBytes (Permissions (cf_Service cfg)))"
    "cf_DbConnectionString cfg = connection_string cfg"
    "\<exists>read. readConfig (getenv ''CONFIG_PATH'') = Inr read \<and>
       AllowedOrigins (hs_CORS (cf_HttpServer cfg)) = split_origins (AllowedOriginsEnv (hs_CORS (cf_HttpServer read)))"
  using assms
  by (auto simp: Load_def Let_def setPermissionsConfig_Inr connection_string_def
      split: if_split_asm sum.split_asm)

end
