(* ===== verification/Routes.thy ===== *)
theory Routes
  imports System Handlers Config
begin

text \<open>
  \<open>internal/app/app.go\<close>: the routes and their middlewares, over the state of the whole server.  A
  route is the method, the pattern and the handler with its middlewares around it; finding the
  route of a request is the work of the chi router, which is not part of the repository.  The limits
  and the settings are fields of the deployment; \<open>wired\<close> in \<open>Application.thy\<close> takes them from the
  configuration.
\<close>

subsection \<open>The server\<close>

text \<open>
  The state: database, storage and clock (\<open>sv_world\<close>), Redis, and whatever is behind the
  connection to the authentication service.  \<open>deployment\<close> holds what does not change: the
  configuration, the generated stubs, and the functions of the packages outside the repository.
\<close>

record 'a server =
  sv_world :: world
  sv_redis :: redis
  sv_auth :: 'a

record 'a deployment =
  dp_Env :: string
  dp_sys :: system
  dp_Admin :: rate_limiter_params
  dp_Files :: rate_limiter_params
  dp_Register :: rate_limiter_params
  dp_secret :: string
  dp_authStub :: "'a auth_stub"
  dp_userStub :: "'a user_stub"
  dp_decode :: "body_type \<Rightarrow> string \<Rightarrow> payload option"
  dp_validate :: "payload \<Rightarrow> field_error list"
  dp_mime :: "string \<Rightarrow> string"
  dp_copy :: "string \<Rightarrow> 'a server \<Rightarrow> (nat \<times> goerr option) \<times> nat"
  dp_rnd :: "'a server \<Rightarrow> nat \<Rightarrow> 64 word"
  dp_salt :: "'a server \<Rightarrow> nat"
  dp_ServeFile :: "string \<Rightarrow> request \<Rightarrow> replies \<Rightarrow> replies run"
  dp_Swagger :: "string \<Rightarrow> request \<Rightarrow> replies \<Rightarrow> replies run"

definition in_world :: "(world \<Rightarrow> 'b \<times> world) \<Rightarrow> 'a server \<Rightarrow> 'b \<times> 'a server" where
  "in_world f s = (case f (sv_world s) of (x, w) \<Rightarrow> (x, s\<lparr>sv_world := w\<rparr>))"

definition in_redis :: "(redis \<Rightarrow> 'b \<times> redis) \<Rightarrow> 'a server \<Rightarrow> 'b \<times> 'a server" where
  "in_redis f s = (case f (sv_redis s) of (x, rd) \<Rightarrow> (x, s\<lparr>sv_redis := rd\<rparr>))"

definition in_auth :: "('a \<Rightarrow> 'b \<times> 'a) \<Rightarrow> 'a server \<Rightarrow> 'b \<times> 'a server" where
  "in_auth f s = (case f (sv_auth s) of (x, a) \<Rightarrow> (x, s\<lparr>sv_auth := a\<rparr>))"

definition in_auth_run :: "('a \<Rightarrow> ('b \<times> 'a) run) \<Rightarrow> 'a server \<Rightarrow> ('b \<times> 'a server) run" where
  "in_auth_run f s = bind_run (f (sv_auth s)) (\<lambda>(x, a). Returns (x, s\<lparr>sv_auth := a\<rparr>))"

definition srv_UploadFile ::
  "'a deployment \<Rightarrow> upload_file \<Rightarrow> 'a server \<Rightarrow> (string result \<times> 'a server) run" where
  "srv_UploadFile D c s =
     bind_run (Service_UploadFile (dp_rnd D s) (dp_salt D s) (sys_service (dp_sys D)) c (sv_world s))
       (\<lambda>(x, w). Returns (x, s\<lparr>sv_world := w\<rparr>))"

text \<open>Copying to the client takes time and changes nothing else.\<close>

definition srv_copy :: "'a deployment \<Rightarrow> string \<Rightarrow> 'a server \<Rightarrow> (nat \<times> goerr option) \<times> 'a server" where
  "srv_copy D b s =
     (case dp_copy D b s of (x, dt) \<Rightarrow>
        (x, s\<lparr>sv_world := (sv_world s)\<lparr>w_clock := w_clock (sv_world s) + int dt\<rparr>\<rparr>))"

definition srv_cfg :: "'a deployment \<Rightarrow> service_cfg" where
  "srv_cfg D = sys_cfg (dp_sys D)"

subsection \<open>Middlewares of the routes\<close>

definition limited :: "rate_limiter_params \<Rightarrow> 'a server handler \<Rightarrow> 'a server handler" where
  "limited params = NewRateLimiter (\<lambda>ip. in_redis (RateLimiter_Allow params ip))"

definition timed :: "'a server handler \<Rightarrow> 'a server handler" where
  "timed = NewTimeoutLimiter (\<lambda>s. w_clock (sv_world s))
     \<lparr>tl_ReadTimeout = 10 * minute, tl_WriteTimeout = 1 * minute\<rparr>"

definition authorized :: "'a deployment \<Rightarrow> 'a server handler \<Rightarrow> 'a server handler" where
  "authorized D = NewAuth (\<lambda>token. in_auth_run (AuthClient_ValidateToken (dp_authStub D) token))"

definition admin_only :: "'a deployment \<Rightarrow> 'a server handler \<Rightarrow> 'a server handler boot" where
  "admin_only D = NewAdminAuth (dp_secret D) (\<lambda>ip. in_redis (RateLimiter_Allow (dp_Admin D) ip))
     (\<lambda>ip. in_redis (RateLimiter_Reset (dp_Admin D) ip))"

definition parsed :: "'a deployment \<Rightarrow> body_type \<Rightarrow> 'a server handler \<Rightarrow> 'a server handler" where
  "parsed D T = NewBodyParser (srv_cfg D) (dp_decode D T) None"

definition validated :: "'a deployment \<Rightarrow> body_type \<Rightarrow> 'a server handler \<Rightarrow> 'a server handler" where
  "validated D T next = parsed D T (NewValidator T (dp_validate D) next)"

subsection \<open>MustMountHandlers\<close>

record 'w route =
  rt_Method :: string
  rt_Pattern :: string
  rt_Handler :: "'w handler"

definition mount :: "string \<Rightarrow> string \<Rightarrow> 'w handler \<Rightarrow> 'w route" where
  "mount m p h = \<lparr>rt_Method = m, rt_Pattern = p, rt_Handler = h\<rparr>"

text \<open>
  The pages of the API documentation, in the local environment only.  \<open>http.ServeFile\<close> and the
  handler of the swagger package write a response and have no access to the state of the server.
\<close>

definition static :: "(request \<Rightarrow> replies \<Rightarrow> replies run) \<Rightarrow> 'w handler" where
  "static page r w s = bind_run (page r w) (\<lambda>w1. Returns (w1, s))"

definition swagger_routes :: "'a deployment \<Rightarrow> 'a server route list" where
  "swagger_routes D =
     (if dp_Env D = EnvLocal then
        [mount ''GET'' ''/swagger/doc.json'' (static (dp_ServeFile D ''docs/swagger.json'')),
         mount ''GET'' ''/swagger/*'' (static (dp_Swagger D ''/swagger/doc.json''))]
      else [])"

definition download_route :: "'a deployment \<Rightarrow> 'a server route" where
  "download_route D = mount ''GET'' ''/api/download/{alias}''
     (limited (dp_Files D) (timed (download_New
        (\<lambda>c. in_world (Service_DownloadFile (sys_service (dp_sys D)) c))
        (\<lambda>fd. in_world (st_Close (NewFileStorage (sys_path (dp_sys D))) fd))
        (dp_mime D) (srv_copy D))))"

definition file_get :: "'a deployment \<Rightarrow> 'a server handler" where
  "file_get D = get_New (\<lambda>c. in_world (Service_GetFileByAlias (sys_service (dp_sys D)) c))"

definition file_delete :: "'a deployment \<Rightarrow> 'a server handler" where
  "file_delete D = delete_New (\<lambda>c. in_world (Service_DeleteFile (sys_service (dp_sys D)) c))"

definition file_getAll :: "'a deployment \<Rightarrow> 'a server handler" where
  "file_getAll D = getAll_New (\<lambda>c. in_world (Service_GetAllFiles (sys_service (dp_sys D)) c))"

definition file_stat :: "'a deployment \<Rightarrow> 'a server handler" where
  "file_stat D = stat_New (\<lambda>c. in_world (Service_GetFilesStat (sys_service (dp_sys D)) c))"

definition user_routes :: "'a deployment \<Rightarrow> 'a server route list" where
  "user_routes D = map (\<lambda>(m, p, h). mount m p (authorized D h))
     [(''POST'', ''/api/upload'', timed (upload_New (srv_UploadFile D) (srv_cfg D))),
      (''GET'', ''/api/file/'', file_getAll D),
      (''GET'', ''/api/file/stat'', file_stat D),
      (''GET'', ''/api/file/{alias}/'', file_get D),
      (''DELETE'', ''/api/file/{alias}/'', file_delete D)]"

text \<open>The handlers behind the admin secret, with the middlewares inside it.\<close>

definition admin_handlers :: "'a deployment \<Rightarrow> (string \<times> string \<times> 'a server handler) list" where
  "admin_handlers D =
     [(''GET'', ''/api/admin/users/'',
       userGetAll_New (\<lambda>c. in_auth_run (UserClient_GetAllUsers (dp_userStub D) c))),
      (''GET'', ''/api/admin/users/{id}/'', NewAdminUserContext
        (userGet_New (\<lambda>uid. in_auth_run (UserClient_GetUserByID (dp_userStub D) uid)))),
      (''GET'', ''/api/admin/users/{id}/files'', NewAdminUserContext (file_getAll D)),
      (''GET'', ''/api/admin/users/{id}/files/stat'', NewAdminUserContext (file_stat D)),
      (''POST'', ''/api/admin/users/{id}/roles/assign'', parsed D AssignT
        (assign_New (\<lambda>c. in_auth (UserClient_AssignRole (dp_userStub D) c)))),
      (''POST'', ''/api/admin/users/{id}/roles/revoke'', parsed D RevokeT
        (revoke_New (\<lambda>c. in_auth (UserClient_RevokeRole (dp_userStub D) c)))),
      (''GET'', ''/api/admin/files/{alias}/'', NewAdminUserContext (file_get D)),
      (''DELETE'', ''/api/admin/files/{alias}/'', NewAdminUserContext (file_delete D))]"

fun mount_admin ::
  "'a deployment \<Rightarrow> (string \<times> string \<times> 'a server handler) list \<Rightarrow> 'a server route list boot" where
  "mount_admin D [] = Built []"
| "mount_admin D ((m, p, h) # hs) =
     bind_boot (admin_only D h) (\<lambda>h'. bind_boot (mount_admin D hs) (\<lambda>rs. Built (mount m p h' # rs)))"

definition login_route :: "'a deployment \<Rightarrow> 'a server route" where
  "login_route D = mount ''POST'' ''/api/auth/login'' (validated D LoginT
     (login_New (\<lambda>c. in_auth_run (AuthClient_Login (dp_authStub D) c))))"

definition register_route :: "'a deployment \<Rightarrow> 'a server route" where
  "register_route D = mount ''POST'' ''/api/auth/register'' (limited (dp_Register D) (validated D RegisterT
     (register_New (\<lambda>c. in_auth_run (AuthClient_Register (dp_authStub D) c)))))"

definition refresh_route :: "'a deployment \<Rightarrow> 'a server route" where
  "refresh_route D = mount ''POST'' ''/api/auth/refresh'' (validated D RefreshT
     (refresh_New (\<lambda>c. in_auth_run (AuthClient_Refresh (dp_authStub D) c))))"

definition logout_route :: "'a deployment \<Rightarrow> 'a server route" where
  "logout_route D = mount ''POST'' ''/api/auth/logout'' (validated D LogoutT
     (logout_New (\<lambda>c. in_auth (AuthClient_Logout (dp_authStub D) c))))"

definition auth_routes :: "'a deployment \<Rightarrow> 'a server route list" where
  "auth_routes D = [login_route D, register_route D, refresh_route D, logout_route D]"

definition MustMountHandlers :: "'a deployment \<Rightarrow> 'a server route list boot" where
  "MustMountHandlers D =
     bind_boot (mount_admin D (admin_handlers D))
       (\<lambda>adm. Built (swagger_routes D @ download_route D # adm @ user_routes D @ auth_routes D))"

end
