(* ===== verification/Validation.thy ===== *)
theory Validation
  imports Routes
begin

text \<open>
  The \<open>validate\<close> tags of the request structs (\<open>login.go\<close>, \<open>register.go\<close>, \<open>refresh.go\<close>,
  \<open>logout.go\<close>) and what \<open>NewValidator\<close> lets through with them.  The validator itself is a package
  outside the repository: that it goes by the tags, the first broken tag of each field in the order
  of the fields, is a hypothesis (\<open>goes_by_tags\<close>); counting the characters of a string and
  recognising an address are parameters.
\<close>

datatype tag = Required | MinLen nat | MaxLen nat | Email

type_synonym tagged = "string \<times> tag list \<times> string"

subsection \<open>The request structs\<close>

definition login_tags :: "string \<Rightarrow> string \<Rightarrow> tagged list" where
  "login_tags login password =
     [(''Login'', [Required, MinLen 3, MaxLen 64], login),
      (''Password'', [Required, MinLen 6, MaxLen 128], password)]"

definition register_tags :: "string \<Rightarrow> string \<Rightarrow> string \<Rightarrow> tagged list" where
  "register_tags login email password =
     [(''Login'', [Required, MinLen 3, MaxLen 64], login),
      (''Email'', [Required, Email], email),
      (''Password'', [Required, MinLen 6, MaxLen 128], password)]"

definition refresh_tags :: "string \<Rightarrow> tagged list" where
  "refresh_tags refreshToken = [(''RefreshToken'', [Required], refreshToken)]"

definition logout_tags :: "string \<Rightarrow> string \<Rightarrow> tagged list" where
  "logout_tags accessToken refreshToken =
     [(''AccessToken'', [Required], accessToken), (''RefreshToken'', [Required], refreshToken)]"

text \<open>The bodies of the two role routes have no tags.\<close>

text \<open>The requests of the role handlers carry no tags.\<close>

definition assign_tags :: "string \<Rightarrow> tagged list" where
  "assign_tags role = []"

definition revoke_tags :: "string \<Rightarrow> tagged list" where
  "revoke_tags role = []"

fun struct_tags :: "payload \<Rightarrow> tagged list" where
  "struct_tags (LoginRequest l p) = login_tags l p"
| "struct_tags (RegisterRequest l e p) = register_tags l e p"
| "struct_tags (RefreshRequest t) = refresh_tags t"
| "struct_tags (LogoutRequest a t) = logout_tags a t"
| "struct_tags (AssignRequest role) = assign_tags role"
| "struct_tags (RevokeRequest role) = revoke_tags role"

subsection \<open>What a validator that goes by the tags reports\<close>

fun keeps_tag :: "(string \<Rightarrow> nat) \<Rightarrow> (string \<Rightarrow> bool) \<Rightarrow> string \<Rightarrow> tag \<Rightarrow> bool" where
  "keeps_tag chars mail v Required \<longleftrightarrow> v \<noteq> []"
| "keeps_tag chars mail v (MinLen n) \<longleftrightarrow> n \<le> chars v"
| "keeps_tag chars mail v (MaxLen n) \<longleftrightarrow> chars v \<le> n"
| "keeps_tag chars mail v Email \<longleftrightarrow> mail v"

fun broken :: "string \<Rightarrow> tag \<Rightarrow> field_error" where
  "broken field Required = \<lparr>fe_ActualTag = ''required'', fe_Field = field, fe_Param = []\<rparr>"
| "broken field (MinLen n) = \<lparr>fe_ActualTag = ''min'', fe_Field = field, fe_Param = decInt (int n)\<rparr>"
| "broken field (MaxLen n) = \<lparr>fe_ActualTag = ''max'', fe_Field = field, fe_Param = decInt (int n)\<rparr>"
| "broken field Email = \<lparr>fe_ActualTag = ''email'', fe_Field = field, fe_Param = []\<rparr>"

definition field_errors :: "(string \<Rightarrow> nat) \<Rightarrow> (string \<Rightarrow> bool) \<Rightarrow> tagged \<Rightarrow> field_error list" where
  "field_errors chars mail f =
     (case f of (field, tags, v) \<Rightarrow>
        (case find (\<lambda>t. \<not> keeps_tag chars mail v t) tags of None \<Rightarrow> [] | Some t \<Rightarrow> [broken field t]))"

definition struct_errors :: "(string \<Rightarrow> nat) \<Rightarrow> (string \<Rightarrow> bool) \<Rightarrow> payload \<Rightarrow> field_error list" where
  "struct_errors chars mail p = concat (map (field_errors chars mail) (struct_tags p))"

definition goes_by_tags ::
  "(payload \<Rightarrow> field_error list) \<Rightarrow> (string \<Rightarrow> nat) \<Rightarrow> (string \<Rightarrow> bool) \<Rightarrow> bool" where
  "goes_by_tags validate chars mail \<longleftrightarrow> (\<forall>p. validate p = struct_errors chars mail p)"

definition all_kept :: "(string \<Rightarrow> nat) \<Rightarrow> (string \<Rightarrow> bool) \<Rightarrow> payload \<Rightarrow> bool" where
  "all_kept chars mail p \<longleftrightarrow> (\<forall>(field, tags, v) \<in> set (struct_tags p). \<forall>t \<in> set tags. keeps_tag chars mail v t)"

lemma no_errors: "struct_errors chars mail p = [] \<longleftrightarrow> all_kept chars mail p"
  by (auto simp: struct_errors_def all_kept_def field_errors_def find_None_iff split: option.splits)

subsection \<open>Behind the parser and the validator\<close>

lemma validated_body:
  assumes "goes_by_tags (dp_validate D) chars mail" "rq_Method r \<notin> set methodsToSkip" "0 < rq_ContentLength r"
    and "dp_decode D T (take maxBytes (rq_Body r)) = Some p" "type_of p = T"
  shows "validated D T next r w s =
    (if all_kept chars mail p
     then next (r\<lparr>rq_Body := take maxBytes (rq_Body r), ctx_Payload := Some p\<rparr>) w s
     else Returns (RenderValidationError (struct_errors chars mail p) w, s))"
  using assms no_errors [of chars mail p]
  by (auto simp: validated_def parsed_def NewBodyParser_def NewValidator_def GetParsedBodyRequest_def
      goes_by_tags_def Let_def split: list.split)

lemma bind_run_twice:
  "bind_run (bind_run m (\<lambda>(x, a). Returns (x, g a))) (\<lambda>(x, b). Returns (f x, b)) =
   bind_run m (\<lambda>(x, a). Returns (f x, g a))"
  by (cases m) (auto simp: bind_run_def split: prod.split)

lemma login_kept: "all_kept chars mail (LoginRequest l p) \<longleftrightarrow>
    l \<noteq> [] \<and> 3 \<le> chars l \<and> chars l \<le> 64 \<and> p \<noteq> [] \<and> 6 \<le> chars p \<and> chars p \<le> 128"
  by (auto simp: all_kept_def login_tags_def)

lemma logout_kept: "all_kept chars mail (LogoutRequest a t) \<longleftrightarrow> a \<noteq> [] \<and> t \<noteq> []"
  by (auto simp: all_kept_def logout_tags_def)

lemma refresh_kept: "all_kept chars mail (RefreshRequest t) \<longleftrightarrow> t \<noteq> []"
  by (simp add: all_kept_def refresh_tags_def)

lemma register_kept: "all_kept chars mail (RegisterRequest l e p) \<longleftrightarrow>
    l \<noteq> [] \<and> 3 \<le> chars l \<and> chars l \<le> 64 \<and> e \<noteq> [] \<and> mail e \<and> p \<noteq> [] \<and> 6 \<le> chars p \<and> chars p \<le> 128"
  by (auto simp: all_kept_def register_tags_def)

lemma POST_parsed: "''POST'' \<notin> set methodsToSkip"
  by (simp add: methodsToSkip_def)

lemma login_route_runs:
  assumes "goes_by_tags (dp_validate D) chars mail" "rq_Method r = ''POST''" "0 < rq_ContentLength r"
    and "dp_decode D LoginT (take maxBytes (rq_Body r)) = Some (LoginRequest l p)"
  shows "rt_Handler (login_route D) r w s =
    (if all_kept chars mail (LoginRequest l p)
     then bind_run (AuthClient_Login (dp_authStub D) \<lparr>lc_Login = l, lc_Password = p\<rparr> (sv_auth s)) (\<lambda>(res, a). Returns
        (case res of Inl err \<Rightarrow> auth_failure err w | Inr result \<Rightarrow> w @ [Rendered 200 (login_Response result)],
         s\<lparr>sv_auth := a\<rparr>))
     else Returns (RenderValidationError (struct_errors chars mail (LoginRequest l p)) w, s))"
  using assms POST_parsed
  by (simp add: login_route_def mount_def validated_body [OF assms(1)] login_New_def GetParsedBodyRequest_def
      in_auth_run_def bind_run_twice del: login_Response_def)

lemma logout_route_runs:
  assumes "goes_by_tags (dp_validate D) chars mail" "rq_Method r = ''POST''" "0 < rq_ContentLength r"
    and "dp_decode D LogoutT (take maxBytes (rq_Body r)) = Some (LogoutRequest acc refr)"
  shows "rt_Handler (logout_route D) r w s =
    (if all_kept chars mail (LogoutRequest acc refr)
     then (case AuthClient_Logout (dp_authStub D) \<lparr>oc_RefreshToken = refr, oc_AccessToken = acc\<rparr> (sv_auth s) of
             (err, a) \<Rightarrow> Returns (case err of Some e \<Rightarrow> auth_failure e w | None \<Rightarrow> w, s\<lparr>sv_auth := a\<rparr>))
     else Returns (RenderValidationError (struct_errors chars mail (LogoutRequest acc refr)) w, s))"
  using assms POST_parsed
  by (simp add: logout_route_def mount_def validated_body [OF assms(1)] logout_New_def GetParsedBodyRequest_def
      in_auth_def split: prod.split option.split)

end
