(* ===== verification/Handler_Frames.thy ===== *)
theory Handler_Frames
  imports Handlers
begin

text \<open>
  What a request may do to the state: a relation between states that every service and every
  middleware function respects is respected by the handlers built from them.  The locale is stated
  for any reflexive and transitive relation and is interpreted for the server.
\<close>

locale step_rel =
  fixes R :: "'s \<Rightarrow> 's \<Rightarrow> bool"
  assumes R_refl: "R s s" and R_trans: "R s s1 \<Longrightarrow> R s1 s2 \<Longrightarrow> R s s2"
begin

text \<open>\<open>keeps P h\<close>: whenever the handler answers a request with \<open>P\<close>, the states are related.\<close>

definition keeps :: "(request \<Rightarrow> bool) \<Rightarrow> 's handler \<Rightarrow> bool" where
  "keeps P h \<longleftrightarrow> (\<forall>r w s w' s'. P r \<longrightarrow> h r w s = Returns (w', s') \<longrightarrow> R s s')"

definition calls :: "('s \<Rightarrow> 'b \<times> 's) \<Rightarrow> bool" where
  "calls f \<longleftrightarrow> (\<forall>s x s'. f s = (x, s') \<longrightarrow> R s s')"

definition runs :: "('s \<Rightarrow> ('b \<times> 's) run) \<Rightarrow> bool" where
  "runs f \<longleftrightarrow> (\<forall>s x s'. f s = Returns (x, s') \<longrightarrow> R s s')"

lemma keepsI: "(\<And>r w s w' s'. P r \<Longrightarrow> h r w s = Returns (w', s') \<Longrightarrow> R s s') \<Longrightarrow> keeps P h"
  by (auto simp: keeps_def)

lemma keepsD: "keeps P h \<Longrightarrow> P r \<Longrightarrow> h r w s = Returns (w', s') \<Longrightarrow> R s s'"
  by (auto simp: keeps_def)

lemma callsD: "calls f \<Longrightarrow> f s = (x, s') \<Longrightarrow> R s s'"
  by (auto simp: calls_def)

lemma runsD: "runs f \<Longrightarrow> f s = Returns (x, s') \<Longrightarrow> R s s'"
  by (auto simp: runs_def)

subsection \<open>Middlewares\<close>

lemma keeps_limiter:
  assumes "\<And>ip. calls (allow ip)" "keeps P next"
  shows "keeps P (NewRateLimiter allow next)"
proof (rule keepsI)
  fix r w s w' s'
  assume P: "P r" and h: "NewRateLimiter allow next r w s = Returns (w', s')"
  obtain x s1 where a: "allow (ExtractIP (rq_RemoteAddr r)) s = (x, s1)"
    by (cases "allow (ExtractIP (rq_RemoteAddr r)) s")
  have 1: "R s s1" using callsD [OF assms(1) a] .
  from h a have "s' = s \<or> s' = s1 \<or> next r w s1 = Returns (w', s')"
    by (auto simp: NewRateLimiter_def Let_def split: sum.split_asm if_split_asm)
  with 1 keepsD [OF assms(2) P] R_refl R_trans show "R s s'" by blast
qed

lemma keeps_auth:
  assumes "\<And>t. runs (validate t)"
    and "keeps (\<lambda>r. True) next"
  shows "keeps P (NewAuth validate next)"
proof (rule keepsI)
  fix r w s w' s'
  assume h: "NewAuth validate next r w s = Returns (w', s')"
  from NewAuth_elim [OF h] consider "s' = s" | t e where "validate t s = Returns (Inl e, s')"
    | t info s1 r' where "validate t s = Returns (Inr info, s1)" "next r' w s1 = Returns (w', s')"
    by blast
  then show "R s s'"
  proof cases
    case 1
    then show ?thesis by (simp add: R_refl)
  next
    case 2
    from runsD [OF assms(1) this] show ?thesis .
  next
    case 3
    from R_trans [OF runsD [OF assms(1) 3(1)] keepsD [OF assms(2) TrueI 3(2)]] show ?thesis .
  qed
qed

lemma keeps_admin:
  assumes "NewAdminAuth secret allow reset next = Built h"
    and "\<And>ip. calls (allow ip)" "\<And>ip. calls (reset ip)" "keeps P next"
  shows "keeps P h"
proof (rule keepsI)
  fix r w s w' s'
  assume P: "P r" and h: "h r w s = Returns (w', s')"
  let ?ip = "ExtractIP (rq_RemoteAddr r)"
  obtain x s1 where a: "allow ?ip s = (x, s1)" by (cases "allow ?ip s")
  obtain y s2 where b: "reset ?ip s1 = (y, s2)" by (cases "reset ?ip s1")
  from assms(1) obtain key where "h = admin_handler key allow reset next" by (auto simp: NewAdminAuth_Built)
  with h have "admin_handler key allow reset next r w s = Returns (w', s')" by simp
  from admin_handler_elim [OF this] consider "s' = s" | "s' = s1" | "next r w s2 = Returns (w', s')"
    unfolding a snd_conv b by blast
  then show "R s s'"
  proof cases
    case 1
    then show ?thesis by (simp add: R_refl)
  next
    case 2
    with callsD [OF assms(2) a] show ?thesis by simp
  next
    case 3
    from R_trans [OF R_trans [OF callsD [OF assms(2) a] callsD [OF assms(3) b]] keepsD [OF assms(4) P 3]]
    show ?thesis .
  qed
qed

lemma keeps_admin_context:
  "keeps (\<lambda>r. True) next \<Longrightarrow> keeps P (NewAdminUserContext next)"
  by (auto simp: keeps_def NewAdminUserContext_def Let_def)

lemma keeps_timeout: "keeps P next \<Longrightarrow> keeps P (NewTimeoutLimiter now params next)"
  by (auto simp: keeps_def NewTimeoutLimiter_def)

lemma keeps_parser:
  assumes "keeps (\<lambda>r. True) next"
  shows "keeps P (NewBodyParser cfg decode dflt next)"
proof (rule keepsI)
  fix r w s w' s'
  assume "NewBodyParser cfg decode dflt next r w s = Returns (w', s')"
  then have "s' = s \<or> (\<exists>r'. next r' w s = Returns (w', s'))"
    by (auto simp: NewBodyParser_def Let_def split: option.split_asm if_split_asm)
  with keepsD [OF assms TrueI] R_refl show "R s s'" by blast
qed

lemma keeps_validator: "keeps P next \<Longrightarrow> keeps P (NewValidator T valid next)"
  using R_refl by (auto simp: keeps_def NewValidator_def split: option.split_asm list.split_asm)

subsection \<open>Handlers\<close>

lemma keeps_upload:
  assumes up: "\<And>c claims. 1 \<le> uf_MaxDownloads c \<Longrightarrow> uf_MaxDownloads c < 2 ^ 15 \<Longrightarrow>
      Q claims \<Longrightarrow> uf_User c = requesting_user claims \<Longrightarrow> runs (upload c)"
    and cfg: "1 \<le> DefaultMaxDownloads cfg" "DefaultMaxDownloads cfg < 2 ^ 15" "int64_range (DefaultTtl cfg)"
  shows "keeps (\<lambda>r. \<forall>claims. GetUserClaims r = Inr claims \<longrightarrow> Q claims) (upload_New upload cfg)"
proof (rule keepsI)
  fix r w s w' s'
  assume P: "\<forall>claims. GetUserClaims r = Inr claims \<longrightarrow> Q claims"
    and h: "upload_New upload cfg r w s = Returns (w', s')"
  show "R s s'"
  proof (cases "s' = s")
    case True
    then show ?thesis by (simp add: R_refl)
  next
    case False
    with h obtain claims where 1: "GetUserClaims r = Inr claims"
      by (cases "GetUserClaims r") (auto simp: upload_New_def)
    with h False obtain q where 2: "getRequestFromForm cfg r = Inr q"
      by (cases "getRequestFromForm cfg r") (auto simp: upload_New_def split: if_split_asm)
    with h False 1 obtain fname b where 3: "rq_FormFile r ''file'' = Some (fname, b)"
      by (cases "rq_FormFile r ''file''") (auto simp: upload_New_def split: if_split_asm)
    note g = 1 2
    from h False 1 2 3 have up': "\<exists>x. upload \<lparr>uf_File = b, uf_Filesize = int (length b),
        uf_Filename = fname, uf_MaxDownloads = ur_MaxDownloads q, uf_Password = ur_Password q,
        uf_TTL = ur_TTL q, uf_User = requesting_user claims\<rparr> s = Returns (x, s')"
      by (auto simp: upload_New_def bind_run_answer split: if_split_asm)
    have "1 \<le> ur_MaxDownloads q" "ur_MaxDownloads q < 2 ^ 15"
      using getRequestFromForm_bounds [OF g(2) cfg] by simp_all
    with P g(1) up [of _ claims] have "runs (upload \<lparr>uf_File = b, uf_Filesize = int (length b),
        uf_Filename = fname, uf_MaxDownloads = ur_MaxDownloads q, uf_Password = ur_Password q,
        uf_TTL = ur_TTL q, uf_User = requesting_user claims\<rparr>)" by simp
    with up' show ?thesis by (auto simp: runs_def)
  qed
qed

lemma keeps_download:
  assumes "\<And>c. calls (download c)" "\<And>fd. calls (close fd)" "\<And>b. calls (copyOut b)"
  shows "keeps P (download_New download close mimeType copyOut)"
proof (rule keepsI)
  fix r w s w' s'
  assume h: "download_New download close mimeType copyOut r w s = Returns (w', s')"
  let ?c = "\<lparr>df_Alias = rq_URLParam r ''alias'', df_Password = rq_Header r ''X-Resource-Password''\<rparr>"
  obtain x s1 where d: "download ?c s = (x, s1)" by (cases "download ?c s")
  show "R s s'"
  proof (cases x)
    case (Inl e)
    with h d callsD [OF assms(1) d] show ?thesis by (simp add: download_New_def)
  next
    case (Inr f)
    obtain n e s2 where c: "copyOut (dr_File f) s1 = ((n, e), s2)" by (metis surj_pair)
    obtain y s3 where cl: "close (dr_fd f) s2 = (y, s3)" by (cases "close (dr_fd f) s2")
    have "s' = s3" using h d Inr c cl by (simp add: download_New_def Let_def)
    with callsD [OF assms(1) d] callsD [OF assms(3) c] callsD [OF assms(2) cl] R_trans show ?thesis by blast
  qed
qed

text \<open>The handlers that make at most one call with the claims of the request.\<close>

lemma keeps_one_call:
  assumes "\<And>r w s w' s'. h r w s = Returns (w', s') \<Longrightarrow>
      s' = s \<or> (\<exists>claims c x. GetUserClaims r = Inr claims \<and> A claims c \<and> f c s = (x, s'))"
    and "\<And>c claims. Q claims \<Longrightarrow> A claims c \<Longrightarrow> calls (f c)"
  shows "keeps (\<lambda>r. \<forall>claims. GetUserClaims r = Inr claims \<longrightarrow> Q claims) h"
proof (rule keepsI)
  fix r w s w' s'
  assume P: "\<forall>claims. GetUserClaims r = Inr claims \<longrightarrow> Q claims" and h: "h r w s = Returns (w', s')"
  from assms(1) [OF h] show "R s s'"
  proof
    assume "\<exists>claims c x. GetUserClaims r = Inr claims \<and> A claims c \<and> f c s = (x, s')"
    then obtain claims c x where g: "GetUserClaims r = Inr claims" "A claims c" "f c s = (x, s')" by blast
    with P have "Q claims" by blast
    from callsD [OF assms(2) [OF this g(2)] g(3)] show ?thesis .
  qed (simp add: R_refl)
qed

lemma keeps_delete:
  assumes "\<And>c claims. Q claims \<Longrightarrow> del_User c = requesting_user claims \<Longrightarrow> calls (deleteFile c)"
  shows "keeps (\<lambda>r. \<forall>claims. GetUserClaims r = Inr claims \<longrightarrow> Q claims) (delete_New deleteFile)"
  by (rule keeps_one_call [where A = "\<lambda>claims c. del_User c = requesting_user claims" and f = deleteFile])
    (fastforce simp: delete_New_def Let_def split: sum.split_asm option.split_asm prod.split_asm, rule assms)

lemma keeps_get:
  assumes "\<And>c claims. Q claims \<Longrightarrow> gf_User c = requesting_user claims \<Longrightarrow> calls (getFile c)"
  shows "keeps (\<lambda>r. \<forall>claims. GetUserClaims r = Inr claims \<longrightarrow> Q claims) (get_New getFile)"
  by (rule keeps_one_call [where A = "\<lambda>claims c. gf_User c = requesting_user claims" and f = getFile])
    (fastforce simp: get_New_def Let_def split: sum.split_asm prod.split_asm, rule assms)

lemma keeps_getAll:
  assumes "\<And>c claims. Q claims \<Longrightarrow> ga_UserID c = uc_UserID claims \<Longrightarrow> calls (getAll c)"
  shows "keeps (\<lambda>r. \<forall>claims. GetUserClaims r = Inr claims \<longrightarrow> Q claims) (getAll_New getAll)"
  by (rule keeps_one_call [where A = "\<lambda>claims c. ga_UserID c = uc_UserID claims" and f = getAll])
    (fastforce simp: getAll_New_def split: sum.split_asm prod.split_asm, rule assms)

lemma keeps_stat:
  assumes "\<And>c claims. Q claims \<Longrightarrow> gs_User c = requesting_user claims \<Longrightarrow> calls (getStat c)"
  shows "keeps (\<lambda>r. \<forall>claims. GetUserClaims r = Inr claims \<longrightarrow> Q claims) (stat_New getStat)"
  by (rule keeps_one_call [where A = "\<lambda>claims c. gs_User c = requesting_user claims" and f = getStat])
    (fastforce simp: stat_New_def split: sum.split_asm prod.split_asm, rule assms)

text \<open>The handlers of the authentication service.\<close>

lemma keeps_login: "(\<And>c. runs (login c)) \<Longrightarrow> keeps P (login_New login)"
  by (auto simp: keeps_def login_New_def bind_run_answer R_refl runs_def split: option.split_asm)

lemma keeps_register: "(\<And>c. runs (register c)) \<Longrightarrow> keeps P (register_New register)"
  by (auto simp: keeps_def register_New_def bind_run_answer R_refl runs_def split: option.split_asm)

lemma keeps_refresh: "(\<And>c. runs (refresh c)) \<Longrightarrow> keeps P (refresh_New refresh)"
  by (auto simp: keeps_def refresh_New_def bind_run_answer R_refl runs_def split: option.split_asm)

lemma keeps_logout: "(\<And>c. calls (logout c)) \<Longrightarrow> keeps P (logout_New logout)"
  by (fastforce simp: keeps_def logout_New_def R_refl calls_def split: option.split_asm prod.split_asm)

lemma keeps_userGet: "(\<And>u. runs (getUser u)) \<Longrightarrow> keeps P (userGet_New getUser)"
proof (rule keepsI)
  fix r w s w' s'
  assume "\<And>u. runs (getUser u)" and "userGet_New getUser r w s = Returns (w', s')"
  then show "R s s'"
    by (cases "ParseInt (rq_URLParam r ''id'') 64") (auto simp: userGet_New_def bind_run_answer R_refl runs_def)
qed

lemma keeps_userGetAll: "(\<And>c. runs (getUsers c)) \<Longrightarrow> keeps P (userGetAll_New getUsers)"
  by (fastforce simp: keeps_def userGetAll_New_def bind_run_answer Let_def runs_def split: prod.split_asm)

lemma keeps_assign: "(\<And>c. calls (assign c)) \<Longrightarrow> keeps P (assign_New assign)"
  by (fastforce simp: keeps_def assign_New_def R_refl calls_def
      split: option.split_asm sum.split_asm prod.split_asm)

lemma keeps_revoke: "(\<And>c. calls (revoke c)) \<Longrightarrow> keeps P (revoke_New revoke)"
  by (fastforce simp: keeps_def revoke_New_def R_refl calls_def
      split: option.split_asm sum.split_asm prod.split_asm)

end

end
