(* ===== verification/Server.thy ===== *)
theory Server
  imports Routes Handler_Frames
begin

text \<open>
  The routes as a refinement of the running program of \<open>System.thy\<close>: whatever request comes in,
  what it does to database and storage is a run of service operations with arguments the operations
  are specified for, on behalf of the caller the middlewares established.
\<close>

subsection \<open>Moves of the world\<close>

text \<open>\<open>moves S A w w'\<close>: operations that satisfy \<open>A\<close> lead from \<open>w\<close> to \<open>w'\<close>.\<close>

definition moves :: "system \<Rightarrow> (sys_event \<Rightarrow> bool) \<Rightarrow> world \<Rightarrow> world \<Rightarrow> bool" where
  "moves S A w w' \<longleftrightarrow> (\<exists>tr. sys_run S w tr w' \<and> list_all (\<lambda>x. upload_ok (fst x) \<and> A (fst x)) tr)"

lemma sys_run_append:
  "sys_run S w tr w1 \<Longrightarrow> sys_run S w1 tr' w2 \<Longrightarrow> sys_run S w (tr @ tr') w2"
  by (induction rule: sys_run.induct) (auto intro: sys_run.cons)

lemma moves_refl [simp]: "moves S A w w"
  by (auto simp: moves_def intro!: exI [of _ "[]"] sys_run.nil)

lemma moves_trans:
  assumes "moves S A w w1" "moves S A w1 w2"
  shows "moves S A w w2"
proof -
  from assms obtain tr1 tr2 where "sys_run S w tr1 w1" "sys_run S w1 tr2 w2"
    and "list_all (\<lambda>x. upload_ok (fst x) \<and> A (fst x)) (tr1 @ tr2)" unfolding moves_def by auto
  with sys_run_append show ?thesis unfolding moves_def by blast
qed

lemma moves_step: "sys_step S w ev r w' \<Longrightarrow> upload_ok ev \<Longrightarrow> A ev \<Longrightarrow> moves S A w w'"
  unfolding moves_def by (rule exI [of _ "[(ev, r)]"]) (auto intro: sys_run.intros)

lemma moves_mono: "moves S A w w' \<Longrightarrow> (\<And>ev. A ev \<Longrightarrow> A' ev) \<Longrightarrow> moves S A' w w'"
  unfolding moves_def by (auto simp: list_all_iff)

lemma moves_inv: "moves S A w w' \<Longrightarrow> sys_inv S w \<Longrightarrow> sys_inv S w'"
  unfolding moves_def using sys_run_inv by (fastforce simp: list_all_iff)

interpretation srv: step_rel "\<lambda>s s'. moves S A (sv_world s) (sv_world s')" for S A
  by unfold_locales (auto intro: moves_trans)

subsection \<open>The calls of the handlers\<close>

text \<open>The operations that act for a caller; closing a file and the passing of time are nobody's.\<close>

definition acts_as :: "user_claims \<Rightarrow> sys_event \<Rightarrow> bool" where
  "acts_as claims ev =
     (case ev of
        EvUpload rnd salt c \<Rightarrow> uf_User c = requesting_user claims
      | EvDelete c \<Rightarrow> del_User c = requesting_user claims
      | EvGet c \<Rightarrow> gf_User c = requesting_user claims
      | EvList c \<Rightarrow> ga_UserID c = uc_UserID claims
      | EvStat c \<Rightarrow> gs_User c = requesting_user claims
      | EvDownload c \<Rightarrow> False
      | EvTick \<Rightarrow> False
      | EvClose fd \<Rightarrow> True
      | EvEnv tape dt \<Rightarrow> True)"

lemma calls_redis [intro]: "srv.calls S A (in_redis f)"
  by (auto simp: srv.calls_def in_redis_def split: prod.split_asm)

lemma calls_auth [intro]: "srv.calls S A (in_auth f)"
  by (auto simp: srv.calls_def in_auth_def split: prod.split_asm)

lemma runs_auth [intro]: "srv.runs S A (in_auth_run f)"
  by (auto simp: srv.runs_def in_auth_run_def bind_run_Returns split: prod.split_asm)

lemma calls_world:
  assumes "\<And>w x w'. f w = (x, w') \<Longrightarrow> sys_step S w ev (g x) w'" "upload_ok ev" "A ev"
  shows "srv.calls S A (in_world f)"
  using moves_step [OF assms(1) assms(2)] assms(3)
  by (auto simp: srv.calls_def in_world_def split: prod.split_asm)

lemma calls_copy: "(\<And>tape dt. A (EvEnv tape dt)) \<Longrightarrow> srv.calls S A (srv_copy D b)"
proof -
  assume A: "\<And>tape dt. A (EvEnv tape dt)"
  have "moves S A w (w\<lparr>w_clock := w_clock w + int dt\<rparr>)" for w dt
    by (rule moves_step [OF sys_step.env [where tape = "w_tape w" and dt = dt]]) (auto simp: upload_ok_def A)
  then show ?thesis by (auto simp: srv.calls_def srv_copy_def split: prod.split_asm)
qed

lemma runs_upload:
  assumes "1 \<le> uf_MaxDownloads c" "uf_MaxDownloads c < 2 ^ 15" "\<And>rnd salt. A (EvUpload rnd salt c)"
  shows "srv.runs (dp_sys D) A (srv_UploadFile D c)"
proof -
  have "moves (dp_sys D) A w w'" if "Service_UploadFile rnd salt (sys_service (dp_sys D)) c w = Returns (x, w')"
    for rnd salt w x w'
    by (rule moves_step [OF sys_step.upload [OF that]]) (use assms in \<open>auto simp: upload_ok_def\<close>)
  then show ?thesis by (auto simp: srv.runs_def srv_UploadFile_def bind_run_Returns split: prod.split_asm)
qed

text \<open>The configuration of the service: the defaults are numbers of the right type.\<close>

definition cfg_ok :: "service_cfg \<Rightarrow> bool" where
  "cfg_ok cfg \<longleftrightarrow> 1 \<le> DefaultMaxDownloads cfg \<and> DefaultMaxDownloads cfg < 2 ^ 15 \<and> int64_range (DefaultTtl cfg)"

abbreviation acting :: "(user_claims \<Rightarrow> bool) \<Rightarrow> sys_event \<Rightarrow> bool" where
  "acting Q ev \<equiv> \<exists>claims. Q claims \<and> acts_as claims ev"

abbreviation for_caller :: "(user_claims \<Rightarrow> bool) \<Rightarrow> request \<Rightarrow> bool" where
  "for_caller Q r \<equiv> \<forall>claims. GetUserClaims r = Inr claims \<longrightarrow> Q claims"

lemma moves_file_upload:
  assumes "cfg_ok (srv_cfg D)"
  shows "srv.keeps (dp_sys D) (acting Q) (for_caller Q) (upload_New (srv_UploadFile D) (srv_cfg D))"
  by (rule srv.keeps_upload) (use assms in \<open>auto simp: cfg_ok_def acts_as_def intro!: runs_upload\<close>)

lemma moves_file_delete: "srv.keeps (dp_sys D) (acting Q) (for_caller Q) (file_delete D)"
  unfolding file_delete_def
  by (rule srv.keeps_delete, rule calls_world [OF sys_step.delete]) (auto simp: upload_ok_def acts_as_def)

lemma moves_file_get: "srv.keeps (dp_sys D) (acting Q) (for_caller Q) (file_get D)"
  unfolding file_get_def
  by (rule srv.keeps_get, rule calls_world [OF sys_step.get]) (auto simp: upload_ok_def acts_as_def)

lemma moves_file_getAll: "srv.keeps (dp_sys D) (acting Q) (for_caller Q) (file_getAll D)"
  unfolding file_getAll_def
  by (rule srv.keeps_getAll, rule calls_world [OF sys_step.list]) (auto simp: upload_ok_def acts_as_def)

lemma moves_file_stat: "srv.keeps (dp_sys D) (acting Q) (for_caller Q) (file_stat D)"
  unfolding file_stat_def
  by (rule srv.keeps_stat, rule calls_world [OF sys_step.stat]) (auto simp: upload_ok_def acts_as_def)

subsection \<open>The routes\<close>

lemma for_any [simp]: "for_caller (\<lambda>_. True) = (\<lambda>r. True)"
  by simp

text \<open>The handlers of the user routes act for the caller that the request names.\<close>

lemma user_route_handler:
  assumes "cfg_ok (srv_cfg D)" "rt \<in> set (user_routes D)"
  shows "\<exists>h. rt_Handler rt = authorized D h \<and>
    (\<forall>Q. srv.keeps (dp_sys D) (acting Q) (for_caller Q) h)"
proof -
  note k = moves_file_upload [OF assms(1)] moves_file_delete moves_file_get moves_file_getAll moves_file_stat
  from assms(2) consider "rt_Handler rt = authorized D (timed (upload_New (srv_UploadFile D) (srv_cfg D)))"
    | "rt_Handler rt = authorized D (file_getAll D)" | "rt_Handler rt = authorized D (file_stat D)"
    | "rt_Handler rt = authorized D (file_get D)" | "rt_Handler rt = authorized D (file_delete D)"
    by (auto simp: user_routes_def mount_def)
  then show ?thesis
  proof cases
    case 1
    then show ?thesis using srv.keeps_timeout [OF k(1)] by (auto simp: timed_def)
  qed (use k in blast)+
qed

lemma acting_eq: "acting (\<lambda>c. c = claims) = acts_as claims"
  by auto

text \<open>
  A request on a user route does nothing to database and storage, or the authentication service
  named a caller for its bearer token and only operations of that caller run.
\<close>

lemma user_route_effect:
  assumes "cfg_ok (srv_cfg D)" "rt \<in> set (user_routes D)" "rt_Handler rt r w s = Returns (w', s')"
  shows "sv_world s' = sv_world s \<or>
    (\<exists>info a. extractBearerToken (rq_Header r ''Authorization'') \<noteq> [] \<and>
       AuthClient_ValidateToken (dp_authStub D) (extractBearerToken (rq_Header r ''Authorization'')) (sv_auth s) =
         Returns (Inr info, a) \<and>
       moves (dp_sys D) (acts_as \<lparr>uc_UserID = vr_UserID info, uc_Roles = vr_Roles info\<rparr>)
         (sv_world s) (sv_world s'))"
proof -
  let ?t = "extractBearerToken (rq_Header r ''Authorization'')"
  let ?V = "AuthClient_ValidateToken (dp_authStub D)"
  from user_route_handler [OF assms(1,2)] obtain h where h: "rt_Handler rt = authorized D h"
    and k: "\<And>Q. srv.keeps (dp_sys D) (acting Q) (for_caller Q) h" by blast
  from NewAuth_elim [OF assms(3) [unfolded h authorized_def]] consider "s' = s"
    | e where "in_auth_run (?V ?t) s = Returns (Inl e, s')"
    | info s1 where "?t \<noteq> []" "in_auth_run (?V ?t) s = Returns (Inr info, s1)"
      "h (r\<lparr>ctx_UserID := Some (vr_UserID info), ctx_Roles := Some (vr_Roles info)\<rparr>) w s1 = Returns (w', s')"
    by blast
  then show ?thesis
  proof cases
    case 2
    then show ?thesis by (auto simp: in_auth_run_def bind_run_Returns)
  next
    case 3
    let ?r = "r\<lparr>ctx_UserID := Some (vr_UserID info), ctx_Roles := Some (vr_Roles info)\<rparr>"
    let ?c = "\<lparr>uc_UserID = vr_UserID info, uc_Roles = vr_Roles info\<rparr>"
    from 3(2) obtain a where a: "?V ?t (sv_auth s) = Returns (Inr info, a)" "sv_world s1 = sv_world s"
      by (auto simp: in_auth_run_def bind_run_Returns)
    have "for_caller (\<lambda>c. c = ?c) ?r" by (simp add: GetUserClaims_def)
    from srv.keepsD [OF k this 3(3)] have "moves (dp_sys D) (acts_as ?c) (sv_world s) (sv_world s')"
      unfolding acting_eq a(2) .
    with 3(1) a(1) show ?thesis by blast
  qed simp
qed

text \<open>Every route of the application respects the moves.\<close>

lemma mount_admin_Built:
  assumes "mount_admin D hs = Built rts" "rt \<in> set rts"
  shows "\<exists>m p h h'. (m, p, h) \<in> set hs \<and> admin_only D h = Built h' \<and> rt = mount m p h'"
  using assms by (induction D hs arbitrary: rts rule: mount_admin.induct) (auto simp: bind_boot_Built, blast+)

definition anything :: "sys_event \<Rightarrow> bool" where
  "anything ev \<longleftrightarrow> True"

lemma keeps_any_request:
  "srv.keeps S (acting (\<lambda>_. True)) (for_caller (\<lambda>_. True)) h \<Longrightarrow> srv.keeps S anything (\<lambda>r. True) h"
  using moves_mono by (fastforce simp: srv.keeps_def anything_def)

lemmas any_file_handler =
  moves_file_delete [THEN keeps_any_request] moves_file_get [THEN keeps_any_request]
  moves_file_getAll [THEN keeps_any_request] moves_file_stat [THEN keeps_any_request]

lemma admin_handlers_move:
  assumes "(m, p, h) \<in> set (admin_handlers D)"
  shows "srv.keeps (dp_sys D) anything (\<lambda>r. True) h"
  using assms unfolding admin_handlers_def parsed_def
  by (auto intro!: srv.keeps_admin_context any_file_handler srv.keeps_parser srv.keeps_userGet
      srv.keeps_userGetAll srv.keeps_assign srv.keeps_revoke)

lemma auth_routes_move:
  assumes "rt \<in> set (auth_routes D)"
  shows "srv.keeps (dp_sys D) A (\<lambda>r. True) (rt_Handler rt)"
  using assms unfolding auth_routes_def login_route_def register_route_def refresh_route_def logout_route_def validated_def parsed_def limited_def
  by (auto simp: mount_def intro!: srv.keeps_limiter srv.keeps_parser srv.keeps_validator srv.keeps_login
      srv.keeps_register srv.keeps_refresh srv.keeps_logout)

text \<open>The events of the download route.\<close>

definition downloading :: "sys_event \<Rightarrow> bool" where
  "downloading ev = (case ev of EvDownload c \<Rightarrow> True | EvClose fd \<Rightarrow> True | EvEnv tape dt \<Rightarrow> True | _ \<Rightarrow> False)"

lemma download_route_moves:
  "srv.keeps (dp_sys D) downloading (\<lambda>r. True) (rt_Handler (download_route D))"
  unfolding download_route_def limited_def timed_def mount_def route.simps
  by (intro srv.keeps_limiter calls_redis srv.keeps_timeout srv.keeps_download calls_copy
      calls_world [OF sys_step.download] calls_world [OF sys_step.close])
    (auto simp: upload_ok_def downloading_def)

lemma swagger_route_effect:
  assumes "rt \<in> set (swagger_routes D)" "rt_Handler rt r w s = Returns (w', s')"
  shows "s' = s"
  using assms by (auto simp: swagger_routes_def static_def mount_def bind_run_Returns split: if_split_asm)

lemma route_moves:
  assumes "cfg_ok (srv_cfg D)" "MustMountHandlers D = Built rts" "rt \<in> set rts"
    and h: "rt_Handler rt r w s = Returns (w', s')"
  shows "moves (dp_sys D) anything (sv_world s) (sv_world s')"
proof -
  have mono: "moves (dp_sys D) A v v' \<Longrightarrow> moves (dp_sys D) anything v v'" for A v v'
    by (erule moves_mono) (simp add: anything_def)
  from assms(2,3) consider "rt \<in> set (swagger_routes D)" | "rt = download_route D" | "rt \<in> set (user_routes D)" | "rt \<in> set (auth_routes D)"
    | adm where "mount_admin D (admin_handlers D) = Built adm" "rt \<in> set adm"
    by (auto simp: MustMountHandlers_def bind_boot_Built)
  then show ?thesis
  proof cases
    case 1
    with swagger_route_effect [OF 1 h] show ?thesis by simp
  next
    case 2
    with srv.keepsD [OF download_route_moves] h mono show ?thesis by blast
  next
    case 3
    from user_route_effect [OF assms(1) 3 h] mono show ?thesis by auto
  next
    case 4
    from srv.keepsD [OF auth_routes_move [OF 4] TrueI h] show ?thesis .
  next
    case 5
    from mount_admin_Built [OF this] obtain m p g g' where g: "(m, p, g) \<in> set (admin_handlers D)"
      "admin_only D g = Built g'" "rt = mount m p g'" by blast
    have "srv.keeps (dp_sys D) anything (\<lambda>r. True) g'"
      by (rule srv.keeps_admin [OF g(2) [unfolded admin_only_def]]) (use admin_handlers_move [OF g(1)] in auto)
    from srv.keepsD [OF this TrueI] h g(3) show ?thesis by (simp add: mount_def)
  qed
qed

subsection \<open>What a caller can change\<close>

definition others :: "int \<Rightarrow> file_info list \<Rightarrow> file_info list" where
  "others uid fs = filter (\<lambda>f. f_UserID f \<noteq> uid) fs"

text \<open>A deletion that was allowed to a user without the admin role dropped a row of that user.\<close>

lemma others_dropped:
  assumes "app.delete_allowed E c w" "app.dropped E (del_Alias c) w w'"
    and "unique_aliases (collate E) (rows_of w)" "RoleAdmin \<notin> set (ui_Roles (del_User c))"
  shows "others (ui_UserID (del_User c)) (rows_of w') = others (ui_UserID (del_User c)) (rows_of w)"
proof -
  from assms(1) obtain f t where f: "f \<in> set (rows_of w)" "live_as (collate E) (sql_now E t) (del_Alias c) f"
    "checkAccess f (ui_UserID (del_User c)) (ui_Roles (del_User c)) = None"
    unfolding app.delete_allowed_def by blast
  from f(3) assms(4) have own: "f_UserID f = ui_UserID (del_User c)"
    by (auto simp: checkAccess_def checkOwner_def split: if_splits)
  have "g = f" if "g \<in> set (rows_of w)" "same_alias (collate E) (del_Alias c) g" for g
    using unique_same [OF assms(3) that(1) f(1) that(2) live_same [OF f(2)]] .
  with own have "\<forall>g \<in> set (rows_of w). f_UserID g \<noteq> ui_UserID (del_User c) \<longrightarrow>
      \<not> same_alias (collate E) (del_Alias c) g" by auto
  with assms(2) show ?thesis
    by (auto simp: app.dropped_def others_def filter_filter intro!: filter_cong)
qed

lemma others_kept_step:
  assumes s: "sys_step S w ev r w'" and a: "acts_as claims ev"
    and adm: "RoleAdmin \<notin> set (uc_Roles claims)" and u: "unique_aliases (collate (sys_env S)) (rows_of w)"
  shows "others (uc_UserID claims) (rows_of w') = others (uc_UserID claims) (rows_of w)"
proof (cases ev)
  case (EvUpload rnd salt c)
  with sys_step_table [OF s u] a show ?thesis
    by (auto simp: table_step_def acts_as_def requesting_user_def others_def)
next
  case (EvDelete c)
  with a have c: "ui_UserID (del_User c) = uc_UserID claims" "ui_Roles (del_User c) = uc_Roles claims"
    by (simp_all add: acts_as_def requesting_user_def)
  from s EvDelete obtain e where d: "Service_DeleteFile (app_service (sys_env S) (sys_path S) (sys_cfg S) (sys_bcrypt S)) c w = (e, w')"
    by (auto elim: sys_step.cases simp: sys_service_def)
  show ?thesis
  proof (cases e)
    case None
    from app.delete_ok [OF d [unfolded None] u] app.delete_ok_allowed [OF d [unfolded None] u]
      others_dropped [of "sys_env S" c w w'] u adm c show ?thesis by simp
  next
    case (Some x)
    from app.delete_err [OF d [unfolded Some] u] others_dropped [of "sys_env S" c w w'] u adm c
    show ?thesis by auto
  qed
qed (use sys_step_table [OF s u] a in \<open>auto simp: table_step_def acts_as_def\<close>)

lemma others_kept:
  assumes "moves S (acts_as claims) w w'" "RoleAdmin \<notin> set (uc_Roles claims)" "sys_inv S w"
  shows "others (uc_UserID claims) (rows_of w') = others (uc_UserID claims) (rows_of w)"
proof -
  from assms(1) obtain tr where "sys_run S w tr w'"
    and "list_all (\<lambda>x. upload_ok (fst x) \<and> acts_as claims (fst x)) tr" unfolding moves_def by blast
  then show ?thesis
    using assms(3)
  proof (induction rule: sys_run.induct)
    case (cons w ev r w1 tr w')
    then have "sys_inv S w1" using sys_step_inv by auto
    with cons others_kept_step [OF cons.hyps(1) _ assms(2)] show ?case by (simp add: sys_inv_def)
  qed simp
qed

subsection \<open>When the authentication service does not answer\<close>

text \<open>
  A status that \<open>mapGrpcError\<close> passes through, such as Unavailable, is no error of the table: the
  middleware writes nothing at all.
\<close>

lemma validate_unavailable:
  assumes "stub_ValidateToken ac token a = (Inl (Ext (GrpcStatus (OtherCode n) m)), a')" "n \<noteq> 0"
  shows "AuthClient_ValidateToken ac token a = Returns (Inl (Ext (GrpcStatus (OtherCode n) m)), a')"
  using assms by (simp add: AuthClient_ValidateToken_def failed_def mapGrpcError_status)

lemma outage_unanswered:
  assumes "extractBearerToken (rq_Header r ''Authorization'') = t" "t \<noteq> []"
    and "stub_ValidateToken (dp_authStub D) t (sv_auth s) = (Inl (Ext (GrpcStatus (OtherCode n) m)), a')" "n \<noteq> 0"
  shows "authorized D h r w s = Returns (w, s\<lparr>sv_auth := a'\<rparr>)"
  using assms validate_unavailable [OF assms(3,4)]
  by (simp add: authorized_def NewAuth_def in_auth_run_def RenderAuthServiceError_def)

subsection \<open>The admin secret\<close>

text \<open>
  Behind the admin routes nothing but the limiter's counter changes unless the request carries the
  secret of the environment.
\<close>

lemma admin_route_effect:
  assumes "mount_admin D (admin_handlers D) = Built adm" "rt \<in> set adm"
    and h: "rt_Handler rt r w s = Returns (w', s')"
    and other: "b64_decode (extractBearerToken (rq_Header r ''Authorization'')) \<noteq> b64_decode (dp_secret D)"
  shows "sv_world s' = sv_world s \<and> sv_auth s' = sv_auth s"
proof -
  from mount_admin_Built [OF assms(1,2)] obtain m p g g' where g: "admin_only D g = Built g'"
    "rt = mount m p g'" by blast
  then obtain key where key: "b64_decode (dp_secret D) = Some key"
    "g' = admin_handler key (\<lambda>ip. in_redis (RateLimiter_Allow (dp_Admin D) ip))
       (\<lambda>ip. in_redis (RateLimiter_Reset (dp_Admin D) ip)) g"
    by (auto simp: admin_only_def NewAdminAuth_Built)
  have "admin_handler key (\<lambda>ip. in_redis (RateLimiter_Allow (dp_Admin D) ip))
       (\<lambda>ip. in_redis (RateLimiter_Reset (dp_Admin D) ip)) g r w s = Returns (w', s')"
    using h g(2) key(2) by (simp add: mount_def)
  from admin_handler_elim [OF this] other key(1) show ?thesis
    by (auto simp: in_redis_def split: prod.split)
qed

end
