(* ===== verification/Over_Http.thy ===== *)
theory Over_Http
  imports Server Calm_World
begin

text \<open>
  Requests from the client's side, when no call fails: what the download and the upload route answer,
  through limiter, deadlines, token check, handler, service, database and storage.
\<close>

text \<open>The bytes of the body that are copied out.\<close>

fun sent_body :: "replies \<Rightarrow> string" where
  "sent_body [] = []"
| "sent_body (Copied b # rs) = b @ sent_body rs"
| "sent_body (_ # rs) = sent_body rs"

text \<open>A caller below the budget of a limiter reaches the next handler; only Redis has changed.\<close>

lemma limited_passes:
  assumes "ExtractIP (rq_RemoteAddr r) \<noteq> []" "redis_ok (sv_redis s)"
    and "hits_of params (sv_redis s) (ExtractIP (rq_RemoteAddr r)) < rp_MaxAttempts params"
  shows "\<exists>rd. limited params h r w s = h r w (s\<lparr>sv_redis := rd\<rparr>)"
proof -
  obtain x rd where a: "RateLimiter_Allow params (ExtractIP (rq_RemoteAddr r)) (sv_redis s) = (x, rd)"
    by (cases "RateLimiter_Allow params (ExtractIP (rq_RemoteAddr r)) (sv_redis s)")
  have "x \<noteq> Inr False" using redis_limiter.allow_below [OF assms(2)] a assms(3) by auto
  with a assms(1) show ?thesis
    by (intro exI [of _ rd]) (auto simp: limited_def NewRateLimiter_def in_redis_def split: sum.split)
qed

text \<open>A caller whose counter is alive and at the limit is sent away, and its wait begins anew.\<close>

lemma limited_refuses:
  assumes "ExtractIP (rq_RemoteAddr r) \<noteq> []" "rd_tape (sv_redis s) = []"
    and "rd_get (sv_redis s) (limiter_key params (ExtractIP (rq_RemoteAddr r))) = Some (n, Some e)"
    and "1 \<le> n" "rp_MaxAttempts params \<le> n" "n < 2 ^ 62" "0 < window_secs params" "0 < block_secs params"
  shows "\<exists>rd. limited params h r w s = Returns (RenderError 429 ''too many requests. try again later'' w, s\<lparr>sv_redis := rd\<rparr>) \<and>
    rd_keys rd (limiter_key params (ExtractIP (rq_RemoteAddr r))) =
      Some (n + 1, Some (rd_clock (sv_redis s) + block_secs params * second))"
proof -
  have "rd_get (sv_redis s) (limiter_key params (ExtractIP (rq_RemoteAddr r))) = (if n = 0 then None else Some (n, Some e))"
    using assms(3,4) by simp
  from Allow_calm [OF assms(2) this _ assms(7,8)] assms(5,6) obtain rd where
    "RateLimiter_Allow params (ExtractIP (rq_RemoteAddr r)) (sv_redis s) = (Inr False, rd)"
    "rd_keys rd (limiter_key params (ExtractIP (rq_RemoteAddr r))) =
      Some (n + 1, Some (rd_clock (sv_redis s) + block_secs params * second))" by auto
  with assms(1) show ?thesis by (auto simp: limited_def NewRateLimiter_def in_redis_def)
qed

subsection \<open>The download route\<close>

abbreviation download_command :: "request \<Rightarrow> download_file" where
  "download_command r \<equiv> \<lparr>df_Alias = rq_URLParam r ''alias'', df_Password = rq_Header r ''X-Resource-Password''\<rparr>"

abbreviation below_budget :: "'a deployment \<Rightarrow> request \<Rightarrow> 'a server \<Rightarrow> bool" where
  "below_budget D r s \<equiv> ExtractIP (rq_RemoteAddr r) \<noteq> [] \<and> redis_ok (sv_redis s) \<and>
     hits_of (dp_Files D) (sv_redis s) (ExtractIP (rq_RemoteAddr r)) < rp_MaxAttempts (dp_Files D)"

text \<open>What comes between the limiter and the handler, and the handler itself.\<close>

lemma download_route_runs:
  assumes "below_budget D r s"
  shows "\<exists>rd. rt_Handler (download_route D) r w s =
    download_New (\<lambda>c. in_world (Service_DownloadFile (sys_service (dp_sys D)) c))
        (\<lambda>fd. in_world (st_Close (NewFileStorage (sys_path (dp_sys D))) fd)) (dp_mime D) (srv_copy D) r
      (w @ [ReadDeadline (w_clock (sv_world s) + 10 * minute), WriteDeadline (w_clock (sv_world s) + 1 * minute)])
      (s\<lparr>sv_redis := rd\<rparr>)"
proof -
  let ?h = "timed (download_New
        (\<lambda>c. in_world (Service_DownloadFile (sys_service (dp_sys D)) c))
        (\<lambda>fd. in_world (st_Close (NewFileStorage (sys_path (dp_sys D))) fd))
        (dp_mime D) (srv_copy D))"
  from limited_passes [of r s "dp_Files D" ?h w] assms show ?thesis
    by (auto simp: download_route_def mount_def timed_def NewTimeoutLimiter_def)
qed

lemma download_route_failure:
  assumes "below_budget D r s"
    and "Service_DownloadFile (sys_service (dp_sys D)) (download_command r) (sv_world s) = (Inl err, v)"
  shows "\<exists>t1 t2 s'. rt_Handler (download_route D) r w s =
      Returns (file_failure err (w @ [ReadDeadline t1, WriteDeadline t2]), s') \<and> sv_world s' = v \<and> sv_auth s' = sv_auth s"
proof -
  from download_route_runs [OF assms(1), of w] obtain rd where
    r: "rt_Handler (download_route D) r w s =
    download_New (\<lambda>c. in_world (Service_DownloadFile (sys_service (dp_sys D)) c))
        (\<lambda>fd. in_world (st_Close (NewFileStorage (sys_path (dp_sys D))) fd)) (dp_mime D) (srv_copy D) r
      (w @ [ReadDeadline (w_clock (sv_world s) + 10 * minute), WriteDeadline (w_clock (sv_world s) + 1 * minute)])
      (s\<lparr>sv_redis := rd\<rparr>)" by blast
  have "\<exists>s'. rt_Handler (download_route D) r w s = Returns (file_failure err
      (w @ [ReadDeadline (w_clock (sv_world s) + 10 * minute), WriteDeadline (w_clock (sv_world s) + 1 * minute)]), s') \<and>
      sv_world s' = v \<and> sv_auth s' = sv_auth s"
    unfolding r using assms(2) by (simp add: download_New_def in_world_def)
  then show ?thesis by blast
qed

text \<open>A download that is answered: status, body and length, and the file is closed again.\<close>

lemma calm_download_route:
  assumes b: "below_budget D r s" and w: "calm (sv_world s)"
    and f: "find (live_row (sys_env (dp_sys D)) (w_clock (sv_world s)) (rq_URLParam r ''alias'')) (w_table (sv_world s)) = Some x"
    and pw: "checkPassword (sys_bcrypt (dp_sys D)) (row_file x) (rq_Header r ''X-Resource-Password'') = None"
    and d: "folder_of (sys_path (dp_sys D)) (sv_world s) (rq_URLParam r ''alias'') = Some ((n, content) # rest)"
    and k: "f_DownloadsLeft (row_file x) = k" "1 \<le> k" "k < 2 ^ 15"
    and c: "\<And>s'. dp_copy D content s' = ((length content, None), dt s')"
  shows "\<exists>w' s' lag. rt_Handler (download_route D) r [] s = Returns (w', s') \<and> sent_status w' = 200 \<and>
    sent_body w' = content \<and> HeaderSet ''Content-Length'' (decInt (int (length content))) \<in> set w' \<and>
    sv_world s' = (downloaded (sys_env (dp_sys D)) (sys_path (dp_sys D)) (rq_URLParam r ''alias'') (k - 1) (sv_world s))
      \<lparr>w_clock := w_clock (sv_world s) + int lag\<rparr>"
proof -
  let ?S = "dp_sys D" and ?a = "rq_URLParam r ''alias''" and ?v = "sv_world s"
  let ?dl = "downloaded (sys_env ?S) (sys_path ?S) ?a (k - 1) ?v"
  have sv: "Service_DownloadFile (sys_service ?S) (download_command r) ?v =
      (Inr \<lparr>dr_File = content, dr_Name = n, dr_Size = int (length content), dr_fd = fresh (w_open ?v)\<rparr>,
       ?dl\<lparr>w_open := fresh (w_open ?v) # w_open ?v\<rparr>)"
    unfolding sys_service_def using w f pw d k by (rule calm_download)
  have cl: "st_Close (NewFileStorage (sys_path ?S)) (fresh (w_open ?v))
      (?dl\<lparr>w_open := fresh (w_open ?v) # w_open ?v, w_clock := t\<rparr>) = (None, ?dl\<lparr>w_clock := t\<rparr>)" for t
    by (simp add: NewFileStorage_def os_Close_def downloaded_def removeAll_fresh)
  from download_route_runs [OF b, of "[]"] obtain rd where
    r: "rt_Handler (download_route D) r [] s =
    download_New (\<lambda>c. in_world (Service_DownloadFile (sys_service (dp_sys D)) c))
        (\<lambda>fd. in_world (st_Close (NewFileStorage (sys_path (dp_sys D))) fd)) (dp_mime D) (srv_copy D) r
      ([] @ [ReadDeadline (w_clock (sv_world s) + 10 * minute), WriteDeadline (w_clock (sv_world s) + 1 * minute)])
      (s\<lparr>sv_redis := rd\<rparr>)" by blast
  show ?thesis
    unfolding r using sv cl c
    by (auto simp: download_New_def in_world_def srv_copy_def Let_def split: prod.split)
qed

subsection \<open>The upload route\<close>

abbreviation upload_command :: "request \<Rightarrow> validate_result \<Rightarrow> upload_request \<Rightarrow> string \<Rightarrow> string \<Rightarrow> upload_file" where
  "upload_command r info q name content \<equiv>
     \<lparr>uf_File = content, uf_Filesize = int (length content), uf_Filename = name, uf_MaxDownloads = ur_MaxDownloads q,
      uf_Password = ur_Password q, uf_TTL = ur_TTL q,
      uf_User = \<lparr>ui_UserID = vr_UserID info, ui_Roles = vr_Roles info\<rparr>\<rparr>"

lemma upload_route_in: "hd (user_routes D) \<in> set (user_routes D)"
  by (simp add: user_routes_def)

lemma upload_route_eq:
  "hd (user_routes D) = mount ''POST'' ''/api/upload'' (authorized D (timed (upload_New (srv_UploadFile D) (srv_cfg D))))"
  by (simp add: user_routes_def)

lemma upload_route_runs:
  assumes t: "extractBearerToken (rq_Header r ''Authorization'') = t" "t \<noteq> []"
    "AuthClient_ValidateToken (dp_authStub D) t (sv_auth s) = Returns (Inr info, a)"
    and f: "rq_ParseForm r (MaxFilesSizeForVipInBytes (Permissions (srv_cfg D)))"
    "getRequestFromForm (srv_cfg D) r = Inr q" "rq_FormFile r ''file'' = Some (name, content)"
    and u: "Service_UploadFile (dp_rnd D (s\<lparr>sv_auth := a\<rparr>)) (dp_salt D (s\<lparr>sv_auth := a\<rparr>)) (sys_service (dp_sys D))
      (upload_command r info q name content) (sv_world s) = Returns (Inr al, v)"
  shows "\<exists>t1 t2 s'. rt_Handler (hd (user_routes D)) r w s =
      Returns (w @ [ReadDeadline t1, WriteDeadline t2, Rendered 201 (JObj (str_field ''alias'' al))], s') \<and>
    sv_world s' = v \<and> sv_redis s' = sv_redis s"
proof -
  have ctx: "getRequestFromForm (srv_cfg D) (r\<lparr>ctx_UserID := i, ctx_Roles := j\<rparr>) = getRequestFromForm (srv_cfg D) r" for i j
    by (simp add: getRequestFromForm_def Let_def split: sum.split)
  show ?thesis
    using t f u
    by (simp add: upload_route_eq mount_def authorized_def NewAuth_def in_auth_run_def timed_def NewTimeoutLimiter_def
        upload_New_def GetUserClaims_def ctx srv_UploadFile_def requesting_user_def)
qed

end
