(* ===== verification/Failing_Calls.thy ===== *)
theory Failing_Calls
  imports Calm_World
begin

text \<open>
  What single calls do when they fail while everything else works: a folder that cannot be removed
  holds up the worker, and a commit that fails after the last download leaves a row without its file.
  The failing call is the field of the repository or the storage that the interface has for it.
\<close>

subsection \<open>A folder that cannot be removed\<close>

text \<open>The storage, where removing the folder of \<open>a\<close> always ends in the error \<open>err\<close>.\<close>

definition stuck_storage :: "string \<Rightarrow> string \<Rightarrow> goerr \<Rightarrow> world file_storage" where
  "stuck_storage p a err =
     (NewFileStorage p)\<lparr>st_Delete := \<lambda>alias w. if alias = a then (Some err, w) else FileStorage_Delete p alias w\<rparr>"

definition stuck_worker :: "system \<Rightarrow> string \<Rightarrow> goerr \<Rightarrow> world file_worker" where
  "stuck_worker S a err =
     NewFileWorker (NewFileRepo (sys_env S)) (stuck_storage (sys_path S) a err) world_sleep (sys_cfg S)"

text \<open>Ticks at the given times.\<close>

fun ticks_at :: "world file_worker \<Rightarrow> instant list \<Rightarrow> world \<Rightarrow> world" where
  "ticks_at fw [] w = w"
| "ticks_at fw (t # ts) w = ticks_at fw ts (snd (FileWorker_tick fw (w\<lparr>w_clock := t\<rparr>)))"

text \<open>Only folders differ.\<close>

definition same_but_folders :: "world \<Rightarrow> world \<Rightarrow> bool" where
  "same_but_folders w w' \<longleftrightarrow> (\<exists>ds. w' = w\<lparr>w_dirs := ds\<rparr>)"

lemma stuck_folders:
  assumes "w_tape w = []" "a \<in> set as" "\<not> errors_Is err (Ext Canceled)"
  shows "\<exists>w'. delete_folders (stuck_storage p a err) as w = (LoopBreak, w') \<and> same_but_folders w w'"
  using assms(1,2)
proof (induction as arbitrary: w)
  case (Cons b as)
  show ?case
  proof (cases "b = a")
    case True
    then show ?thesis using assms(3)
      by (auto simp: stuck_storage_def same_but_folders_def intro: exI [of _ "w_dirs w"])
  next
    case False
    let ?w = "w\<lparr>w_dirs := remove_under (Join p b) (w_dirs w)\<rparr>"
    have d: "FileStorage_Delete p b w = (None, ?w)"
      using calm_st_delete [OF Cons.prems(1), of p b] by (simp add: NewFileStorage_def)
    have "\<exists>w'. delete_folders (stuck_storage p a err) as ?w = (LoopBreak, w') \<and> same_but_folders ?w w'"
      by (rule Cons.IH) (use Cons.prems False in auto)
    with d False show ?thesis by (auto simp: stuck_storage_def same_but_folders_def)
  qed
qed simp

lemma stuck_tick:
  assumes w: "calm w" and b: "r \<in> set (batch (sys_env S) w)" "f_Alias (row_file r) = a"
    and err: "\<not> errors_Is err (Ext Canceled)"
  shows "\<exists>w'. FileWorker_tick (stuck_worker S a err) w = (True, w') \<and> same_but_folders w w'"
proof -
  let ?E = "sys_env S"
  let ?as = "map (f_Alias \<circ> row_file) (batch ?E w)"
  from calm_expired_tx [OF w, of ?E] obtain v where
    del: "repo_DeleteExpiredFilesTx (NewFileRepo ?E) (SqlTx h0) batchLimit (w\<lparr>w_txs := [(h0, w_table w)]\<rparr>) =
      (Inr ?as, w\<lparr>w_txs := [(h0, v)]\<rparr>)" by blast
  have "a \<in> set ?as" using b by auto
  with stuck_folders [of "w\<lparr>w_txs := [(h0, v)]\<rparr>" a ?as err "sys_path S"] w err obtain ds where
    f: "delete_folders (stuck_storage (sys_path S) a err) ?as (w\<lparr>w_txs := [(h0, v)]\<rparr>) =
      (LoopBreak, w\<lparr>w_txs := [(h0, v)], w_dirs := ds\<rparr>)"
    by (auto simp: calm_def same_but_folders_def)
  have "w\<lparr>w_txs := [], w_dirs := ds\<rparr> = w\<lparr>w_dirs := ds\<rparr>" using w by (simp add: calm_def)
  with w del f show ?thesis
    by (intro exI [of _ "w\<lparr>w_dirs := ds\<rparr>"])
      (auto simp: FileWorker_tick_def stuck_worker_def NewFileWorker_def calm_rules calm_def worker_rollback_def
        same_but_folders_def)
qed

lemma stuck_ticks:
  assumes "calm w" "\<not> errors_Is err (Ext Canceled)" "f_Alias (row_file r) = a"
    and "\<forall>t \<in> set ts. r \<in> set (batch (sys_env S) (w\<lparr>w_clock := t\<rparr>))"
  shows "w_table (ticks_at (stuck_worker S a err) ts w) = w_table w \<and> calm (ticks_at (stuck_worker S a err) ts w)"
  using assms(1,4)
proof (induction ts arbitrary: w)
  case (Cons t ts)
  let ?w = "w\<lparr>w_clock := t\<rparr>"
  from Cons.prems stuck_tick [of ?w r S a err] assms(2,3) obtain ds where
    "snd (FileWorker_tick (stuck_worker S a err) ?w) = ?w\<lparr>w_dirs := ds\<rparr>"
    by (auto simp: calm_def same_but_folders_def)
  with Cons.IH [of "?w\<lparr>w_dirs := ds\<rparr>"] Cons.prems show ?case by (simp add: calm_def batch_def)
qed simp

subsection \<open>A commit that fails\<close>

text \<open>The repository, where a commit ends in the error \<open>err\<close> and the server rolls back.\<close>

definition lost_commits :: "db_env \<Rightarrow> goerr \<Rightarrow> world file_repo" where
  "lost_commits E err = (NewFileRepo E)\<lparr>repo_Commit := \<lambda>t w. (Some err, snd (Tx_Rollback t w))\<rparr>"

lemma lost_commits_simps [simp]:
  "repo_GetFileByAlias (lost_commits E err) = repo_GetFileByAlias (NewFileRepo E)"
  "repo_BeginTx (lost_commits E err) = repo_BeginTx (NewFileRepo E)"
  "repo_Rollback (lost_commits E err) = repo_Rollback (NewFileRepo E)"
  "repo_DeleteFileTx (lost_commits E err) = repo_DeleteFileTx (NewFileRepo E)"
  "repo_DecrementDownloadsByAliasTx (lost_commits E err) = repo_DecrementDownloadsByAliasTx (NewFileRepo E)"
  "repo_Commit (lost_commits E err) t w = (Some err, snd (Tx_Rollback t w))"
  by (simp_all add: lost_commits_def)

text \<open>A row without its folder is never served.\<close>

lemma fileless_download:
  assumes "calm w" "folder_of p w a = None"
  shows "\<exists>e. fst (Service_DownloadFile (app_service E p cfg B) \<lparr>df_Alias = a, df_Password = pwd\<rparr> w) = Inl e"
proof -
  have "fst (st_Download (NewFileStorage p) a w) = Inl (Sentinel ErrFileNotFound)"
    using assms by (simp add: NewFileStorage_def FileStorage_Download_def folder_of_def os_ReadDir_def calm_def
        next_tick_calm Let_def)
  then obtain w1 where "st_Download (NewFileStorage p) a w = (Inl (Sentinel ErrFileNotFound), w1)"
    by (metis prod.collapse)
  with assms(1) show ?thesis
    by (simp add: Service_DownloadFile_def calm_rules calm_def Let_def split: option.split)
qed

lemma lost_last_download:
  assumes w: "calm w" and r: "find (live_row E (w_clock w) a) (w_table w) = Some r"
    and pw: "checkPassword B (row_file r) pwd = None"
    and d: "folder_of p w a = Some ((n, b) # rest)" and k: "f_DownloadsLeft (row_file r) = 1"
  shows "Service_DownloadFile (NewService (lost_commits E err) (NewFileStorage p) cfg B w_clock)
      \<lparr>df_Alias = a, df_Password = pwd\<rparr> w =
    (Inl (errorf ''services.files.Service.DownloadFile: failed to commit delete: '' err),
     w\<lparr>w_dirs := remove_under (Join p a) (w_dirs w)\<rparr>)"
proof -
  have k': "wrap16 (1 - 1) = 0" by (simp add: wrap16_id)
  have "find (live_row E (w_clock w) a) (set_rows E a 0 (w_table w)) =
      Some (r\<lparr>row_file := (row_file r)\<lparr>f_DownloadsLeft := 0\<rparr>\<rparr>)"
    using r by (simp add: find_live_set_rows)
  with w r pw d k k' show ?thesis
    by (simp add: calm_close removeAll_fresh Service_DownloadFile_def download_in_tx_def calm_rules calm_def Let_def NewService_def
        abandon_download_def Tx_Rollback_def next_tick_calm)
qed

end
