(* ===== verification/Claimed_Addresses.thy ===== *)
theory Claimed_Addresses
  imports Server
begin

text \<open>
  Guessing the admin secret.  From one address the limiter stops it; but \<open>middleware.RealIP\<close>, which
  \<open>internal/app/app.go\<close> uses in front of every route, takes the address of a request from a header
  that the client writes.  The middleware is not part of the repository: that it does so is the
  hypothesis \<open>takes_claims\<close>, which is what its documentation says.
\<close>

definition address_of :: "(request \<Rightarrow> string) \<Rightarrow> request \<Rightarrow> request" where
  "address_of claimed r = (if claimed r = [] then r else r\<lparr>rq_RemoteAddr := claimed r\<rparr>)"

definition takes_claims :: "('w handler \<Rightarrow> 'w handler) \<Rightarrow> (request \<Rightarrow> string) \<Rightarrow> bool" where
  "takes_claims realIP claimed \<longleftrightarrow> (\<forall>h r. realIP h r = h (address_of claimed r))"

definition caller :: "request \<Rightarrow> string" where
  "caller r = ExtractIP (rq_RemoteAddr r)"

text \<open>The secret that a request sends.\<close>

definition guess :: "request \<Rightarrow> string option" where
  "guess r = b64_decode (extractBearerToken (rq_Header r ''Authorization''))"

lemma guess_address [simp]: "guess (address_of claimed r) = guess r"
  by (simp add: guess_def address_of_def)

text \<open>Requests one after the other.\<close>

fun served_in_turn :: "'w handler \<Rightarrow> request list \<Rightarrow> 'w \<Rightarrow> (replies list \<times> 'w) run" where
  "served_in_turn h [] s = Returns ([], s)"
| "served_in_turn h (r # rs) s =
     bind_run (h r [] s) (\<lambda>(w, s1).
       bind_run (served_in_turn h rs s1) (\<lambda>(ws, s2). Returns (w # ws, s2)))"

subsection \<open>One guess\<close>

lemma admin_only_answer:
  assumes "admin_only D next = Built h" "caller r \<noteq> []"
    and a: "RateLimiter_Allow (dp_Admin D) (caller r) (sv_redis s) = (x, rd)"
  shows "x = Inr False \<Longrightarrow> h r w s = Returns (RenderError 429 ''too many requests. try again later'' w, s\<lparr>sv_redis := rd\<rparr>)"
    and "x \<noteq> Inr False \<Longrightarrow> guess r \<noteq> b64_decode (dp_secret D) \<Longrightarrow>
      h r w s = Returns (RenderError 401 ''unauthorized request'' w, s\<lparr>sv_redis := rd\<rparr>)"
    and "x \<noteq> Inr False \<Longrightarrow> guess r = b64_decode (dp_secret D) \<Longrightarrow> \<exists>rd'. h r w s = next r w (s\<lparr>sv_redis := rd'\<rparr>)"
proof -
  from assms(1) obtain key where key: "b64_decode (dp_secret D) = Some key" "key \<noteq> []"
    and h: "h = admin_handler key (\<lambda>ip. in_redis (RateLimiter_Allow (dp_Admin D) ip))
      (\<lambda>ip. in_redis (RateLimiter_Reset (dp_Admin D) ip)) next"
    by (auto simp: admin_only_def NewAdminAuth_Built)
  have empty: "b64_decode [] = Some []" by (simp add: b64_decode_def)
  note all = h admin_handler_def in_redis_def caller_def [symmetric] guess_def [symmetric] Let_def
  show "h r w s = Returns (RenderError 429 ''too many requests. try again later'' w, s\<lparr>sv_redis := rd\<rparr>)"
    if "x = Inr False" using that assms(2) a by (simp add: all)
  show "h r w s = Returns (RenderError 401 ''unauthorized request'' w, s\<lparr>sv_redis := rd\<rparr>)"
    if "x \<noteq> Inr False" "guess r \<noteq> b64_decode (dp_secret D)"
    using that assms(2) a key by (auto simp: all split: option.split)
  show "\<exists>rd'. h r w s = next r w (s\<lparr>sv_redis := rd'\<rparr>)"
    if "x \<noteq> Inr False" "guess r = b64_decode (dp_secret D)"
  proof -
    have "extractBearerToken (rq_Header r ''Authorization'') \<noteq> []"
      using that(2) key empty by (auto simp: guess_def)
    with that assms(2) a key show ?thesis by (auto simp: all split: prod.split)
  qed
qed

subsection \<open>A new address for every guess\<close>

lemma guesses_pass:
  assumes "takes_claims realIP claimed" "admin_only D next = Built h" "redis_ok (sv_redis s)"
    and "distinct (map (\<lambda>r. caller (address_of claimed r)) rs)"
    and "\<forall>r \<in> set rs. caller (address_of claimed r) \<noteq> [] \<and> guess r \<noteq> b64_decode (dp_secret D) \<and>
      hits_of (dp_Admin D) (sv_redis s) (caller (address_of claimed r)) < rp_MaxAttempts (dp_Admin D)"
  shows "\<exists>ws rd. served_in_turn (realIP h) rs s = Returns (ws, s\<lparr>sv_redis := rd\<rparr>) \<and>
    map sent_status ws = replicate (length rs) 401 \<and> redis_ok rd \<and>
    (\<forall>u. u \<notin> (\<lambda>r. caller (address_of claimed r)) ` set rs \<longrightarrow> hits_of (dp_Admin D) rd u \<le> hits_of (dp_Admin D) (sv_redis s) u)"
  using assms(3-5)
proof (induction rs arbitrary: s)
  case Nil
  then show ?case by (intro exI [of _ "[]"] exI [of _ "sv_redis s"]) simp
next
  case (Cons r rs)
  let ?P = "dp_Admin D" and ?u = "caller (address_of claimed r)"
  obtain x rd where a: "RateLimiter_Allow ?P ?u (sv_redis s) = (x, rd)"
    by (cases "RateLimiter_Allow ?P ?u (sv_redis s)")
  have ok: "redis_ok rd" using redis_limiter.allow_valid [OF Cons.prems(1) a] .
  have other: "hits_of ?P rd v \<le> hits_of ?P (sv_redis s) v" if "v \<noteq> ?u" for v
    using redis_limiter.allow_other [OF Cons.prems(1) a that] .
  have "x \<noteq> Inr False" using redis_limiter.allow_below [OF Cons.prems(1)] a Cons.prems(3) by auto
  with admin_only_answer(2) [OF assms(2) _ a] Cons.prems(3) have h: "realIP h r [] s =
      Returns (RenderError 401 ''unauthorized request'' [], s\<lparr>sv_redis := rd\<rparr>)"
    using assms(1) by (simp add: takes_claims_def)
  have "\<exists>ws rd'. served_in_turn (realIP h) rs (s\<lparr>sv_redis := rd\<rparr>) = Returns (ws, (s\<lparr>sv_redis := rd\<rparr>)\<lparr>sv_redis := rd'\<rparr>) \<and>
    map sent_status ws = replicate (length rs) 401 \<and> redis_ok rd' \<and>
    (\<forall>u. u \<notin> (\<lambda>r. caller (address_of claimed r)) ` set rs \<longrightarrow> hits_of ?P rd' u \<le> hits_of ?P (sv_redis (s\<lparr>sv_redis := rd\<rparr>)) u)"
  proof (rule Cons.IH)
    show "distinct (map (\<lambda>r. caller (address_of claimed r)) rs)" "redis_ok (sv_redis (s\<lparr>sv_redis := rd\<rparr>))"
      using ok Cons.prems(2) by simp_all
    show "\<forall>r \<in> set rs. caller (address_of claimed r) \<noteq> [] \<and> guess r \<noteq> b64_decode (dp_secret D) \<and>
        hits_of ?P (sv_redis (s\<lparr>sv_redis := rd\<rparr>)) (caller (address_of claimed r)) < rp_MaxAttempts ?P"
    proof
      fix q assume q: "q \<in> set rs"
      with Cons.prems(2) have "caller (address_of claimed q) \<noteq> ?u" by (auto simp: image_iff)
      with other [OF this] q Cons.prems(3) show "caller (address_of claimed q) \<noteq> [] \<and> guess q \<noteq> b64_decode (dp_secret D) \<and>
        hits_of ?P (sv_redis (s\<lparr>sv_redis := rd\<rparr>)) (caller (address_of claimed q)) < rp_MaxAttempts ?P"
        by fastforce
    qed
  qed
  then obtain ws rd' where w: "served_in_turn (realIP h) rs (s\<lparr>sv_redis := rd\<rparr>) = Returns (ws, s\<lparr>sv_redis := rd'\<rparr>)"
    "map sent_status ws = replicate (length rs) 401" "redis_ok rd'"
    "\<forall>u. u \<notin> (\<lambda>r. caller (address_of claimed r)) ` set rs \<longrightarrow> hits_of ?P rd' u \<le> hits_of ?P rd u" by auto
  from w(4) other have "\<forall>u. u \<notin> (\<lambda>r. caller (address_of claimed r)) ` set (r # rs) \<longrightarrow> hits_of ?P rd' u \<le> hits_of ?P (sv_redis s) u"
    by (auto intro: order.trans)
  with h w(1-3) show ?case by (auto simp: RenderError_def)
qed

lemma last_guess:
  assumes "takes_claims realIP claimed" "admin_only D next = Built h" "redis_ok rd"
    and "caller (address_of claimed r) \<noteq> []" "guess r = b64_decode (dp_secret D)"
    and "hits_of (dp_Admin D) rd (caller (address_of claimed r)) < rp_MaxAttempts (dp_Admin D)"
  shows "\<exists>rd'. realIP h r w (s\<lparr>sv_redis := rd\<rparr>) = next (address_of claimed r) w (s\<lparr>sv_redis := rd'\<rparr>)"
proof -
  obtain x rd1 where a: "RateLimiter_Allow (dp_Admin D) (caller (address_of claimed r)) rd = (x, rd1)"
    by (cases "RateLimiter_Allow (dp_Admin D) (caller (address_of claimed r)) rd")
  have "x \<noteq> Inr False" using redis_limiter.allow_below [OF assms(3)] a assms(6) by auto
  with admin_only_answer(3) [OF assms(2,4), of "s\<lparr>sv_redis := rd\<rparr>" x rd1 w] a assms(5) show ?thesis
    using assms(1) by (auto simp: takes_claims_def)
qed

subsection \<open>One address\<close>

text \<open>The counter of the caller stands at \<open>n\<close>, alive.\<close>

definition counted :: "rate_limiter_params \<Rightarrow> string \<Rightarrow> redis \<Rightarrow> nat \<Rightarrow> bool" where
  "counted params u rd n \<longleftrightarrow> rd_tape rd = [] \<and>
     (if n = 0 then rd_get rd (limiter_key params u) = None
      else \<exists>e. rd_get rd (limiter_key params u) = Some (int n, Some e))"

lemma Allow_clock:
  assumes "rd_tape rd = []" "RateLimiter_Allow params v rd = (x, rd')"
  shows "rd_clock rd' = rd_clock rd \<and> rd_tape rd' = rd_tape rd"
  using assms
  by (auto simp: RateLimiter_Allow_def rd_tick_def allowScript_def redis_INCR_def redis_EXPIRE_def Let_def
      split: option.split_asm prod.split_asm if_split_asm sum.split_asm)

lemma Allow_counted:
  assumes "counted params u rd n" "int n < 2 ^ 62" "0 < window_secs params" "0 < block_secs params"
  shows "\<exists>rd'. RateLimiter_Allow params u rd = (Inr (int n < rp_MaxAttempts params), rd') \<and> counted params u rd' (Suc n)"
proof -
  obtain e where g: "rd_get rd (limiter_key params u) = (if int n = 0 then None else Some (int n, Some e))"
    using assms(1) by (auto simp: counted_def split: if_splits)
  have tape: "rd_tape rd = []" using assms(1) by (simp add: counted_def)
  have "int n \<noteq> 2 ^ 63 - 1" using assms(2) by simp
  from Allow_calm [OF tape g this assms(3,4)] obtain rd' where
    a: "RateLimiter_Allow params u rd = (Inr (int n + 1 \<le> rp_MaxAttempts params), rd')"
    and k: "rd_keys rd' (limiter_key params u) = Some (int n + 1,
      Some (if int n + 1 > rp_MaxAttempts params then rd_clock rd + block_secs params * second
        else if int n = 0 then rd_clock rd + window_secs params * second else e))" by blast
  have "rd_clock rd' = rd_clock rd" "rd_tape rd' = []" using Allow_clock [OF tape a] tape by simp_all
  moreover have "n \<noteq> 0 \<Longrightarrow> rd_clock rd < e" using g rd_get_live by simp
  ultimately have "counted params u rd' (Suc n)" using k assms(3,4) by (auto simp: counted_def rd_get_def)
  with a show ?thesis by (auto simp: add1_zle_eq)
qed

lemma guesses_stop:
  assumes "admin_only D next = Built h" "counted (dp_Admin D) u (sv_redis s) n"
    and "0 < window_secs (dp_Admin D)" "0 < block_secs (dp_Admin D)" "int (n + length rs) < 2 ^ 62" "u \<noteq> []"
    and "\<forall>r \<in> set rs. caller r = u \<and> guess r \<noteq> b64_decode (dp_secret D)"
  shows "\<exists>ws rd. served_in_turn h rs s = Returns (ws, s\<lparr>sv_redis := rd\<rparr>) \<and> counted (dp_Admin D) u rd (n + length rs) \<and>
    map sent_status ws = map (\<lambda>i. if int (n + i) < rp_MaxAttempts (dp_Admin D) then 401 else 429) [0..<length rs]"
  using assms(2,5,7)
proof (induction rs arbitrary: s n)
  case Nil
  then show ?case by (intro exI [of _ "[]"] exI [of _ "sv_redis s"]) simp
next
  case (Cons r rs)
  from Allow_counted [OF Cons.prems(1) _ assms(3,4)] Cons.prems(2) obtain rd where
    a: "RateLimiter_Allow (dp_Admin D) u (sv_redis s) = (Inr (int n < rp_MaxAttempts (dp_Admin D)), rd)"
    and c: "counted (dp_Admin D) u rd (Suc n)" by auto
  have r: "caller r = u" "caller r \<noteq> []" "guess r \<noteq> b64_decode (dp_secret D)" using Cons.prems(3) assms(6) by auto
  define st where "st = (if int n < rp_MaxAttempts (dp_Admin D) then 401 else 429 :: int)"
  have "\<exists>w. h r [] s = Returns (w, s\<lparr>sv_redis := rd\<rparr>) \<and> sent_status w = st"
    using admin_only_answer(1,2) [OF assms(1) r(2), of s _ rd "[]"] a r by (auto simp: st_def RenderError_def)
  then obtain w where w: "h r [] s = Returns (w, s\<lparr>sv_redis := rd\<rparr>)" "sent_status w = st" by blast
  have "\<exists>ws rd'. served_in_turn h rs (s\<lparr>sv_redis := rd\<rparr>) = Returns (ws, (s\<lparr>sv_redis := rd\<rparr>)\<lparr>sv_redis := rd'\<rparr>) \<and>
      counted (dp_Admin D) u rd' (Suc n + length rs) \<and>
      map sent_status ws = map (\<lambda>i. if int (Suc n + i) < rp_MaxAttempts (dp_Admin D) then 401 else 429) [0..<length rs]"
    by (rule Cons.IH) (use c Cons.prems in auto)
  moreover have "[0..<length (r # rs)] = 0 # map Suc [0..<length rs]"
    by (simp add: upt_conv_Cons map_Suc_upt del: upt_Suc)
  ultimately show ?case using w by (auto simp: st_def comp_def simp del: upt_Suc)
qed

end
