(* ===== verification/Application.thy ===== *)
theory Application
  imports Server
begin

text \<open>
  \<open>cmd/expire-share/main.go\<close>, \<open>cmd/migrate/main.go\<close> and the parts of \<open>internal/app\<close>: building the
  application from its configuration, connecting to what it needs, serving, and shutting down.  The answers of the libraries are parameters; a run of
  \<open>main\<close> is the list of steps it took and how it ended.
\<close>

subsection \<open>internal/lib/log\<close>

datatype log_format = TextHandler | JSONHandler
datatype log_level = LevelDebug | LevelInfo

definition log_Load :: "string \<Rightarrow> (log_format \<times> log_level) result" where
  "log_Load environment =
     (if environment = EnvLocal then Inr (TextHandler, LevelDebug)
      else if environment = EnvDev then Inr (TextHandler, LevelInfo)
      else if environment = EnvProd then Inr (JSONHandler, LevelInfo)
      else Inl (NewErr (''unknown environment: '' @ environment)))"

definition log_MustLoad :: "string \<Rightarrow> (log_format \<times> log_level) boot" where
  "log_MustLoad env = (case log_Load env of Inl err \<Rightarrow> Exits 1 | Inr lg \<Rightarrow> Built lg)"

subsection \<open>internal/app/mysql, internal/app/redis\<close>

definition ErrNoChange :: goerr where "ErrNoChange = Ext (OtherErr ''no change'')"
definition ErrServerClosed :: goerr where "ErrServerClosed = Ext (OtherErr ''http: Server closed'')"

text \<open>\<open>openErr\<close> is the error of \<open>migrate.New\<close>, \<open>upErr\<close> that of \<open>mgr.Up()\<close>.\<close>

definition Migrate :: "goerr option \<Rightarrow> goerr option \<Rightarrow> goerr option" where
  "Migrate openErr upErr =
     (let fn = ''app.mysql.App.Migrate'' in
      case openErr of
        Some err \<Rightarrow> Some (errorf (fn @ '': failed to open migrations: '') err)
      | None \<Rightarrow>
          (case upErr of
             None \<Rightarrow> None
           | Some err \<Rightarrow> if errors_Is err ErrNoChange then None
                        else Some (errorf (fn @ '': failed to up migrations: '') err)))"

definition mysql_New :: "goerr option \<Rightarrow> unit result" where
  "mysql_New openErr =
     (case openErr of
        Some err \<Rightarrow> Inl (errorf ''app.mysql.App.New: failed to open db connection: '' err)
      | None \<Rightarrow> Inr ())"

definition mysql_Connect :: "goerr option \<Rightarrow> goerr option" where
  "mysql_Connect pingErr = map_option (errorf ''app.mysql.App.Connect: failed to ping db: '') pingErr"

definition mysql_Close :: "goerr option \<Rightarrow> goerr option" where
  "mysql_Close closeErr = map_option (errorf ''app.mysql.App.Close: failed to close db: '') closeErr"

text \<open>The options \<open>redis.NewClient\<close> is called with.\<close>

record redis_options =
  ro_Addr :: string
  ro_Password :: string
  ro_DB :: int
  ro_ReadTimeout :: duration
  ro_DialTimeout :: duration
  ro_MaxRetries :: int

definition redis_New :: "redis_cfg \<Rightarrow> redis_options" where
  "redis_New cfg = \<lparr>ro_Addr = rc_Addr cfg, ro_Password = rc_Password cfg, ro_DB = rc_DB cfg,
     ro_ReadTimeout = rc_Timeout cfg, ro_DialTimeout = rc_DialTimeout cfg, ro_MaxRetries = rc_MaxRetries cfg\<rparr>"

definition redis_Connect :: "goerr option \<Rightarrow> goerr option" where
  "redis_Connect pingErr = map_option (errorf ''app.redis.App.Connect: failed to ping redis db: '') pingErr"

definition redis_Close :: "goerr option \<Rightarrow> goerr option" where
  "redis_Close closeErr = map_option (errorf ''app.redis.App.Close: failed to close redis db: '') closeErr"

text \<open>\<open>MustConnect\<close>, \<open>MustMigrate\<close> and \<open>MustRun\<close> exit the process on an error.\<close>

definition must :: "goerr option \<Rightarrow> unit boot" where
  "must err = (case err of None \<Rightarrow> Built () | Some _ \<Rightarrow> Exits 1)"

definition MustMigrate :: "goerr option \<Rightarrow> goerr option \<Rightarrow> unit boot" where
  "MustMigrate openErr upErr = must (Migrate openErr upErr)"

definition redis_MustConnect :: "goerr option \<Rightarrow> unit boot" where
  "redis_MustConnect pingErr = must (redis_Connect pingErr)"

subsection \<open>internal/app/auth\<close>

datatype conn_state = Idle | Connecting | Ready | TransientFailure | Shutdown

text \<open>What the loop receives: the deadline of two seconds, or a tick and the state it reads.\<close>

datatype conn_event = Deadline | ConnTick conn_state

text \<open>\<open>None\<close>: the loop still waits.\<close>

fun tryToConnect :: "conn_event list \<Rightarrow> bool option" where
  "tryToConnect [] = None"
| "tryToConnect (Deadline # es) = Some False"
| "tryToConnect (ConnTick info # es) =
     (if info = Ready then Some True
      else if info = TransientFailure \<or> info = Shutdown then Some False
      else tryToConnect es)"

definition auth_Connect :: "goerr option \<Rightarrow> conn_event list \<Rightarrow> goerr option option" where
  "auth_Connect dialErr events =
     (let fn = ''app.auth.App.Connect'' in
      case dialErr of
        Some err \<Rightarrow> Some (Some (errorf (fn @ '': failed to dial grpc connection: '') err))
      | None \<Rightarrow> map_option (\<lambda>ok. if ok then None
                     else Some (NewErr (fn @ '': failed to connect to auth service''))) (tryToConnect events))"

text \<open>\<open>None\<close>: the attempt still waits.\<close>

definition auth_MustConnect :: "goerr option \<Rightarrow> conn_event list \<Rightarrow> unit boot option" where
  "auth_MustConnect dialErr events = map_option must (auth_Connect dialErr events)"

definition auth_Close :: "goerr option \<Rightarrow> goerr option" where
  "auth_Close closeErr = map_option (errorf ''failed to close grpc connection: '') closeErr"

subsection \<open>internal/app/http\<close>

record http_server =
  sr_Addr :: string
  sr_ReadTimeout :: duration
  sr_WriteTimeout :: duration
  sr_IdleTimeout :: duration

definition http_New :: "http_cfg \<Rightarrow> http_server" where
  "http_New cfg = \<lparr>sr_Addr = '':'' @ decInt (hs_Port cfg), sr_ReadTimeout = hs_ReadTimeout cfg,
     sr_WriteTimeout = hs_WriteTimeout cfg, sr_IdleTimeout = hs_IdleTimeout cfg\<rparr>"

definition http_Run :: "goerr option \<Rightarrow> goerr option" where
  "http_Run listenErr =
     (case listenErr of
        None \<Rightarrow> None
      | Some err \<Rightarrow> if errors_Is err ErrServerClosed then None
                   else Some (errorf ''internal server error: '' err))"

definition http_MustRun :: "goerr option \<Rightarrow> unit boot" where
  "http_MustRun listenErr = must (http_Run listenErr)"

definition http_Shutdown :: "goerr option \<Rightarrow> goerr option" where
  "http_Shutdown err = map_option (errorf ''failed to shutdown http server: '') err"

subsection \<open>main\<close>

text \<open>The answers of the libraries during one run of the program.\<close>

record externals =
  ex_migrateOpen :: "goerr option"
  ex_migrateUp :: "goerr option"
  ex_sqlOpen :: "goerr option"
  ex_dbPing :: "goerr option"
  ex_redisPing :: "goerr option"
  ex_grpcDial :: "goerr option"
  ex_grpcEvents :: "conn_event list"
  ex_listen :: "goerr option"

datatype phase =
    Migrated | DbConnected | RedisConnected | AuthConnected | HandlersMounted
  | Serving | WorkerStarted | Signalled | DbClosed | AuthClosed | RedisClosed | HttpStopped

text \<open>The phases in the order in which the program is meant to go through them.\<close>

fun phase_rank :: "phase \<Rightarrow> nat" where
  "phase_rank Migrated = 0" | "phase_rank DbConnected = 1" | "phase_rank RedisConnected = 2"
| "phase_rank AuthConnected = 3" | "phase_rank HandlersMounted = 4" | "phase_rank Serving = 5"
| "phase_rank WorkerStarted = 6" | "phase_rank Signalled = 7" | "phase_rank DbClosed = 8"
| "phase_rank AuthClosed = 9" | "phase_rank RedisClosed = 10" | "phase_rank HttpStopped = 11"

lemma phase_rank_inj: "phase_rank p = phase_rank q \<Longrightarrow> p = q"
  by (cases p; cases q) simp_all

instantiation phase :: linorder
begin

definition less_eq_phase :: "phase \<Rightarrow> phase \<Rightarrow> bool" where
  "less_eq_phase p q \<longleftrightarrow> phase_rank p \<le> phase_rank q"

definition less_phase :: "phase \<Rightarrow> phase \<Rightarrow> bool" where
  "less_phase p q \<longleftrightarrow> phase_rank p < phase_rank q"

instance
  by standard (auto simp: less_eq_phase_def less_phase_def phase_rank_inj)

end

datatype ending = Waiting | Ended | ExitedWith int | Panicked string

text \<open>\<open>next_phase\<close>: run a part of the start-up; when it is built, note the phase and go on.\<close>

definition next_phase :: "'b boot \<Rightarrow> phase \<Rightarrow> phase list \<times> ending \<Rightarrow> phase list \<times> ending" where
  "next_phase b ph rest =
     (case b of
        Exits n \<Rightarrow> ([], ExitedWith n)
      | Crashes m \<Rightarrow> ([], Panicked m)
      | Built _ \<Rightarrow> (case rest of (phs, e) \<Rightarrow> (ph # phs, e)))"

text \<open>
  The application: \<open>New\<close> drops the error of \<open>mysql.New\<close> and keeps the nil application
  (\<open>ap_MySql = None\<close>), which \<open>MustConnect\<close> then uses.  Nothing is connected yet.
\<close>

record app =
  ap_HTTP :: http_server
  ap_MySql :: "unit option"
  ap_Auth :: auth_cfg
  ap_Redis :: redis_options
  ap_config :: config

definition new_app :: "config \<Rightarrow> externals \<Rightarrow> app" where
  "new_app cfg ex =
     \<lparr>ap_HTTP = http_New (cf_HttpServer cfg),
      ap_MySql = (case mysql_New (ex_sqlOpen ex) of Inl err \<Rightarrow> None | Inr db \<Rightarrow> Some db),
      ap_Auth = cf_AuthService cfg, ap_Redis = redis_New (cf_Redis cfg), ap_config = cfg\<rparr>"

definition app_New :: "config \<Rightarrow> externals \<Rightarrow> app boot" where
  "app_New cfg ex =
     bind_boot (MustMigrate (ex_migrateOpen ex) (ex_migrateUp ex)) (\<lambda>_. Built (new_app cfg ex))"

definition mysql_MustConnect :: "unit option \<Rightarrow> goerr option \<Rightarrow> unit boot" where
  "mysql_MustConnect a pingErr =
     (case a of None \<Rightarrow> Crashes nil_panic | Some _ \<Rightarrow> must (mysql_Connect pingErr))"

text \<open>
  What the routes take from the configuration: the environment, the service settings, the folder of the storage and
  the limits of the three limiters.
\<close>

definition wired :: "config \<Rightarrow> 'a deployment \<Rightarrow> 'a deployment" where
  "wired cfg D = D\<lparr>dp_Env := cf_Env cfg, dp_sys := (dp_sys D)\<lparr>sys_path := sg_Path (cf_Storage cfg), sys_cfg := cf_Service cfg\<rparr>,
     dp_Admin := rl_Admin (cf_RateLimiter cfg), dp_Files := rl_Files (cf_RateLimiter cfg),
     dp_Register := rl_Register (cf_RateLimiter cfg)\<rparr>"

text \<open>After the signal everything is closed in this order; the errors are dropped.\<close>

definition shut_down :: "phase list" where
  "shut_down = [Signalled, DbClosed, AuthClosed, RedisClosed, HttpStopped]"

definition serve :: "externals \<Rightarrow> phase list \<times> ending" where
  "serve ex =
     (case http_MustRun (ex_listen ex) of
        Exits n \<Rightarrow> ([Serving], ExitedWith n)
      | Crashes m \<Rightarrow> ([Serving], Panicked m)
      | Built _ \<Rightarrow> ([Serving, WorkerStarted] @ shut_down, Ended))"

definition main_run :: "config result \<Rightarrow> externals \<Rightarrow> 'a deployment \<Rightarrow> phase list \<times> ending" where
  "main_run loaded ex D =
     (case bind_boot (MustLoad loaded) (\<lambda>cfg. bind_boot (log_MustLoad (cf_Env cfg)) (\<lambda>_. Built cfg)) of
        Exits n \<Rightarrow> ([], ExitedWith n)
      | Crashes m \<Rightarrow> ([], Panicked m)
      | Built cfg \<Rightarrow>
          next_phase (app_New cfg ex) Migrated
         (next_phase (mysql_MustConnect (ap_MySql (new_app cfg ex)) (ex_dbPing ex)) DbConnected
         (next_phase (redis_MustConnect (ex_redisPing ex)) RedisConnected
         (case auth_MustConnect (ex_grpcDial ex) (ex_grpcEvents ex) of
            None \<Rightarrow> ([], Waiting)
          | Some auth \<Rightarrow>
              next_phase auth AuthConnected
             (next_phase (MustMountHandlers (wired cfg D)) HandlersMounted (serve ex))))))"

subsection \<open>The middlewares of every route\<close>

text \<open>
  \<open>MustMountMiddlewares\<close>: the middlewares of the chi packages are parameters, the first one used is
  the outermost.  \<open>realIP\<close> puts the address that the client claims in a header into
  \<open>rq_RemoteAddr\<close>; \<open>recoverer\<close> answers 500 when the handler panics.
\<close>

record cors_options =
  co_AllowedOrigins :: "string list"
  co_AllowCredentials :: bool
  co_AllowedMethods :: "string list"
  co_AllowedHeaders :: "string list"
  co_ExposedHeaders :: "string list"
  co_MaxAge :: int

definition cors_Options :: "http_cfg \<Rightarrow> cors_options" where
  "cors_Options cfg = \<lparr>co_AllowedOrigins = AllowedOrigins (hs_CORS cfg),
     co_AllowCredentials = AllowedCredentials (hs_CORS cfg),
     co_AllowedMethods = [''GET'', ''POST'', ''PUT'', ''DELETE'', ''OPTIONS''],
     co_AllowedHeaders = [''Authorization'', ''Content-Type'', ''Accept'', ''X-Resource-Password'', ''X-Request-ID''],
     co_ExposedHeaders = [''Link'', ''Content-Disposition'', ''Content-Length''],
     co_MaxAge = MaxAge (hs_CORS cfg)\<rparr>"

record 'w chi_middlewares =
  mw_cors :: "cors_options \<Rightarrow> 'w handler \<Rightarrow> 'w handler"
  mw_RequestID :: "'w handler \<Rightarrow> 'w handler"
  mw_RealIP :: "'w handler \<Rightarrow> 'w handler"
  mw_Recoverer :: "'w handler \<Rightarrow> 'w handler"
  mw_URLFormat :: "'w handler \<Rightarrow> 'w handler"

definition MustMountMiddlewares ::
  "'w chi_middlewares \<Rightarrow> ('w handler \<Rightarrow> 'w handler) \<Rightarrow> http_cfg \<Rightarrow> 'w handler \<Rightarrow> 'w handler" where
  "MustMountMiddlewares chi logging cfg h =
     mw_cors chi (cors_Options cfg) (mw_RequestID chi (mw_RealIP chi (mw_Recoverer chi (mw_URLFormat chi (logging h)))))"

subsection \<open>cmd/migrate\<close>

text \<open>
  The second program: the migrations it ran and how it ended.  \<open>log.Fatal\<close> exits with status 1 and
  skips the deferred \<open>Close\<close>.
\<close>

datatype migration = Up | StepDown

record migrate_externals =
  mx_open :: "goerr option"
  mx_ping :: "goerr option"
  mx_init :: "goerr option"
  mx_run :: "migration \<Rightarrow> goerr option"
  mx_close :: "goerr option"

definition operations :: "string \<Rightarrow> migration option" where
  "operations = [''up'' \<mapsto> Up, ''down'' \<mapsto> StepDown]"

definition migrate_main :: "string list \<Rightarrow> config result \<Rightarrow> migrate_externals \<Rightarrow> migration list \<times> ending" where
  "migrate_main args loaded mx =
     (if length args < 2 then ([], ExitedWith 1)
      else (case MustLoad loaded of
        Exits n \<Rightarrow> ([], ExitedWith n)
      | Crashes m \<Rightarrow> ([], Panicked m)
      | Built cfg \<Rightarrow>
          (if mx_open mx \<noteq> None \<or> mx_ping mx \<noteq> None \<or> mx_init mx \<noteq> None then ([], ExitedWith 1)
           else (case operations (args ! 1) of
             None \<Rightarrow> ([], ExitedWith 1)
           | Some f \<Rightarrow>
               (case mx_run mx f of
                  Some err \<Rightarrow> if errors_Is err ErrNoChange then ([f], if mx_close mx = None then Ended else ExitedWith 1)
                             else ([f], ExitedWith 1)
                | None \<Rightarrow> ([f], if mx_close mx = None then Ended else ExitedWith 1))))))"

subsection \<open>Facts\<close>

lemma tryToConnect_decides:
  "Deadline \<in> set es \<Longrightarrow> tryToConnect es \<noteq> None"
  by (induction es rule: tryToConnect.induct) auto

lemma next_phase_in:
  "q \<in> set (fst (next_phase b ph rest)) \<Longrightarrow> (\<exists>x. b = Built x) \<and> (q = ph \<or> q \<in> set (fst rest))"
  by (cases b) (auto simp: next_phase_def split: prod.split_asm)

text \<open>A run takes its phases in their order and none of them twice.\<close>

lemma next_phase_sorted:
  assumes "sorted_wrt (<) (fst rest)" "\<forall>q \<in> set (fst rest). ph < q"
  shows "sorted_wrt (<) (fst (next_phase b ph rest)) \<and> (\<forall>q \<in> set (fst (next_phase b ph rest)). ph \<le> q)"
  using assms by (cases b) (auto simp: next_phase_def less_imp_le split: prod.split)

lemma next_phase_chain:
  assumes "sorted_wrt (<) (fst rest) \<and> (\<forall>q \<in> set (fst rest). p \<le> q)" "ph < p"
  shows "sorted_wrt (<) (fst (next_phase b ph rest)) \<and> (\<forall>q \<in> set (fst (next_phase b ph rest)). ph \<le> q)"
  by (rule next_phase_sorted) (use assms in force)+

lemma main_run_in_order: "sorted_wrt (<) (fst (main_run loaded ex D))"
proof -
  have serve: "sorted_wrt (<) (fst (serve ex)) \<and> (\<forall>q \<in> set (fst (serve ex)). Serving \<le> q)"
    by (auto simp: serve_def shut_down_def less_phase_def less_eq_phase_def split: boot.split)
  have lt: "HandlersMounted < Serving" "AuthConnected < HandlersMounted" "RedisConnected < AuthConnected"
    "DbConnected < RedisConnected" "Migrated < DbConnected" by (simp_all add: less_phase_def)
  have auth: "sorted_wrt (<) (fst a) \<and> (\<forall>q \<in> set (fst a). AuthConnected \<le> q)"
    if "a = (case auth_MustConnect (ex_grpcDial ex) (ex_grpcEvents ex) of None \<Rightarrow> ([], Waiting)
      | Some auth \<Rightarrow> next_phase auth AuthConnected (next_phase (MustMountHandlers (wired cfg D)) HandlersMounted (serve ex)))" for a cfg
  proof (cases "auth_MustConnect (ex_grpcDial ex) (ex_grpcEvents ex)")
    case (Some auth)
    show ?thesis unfolding that Some option.case by (rule next_phase_chain [OF next_phase_chain [OF serve lt(1)] lt(2)])
  qed (simp add: that)
  note all = next_phase_chain [OF next_phase_chain [OF next_phase_chain [OF auth [OF refl] lt(3)] lt(4)] lt(5)]
  show ?thesis
  proof (cases "bind_boot (MustLoad loaded) (\<lambda>cfg. bind_boot (log_MustLoad (cf_Env cfg)) (\<lambda>_. Built cfg))")
    case (Built cfg)
    show ?thesis unfolding main_run_def Built boot.case by (rule all [THEN conjunct1])
  qed (simp_all add: main_run_def)
qed

lemma must_Built: "must err = Built x \<longleftrightarrow> err = None"
  by (auto simp: must_def split: option.split)

lemmas must_defs = MustMigrate_def mysql_MustConnect_def redis_MustConnect_def auth_MustConnect_def http_MustRun_def

text \<open>The program serves only after every part is connected and the routes are built.\<close>

lemma serving_after_start:
  assumes "main_run loaded ex D = (phs, e)" "Serving \<in> set phs"
  shows "ex_sqlOpen ex = None \<and> ex_dbPing ex = None \<and> ex_redisPing ex = None \<and>
    ex_grpcDial ex = None \<and> tryToConnect (ex_grpcEvents ex) = Some True \<and>
    (\<exists>cfg rts. loaded = Inr cfg \<and> MustMountHandlers (wired cfg D) = Built rts)"
proof -
  from assms obtain cfg where cfg: "loaded = Inr cfg"
    by (auto simp: main_run_def MustLoad_def split: sum.split_asm boot.split_asm)
  let ?mount = "next_phase (MustMountHandlers (wired cfg D)) HandlersMounted (serve ex)"
  let ?auth = "case auth_MustConnect (ex_grpcDial ex) (ex_grpcEvents ex) of
      None \<Rightarrow> ([], Waiting) | Some auth \<Rightarrow> next_phase auth AuthConnected ?mount"
  let ?redis = "next_phase (redis_MustConnect (ex_redisPing ex)) RedisConnected ?auth"
  let ?db = "next_phase (mysql_MustConnect (ap_MySql (new_app cfg ex)) (ex_dbPing ex)) DbConnected ?redis"
  from assms cfg have "next_phase (app_New cfg ex) Migrated ?db = (phs, e)"
    by (cases "log_MustLoad (cf_Env cfg)") (auto simp: main_run_def MustLoad_def)
  with assms(2) have 0: "Serving \<in> set (fst (next_phase (app_New cfg ex) Migrated ?db))" by simp
  from next_phase_in [OF 0] have 1: "Serving \<in> set (fst ?db)" by auto
  from next_phase_in [OF 1] have 2: "\<exists>x. mysql_MustConnect (ap_MySql (new_app cfg ex)) (ex_dbPing ex) = Built x"
    "Serving \<in> set (fst ?redis)" by auto
  from next_phase_in [OF 2(2)] have 3: "redis_Connect (ex_redisPing ex) = None"
    "Serving \<in> set (fst ?auth)" by (auto simp: must_Built must_defs)
  then obtain auth where 4: "auth_MustConnect (ex_grpcDial ex) (ex_grpcEvents ex) = Some auth"
    and 5: "Serving \<in> set (fst (next_phase auth AuthConnected ?mount))"
    by (cases "auth_MustConnect (ex_grpcDial ex) (ex_grpcEvents ex)") auto
  from next_phase_in [OF 5] have 6: "\<exists>u. auth = Built u" "Serving \<in> set (fst ?mount)" by auto
  then have "auth_Connect (ex_grpcDial ex) (ex_grpcEvents ex) = Some None"
    using 4 by (auto simp: auth_MustConnect_def must_Built)
  moreover from next_phase_in [OF 6(2)] have "\<exists>rts. MustMountHandlers (wired cfg D) = Built rts" by auto
  ultimately show ?thesis
    using cfg 2(1) 3(1)
    by (auto simp: new_app_def mysql_MustConnect_def mysql_New_def mysql_Connect_def redis_Connect_def auth_Connect_def must_Built Let_def
        split: option.split_asm if_split_asm)
qed

text \<open>A migration runs at most once, for the two commands only, and a failed one is told by the status.\<close>

lemma migrate_main_runs:
  assumes "migrate_main args loaded mx = (ms, e)" "ms \<noteq> []"
  shows "\<exists>f. ms = [f] \<and> operations (args ! 1) = Some f \<and> (\<exists>cfg. loaded = Inr cfg) \<and>
    (e = Ended \<longleftrightarrow> (\<forall>err. mx_run mx f = Some err \<longrightarrow> errors_Is err ErrNoChange) \<and> mx_close mx = None)"
  using assms
  by (auto simp: migrate_main_def MustLoad_def split: if_split_asm sum.split_asm option.split_asm)

lemma prefix_in_step:
  assumes "e \<in> W" "r \<notin> W"
  shows "(\<exists>before after. e # es = before @ r # after \<and> set before \<subseteq> W) \<longleftrightarrow>
    (\<exists>before after. es = before @ r # after \<and> set before \<subseteq> W)"
proof
  assume "\<exists>before after. e # es = before @ r # after \<and> set before \<subseteq> W"
  then obtain before after where b: "e # es = before @ r # after" "set before \<subseteq> W" by blast
  with assms obtain b' where "before = e # b'" by (cases before) auto
  with b have "es = b' @ r # after \<and> set b' \<subseteq> W" by simp
  then show "\<exists>before after. es = before @ r # after \<and> set before \<subseteq> W" by blast
next
  assume "\<exists>before after. es = before @ r # after \<and> set before \<subseteq> W"
  then obtain before after where "es = before @ r # after" "set before \<subseteq> W" by blast
  with assms have "e # es = (e # before) @ r # after \<and> set (e # before) \<subseteq> W" by simp
  then show "\<exists>before after. e # es = before @ r # after \<and> set before \<subseteq> W" by blast
qed

text \<open>
  Waiting for the authentication service ends as soon as the deadline passes or the connection is
  decided: the loop still waits exactly while it has seen nothing but an idle or connecting
  connection, and it reports success exactly when the connection was ready before anything else
  decided it.
\<close>

theorem connection_attempt_is_decided:
  "(tryToConnect es = None \<longleftrightarrow> set es \<subseteq> {ConnTick Idle, ConnTick Connecting}) \<and>
   (tryToConnect es = Some True \<longleftrightarrow>
     (\<exists>before after. es = before @ ConnTick Ready # after \<and> set before \<subseteq> {ConnTick Idle, ConnTick Connecting}))"
proof (induction es rule: tryToConnect.induct)
  case 1
  then show ?case by simp
next
  case (2 es)
  then show ?case by (auto simp: Cons_eq_append_conv)
next
  case (3 info es)
  let ?W = "{ConnTick Idle, ConnTick Connecting}"
  show ?case
  proof (cases "info = Idle \<or> info = Connecting")
    case True
    then have "ConnTick info \<in> ?W" by auto
    with prefix_in_step [of "ConnTick info" ?W "ConnTick Ready" es] 3 True show ?thesis by auto
  next
    case False
    then show ?thesis by (cases info) (auto simp: Cons_eq_append_conv)
  qed
qed

end
