(* ===== verification/Demo.thy ===== *)
theory Demo
  imports Overlapping_Uploads Application Shelf
begin

text \<open>
  A small deployment for the concrete instances of the theorems: a database with one file of user 7,
  protected by a password and with two downloads left; and a server around it whose authentication
  service knows two tokens and is out of order for a third.
\<close>

subsection \<open>Database and storage\<close>

definition demo_env :: db_env where
  "demo_env = \<lparr>collate = (\<lambda>a. a), rank = (\<lambda>r. 0), sql_now = (\<lambda>t. t), ts_col = (\<lambda>t. t),
     ts_fits = (\<lambda>t. t < 2 ^ 62), text_fits = (\<lambda>b. \<forall>c \<in> set b. of_char c < (128 :: nat))\<rparr>"

definition demo_bcrypt :: bcrypt where
  "demo_bcrypt = \<lparr>bcrypt_Generate = (\<lambda>salt p. Inr (''$'' @ p)), bcrypt_Compare = (\<lambda>h p. h = ''$'' @ p)\<rparr>"

definition demo_cfg :: service_cfg where
  "demo_cfg = \<lparr>DefaultTtl = hour, DefaultMaxDownloads = 1, AliasLength = 2, FileWorkerDelay = minute,
     Permissions = \<lparr>MaxFilesSizeForUser = ''1kb'', MaxFilesSizeForVip = ''2kb'', MaxUploadedFiles = 3,
       MaxFilesSizeForUserInBytes = 1024, MaxFilesSizeForVipInBytes = 2048\<rparr>\<rparr>"

definition demo_file :: file_info where
  "demo_file = \<lparr>f_Name = ''a.txt'', f_Size = 5, f_Alias = ''abc'', f_DownloadsLeft = 2,
     f_PasswordHash = ''$pw'', f_LoadedAt = 0, f_ExpiresAt = 100, f_UserID = 7\<rparr>"

definition demo_world :: world where
  "demo_world = \<lparr>w_clock = 10, w_tape = [], w_table = [\<lparr>row_id = 1, row_file = demo_file\<rparr>],
     w_nextid = 2, w_txs = [], w_dirs = [Join ''files'' ''abc'' \<mapsto> [(''a.txt'', ''hello'')]], w_open = []\<rparr>"

definition demo_system :: system where
  "demo_system = \<lparr>sys_env = demo_env, sys_path = ''files'', sys_cfg = demo_cfg, sys_bcrypt = demo_bcrypt\<rparr>"

lemmas demo_defs = demo_env_def demo_bcrypt_def demo_cfg_def demo_file_def demo_world_def demo_system_def

lemma demo_facts:
  "calm demo_world"
  "find (live_row demo_env (w_clock demo_world) ''abc'') (w_table demo_world) =
     Some \<lparr>row_id = 1, row_file = demo_file\<rparr>"
  "checkPassword demo_bcrypt demo_file ''pw'' = None"
  "folder_of ''files'' demo_world ''abc'' = Some [(''a.txt'', ''hello'')]"
  "sys_inv demo_system demo_world"
  "unique_aliases (collate demo_env) (rows_of demo_world)"
  by (simp_all add: demo_defs calm_def live_row_def live_as_def same_alias_def checkPassword_def
      folder_of_def sys_inv_def unique_aliases_def counters_ok_def rows_of_def)

lemma demo_download:
  "Service_DownloadFile (sys_service demo_system) \<lparr>df_Alias = ''abc'', df_Password = ''pw''\<rparr> demo_world =
    (Inr \<lparr>dr_File = ''hello'', dr_Name = ''a.txt'', dr_Size = 5, dr_fd = 1\<rparr>,
     (downloaded demo_env ''files'' ''abc'' 1 demo_world)\<lparr>w_open := [1]\<rparr>)"
  using calm_download [OF demo_facts(1,2) _ demo_facts(4), of demo_bcrypt "''pw''" 2 demo_cfg] demo_facts(3)
  by (simp add: sys_service_def demo_system_def fresh_def demo_file_def) (simp add: demo_world_def)

definition demo_upload :: upload_file where
  "demo_upload = \<lparr>uf_File = ''data'', uf_Filesize = 4, uf_Filename = ''b.txt'', uf_MaxDownloads = 1,
     uf_Password = ''secret'', uf_TTL = 50, uf_User = \<lparr>ui_UserID = 8, ui_Roles = [RoleUser]\<rparr>\<rparr>"

lemma demo_upload_facts:
  "sql_stat_by_user (ui_UserID (uf_User demo_upload)) (w_clock demo_world) (w_table demo_world) = Inr (0, 0)"
  "checkUploadQuote demo_cfg \<lparr>fst_UserID = ui_UserID (uf_User demo_upload), fst_Count = 0, fst_Size = 0\<rparr>
     (uf_Filesize demo_upload) (ui_Roles (uf_User demo_upload)) = None"
  "Gen (\<lambda>_. 0) (AliasLength demo_cfg) = Some (Inr ''aa'')"
  "hash_password demo_bcrypt 0 (uf_Password demo_upload) = Inr ''$secret''"
  "bcrypt_sound demo_bcrypt" "valid_name (Base (uf_Filename demo_upload))"
  by (simp_all add: demo_defs demo_upload_def sql_stat_by_user_def int64_range_def checkUploadQuote_def wrap64_id
      Gen_zeros hash_password_def bcrypt_sound_def valid_name_def plain_name_def Base_def)

lemma demo_free: "free_alias demo_env ''files'' ''aa'' demo_world"
  using Join_inj [of "''aa''" "''abc''" "''files''"]
  by (simp add: free_alias_def demo_defs same_alias_def folder_of_def plain_name_def)

lemma demo_fits: "fits_columns demo_env demo_upload ''aa'' ''$secret'' demo_world"
  by (simp add: fits_columns_def demo_upload_def demo_defs)

text \<open>Random words whose two low groups of six bits are 1, the letter b.\<close>

lemma Gen_ones: "Gen (\<lambda>_. 65) 2 = Some (Inr ''bb'')"
proof -
  have idx: "gen_idx 65 = 1" "gen_idx 1 = 1" and shift: "drop_bit letterIdxBits (65 :: 64 word) = 1"
    by (simp_all add: gen_idx_def letterIdxMask_def letterIdxBits_def)
  have "letterBytes ! 1 = CHR ''b''" by (simp add: letterBytes_def)
  with idx shift show ?thesis
    by (simp add: Gen_def gen_refill_def gen_loop.simps [of "\<lambda>_. 65" 1] gen_loop.simps [of "\<lambda>_. 65" 0]
        gen_loop.simps [of "\<lambda>_. 65" "- 1"] numeral_2_eq_2)
qed

text \<open>Two uploads of one user, who may store one file.\<close>

definition demo_narrow :: service_cfg where
  "demo_narrow = demo_cfg\<lparr>Permissions := (Permissions demo_cfg)\<lparr>MaxUploadedFiles := 1\<rparr>\<rparr>"

definition demo_uploads :: "upload_call list" where
  "demo_uploads = [(\<lambda>_. 0, 0, demo_upload), (\<lambda>_. 65, 0, demo_upload)]"

lemma demo_storable: "list_all2 (storable demo_env ''files'' demo_narrow demo_bcrypt demo_world) demo_uploads [''aa'', ''bb'']"
  using demo_free Gen_zeros Gen_ones Join_inj [of "''bb''" "''abc''" "''files''"]
  by (simp add: demo_uploads_def storable_def demo_narrow_def demo_upload_def demo_defs free_alias_def same_alias_def
      folder_of_def hash_password_def valid_name_def plain_name_def Base_def fits_columns_def)

lemma demo_accepted:
  "Service_UploadFile (\<lambda>_. 0) 0 (app_service demo_env ''files'' demo_cfg demo_bcrypt) demo_upload demo_world
    = Returns (Inr ''aa'', uploaded demo_env ''files'' demo_upload ''aa'' ''$secret'' demo_world)"
  using demo_facts(1) demo_upload_facts(1-4) demo_free demo_upload_facts(6) demo_fits by (rule calm_upload)

lemma demo_shelf: "shelf_ok demo_env ''files'' demo_world"
proof -
  have "a = ''abc''" if "plain_name a" "folder_of ''files'' demo_world a \<noteq> None" for a
    using that Join_inj [of a "''abc''" "''files''"]
    by (auto simp: folder_of_def demo_world_def plain_name_def split: if_splits)
  then show ?thesis
    using demo_facts(4) by (auto simp: shelf_ok_def demo_defs rows_of_def unique_aliases_def counters_ok_def plain_name_def)
qed

lemma demo_plain: "plain_name ''abc''"
  by (simp add: plain_name_def)

lemma demo_service: "sys_service demo_system = app_service demo_env ''files'' demo_cfg demo_bcrypt"
  by (simp add: sys_service_def demo_system_def)

subsection \<open>The server\<close>

definition demo_validate :: "string \<Rightarrow> unit \<Rightarrow> pb_validate result \<times> unit" where
  "demo_validate token a =
     ((if token = ''tok'' then Inr \<lparr>pb_Status = TS_OTHER 0, pb_VUserId = 7, pb_VRoles = [RoleUser], pb_ExpiresAt = 90\<rparr>
       else if token = ''tok8'' then Inr \<lparr>pb_Status = TS_OTHER 0, pb_VUserId = 8, pb_VRoles = [RoleUser], pb_ExpiresAt = 90\<rparr>
       else if token = ''down'' then Inl (Ext (GrpcStatus (OtherCode 14) ''unavailable''))
       else Inr \<lparr>pb_Status = TS_INVALID, pb_VUserId = 0, pb_VRoles = [], pb_ExpiresAt = 0\<rparr>), a)"

definition demo_auth :: "unit auth_stub" where
  "demo_auth = \<lparr>stub_Login = (\<lambda>l p a. (Inl (Ext (GrpcStatus CodeUnauthenticated [])), a)),
     stub_Register = (\<lambda>l e p a. (Inr 9, a)),
     stub_Refresh = (\<lambda>t a. (Inl (Ext (GrpcStatus CodeUnauthenticated [])), a)),
     stub_Logout = (\<lambda>r t a. (None, a)), stub_ValidateToken = demo_validate\<rparr>"

definition demo_users :: "unit user_stub" where
  "demo_users = \<lparr>stub_GetUser = (\<lambda>i a. (Inl (Ext (GrpcStatus CodeNotFound [])), a)),
     stub_GetUsers = (\<lambda>r p l a. (Inr \<lparr>pb_Total = 0, pb_Users = []\<rparr>, a)),
     stub_AssignRole = (\<lambda>i r a. (None, a)), stub_RevokeRole = (\<lambda>i r a. (None, a))\<rparr>"

definition demo_limit :: "string \<Rightarrow> int \<Rightarrow> rate_limiter_params" where
  "demo_limit field mx = \<lparr>rp_Field = field, rp_MaxAttempts = mx, rp_Window = 60 * second, rp_BlockDuration = 60 * second\<rparr>"

definition demo_server :: "unit server" where
  "demo_server = \<lparr>sv_world = demo_world,
     sv_redis = \<lparr>rd_clock = 0, rd_tape = [], rd_keys = Map.empty\<rparr>, sv_auth = ()\<rparr>"

text \<open>The admin secret of this deployment is the text key.\<close>

definition demo_deployment :: "unit deployment" where
  "demo_deployment = \<lparr>dp_Env = ''local'', dp_sys = demo_system, dp_Admin = demo_limit ''admin'' 3, dp_Files = demo_limit ''files'' 3,
     dp_Register = demo_limit ''register'' 3, dp_secret = ''a2V5'', dp_authStub = demo_auth,
     dp_userStub = demo_users, dp_decode = (\<lambda>T b. None), dp_validate = (\<lambda>p. []), dp_mime = (\<lambda>e. []),
     dp_copy = (\<lambda>b s. ((length b, None), 1)), dp_rnd = (\<lambda>s n. 0), dp_salt = (\<lambda>s. 0),
     dp_ServeFile = (\<lambda>p r w. Returns (w @ [Copied p])), dp_Swagger = (\<lambda>p r w. Returns (w @ [Copied p]))\<rparr>"

definition demo_request :: "string \<Rightarrow> string \<Rightarrow> request" where
  "demo_request method token =
     \<lparr>rq_Method = method, rq_RemoteAddr = ''10.0.0.1:99'',
      rq_Header = (\<lambda>h. if h = ''Authorization'' then ''Bearer '' @ token
                       else if h = ''X-Resource-Password'' then ''pw'' else []),
      rq_Query = (\<lambda>q. []), rq_URLParam = (\<lambda>n. if n = ''alias'' then ''abc'' else []),
      rq_ContentLength = 0, rq_Body = [], rq_ParseForm = (\<lambda>n. True),
      rq_FormValue = (\<lambda>n. if n = ''password'' then ''secret'' else []),
      rq_FormFile = (\<lambda>n. Some (''b.txt'', ''data'')),
      ctx_UserID = None, ctx_Roles = None, ctx_Payload = None\<rparr>"

lemmas demo_server_defs = demo_validate_def demo_auth_def demo_users_def demo_limit_def demo_server_def
  demo_deployment_def demo_request_def

lemma demo_cfg_ok: "cfg_ok (srv_cfg demo_deployment)"
  by (simp add: cfg_ok_def srv_cfg_def demo_deployment_def demo_system_def demo_cfg_def int64_range_def)

lemmas bearer_eval = extractBearerToken_def SplitN2_def ToLower_def lowerChar_def TrimSpace_def isSpace_def
  code_def Let_def

lemma char_b: "char_of (98 :: nat) = CHR ''b''"
  by (simp add: char_of_def bit_numeral_rec bit_0)

lemma demo_bearer:
  "extractBearerToken ''Bearer tok'' = ''tok''" "extractBearerToken ''Bearer tok8'' = ''tok8''" "extractBearerToken ''Bearer down'' = ''down''"
  "extractBearerToken ''Bearer a2V5'' = ''a2V5''" "extractBearerToken ''Bearer bad='' = ''bad=''"
  by (simp_all add: bearer_eval char_b)

lemma demo_secret: "b64_decode ''a2V5'' = Some ''key''" "b64_decode ''bad='' \<noteq> Some ''key''"
  by (simp_all add: b64_decode_def b64_bits_def b64_val_def code_def char_of_def bit_0)

lemma demo_ip: "ExtractIP ''10.0.0.1:99'' = ''10.0.0.1''"
  by (simp add: ExtractIP_def SplitHostPort_def)

lemma demo_routes: "\<exists>rts. MustMountHandlers demo_deployment = Built rts"
  by (simp add: MustMountHandlers_def admin_handlers_def admin_only_def NewAdminAuth_cases demo_secret(1) demo_deployment_def)

subsection \<open>Its start\<close>

definition demo_config :: config where
  "demo_config = \<lparr>cf_Env = ''local'', cf_DbHost = ''db'', cf_DbPassword = ''pw'', cf_DbConnectionString = [],
     cf_Storage = \<lparr>sg_Type = ''local'', sg_Path = ''files''\<rparr>,
     cf_HttpServer = \<lparr>hs_Port = 8080, hs_WriteTimeout = minute, hs_ReadTimeout = minute, hs_IdleTimeout = minute,
       hs_CORS = \<lparr>AllowedOrigins = [], AllowedOriginsEnv = [], AllowedCredentials = False, MaxAge = 1\<rparr>\<rparr>,
     cf_Service = demo_cfg,
     cf_RateLimiter = \<lparr>rl_Admin = demo_limit ''admin'' 3, rl_Files = demo_limit ''files'' 3, rl_Register = demo_limit ''register'' 3\<rparr>,
     cf_AuthService = \<lparr>au_Addr = ''auth''\<rparr>,
     cf_Redis = \<lparr>rc_Addr = ''redis'', rc_Password = [], rc_DB = 0, rc_DialTimeout = second, rc_Timeout = second, rc_MaxRetries = 1\<rparr>\<rparr>"

definition demo_externals :: externals where
  "demo_externals = \<lparr>ex_migrateOpen = None, ex_migrateUp = Some ErrNoChange, ex_sqlOpen = None, ex_dbPing = None,
     ex_redisPing = None, ex_grpcDial = None, ex_grpcEvents = [ConnTick Connecting, ConnTick Ready], ex_listen = None\<rparr>"

lemma demo_wired: "wired demo_config demo_deployment = demo_deployment"
  by (simp add: wired_def demo_config_def demo_deployment_def demo_system_def)

end
