(* ===== verification/Spec2Isabelle.thy ===== *)
theory Spec2Isabelle
  imports Interleaving Overlapping_Uploads Shelf_Runs Validation Over_Http Failing_Calls Claimed_Addresses Demo
begin

text \<open>
  A development for ExpireShare, a file sharing service: files are uploaded with a time to live, a
  number of downloads and perhaps a password, and disappear after the last download or when they
  expire.  The definitions follow the Go code under \<open>src/\<close>; the names of functions and types are
  those of the code where the library leaves them free.

  The parts and how they interact.  A request passes the middlewares of its route (limiter, deadlines,
  token check or admin secret, body parser, validator) and reaches a handler; the handler calls the
  file service or a client of the authentication service; the file service works on two interfaces, a
  repository (MySQL) and a storage (a folder per alias); a worker removes what has expired.

  Ground.  \<open>Prelude\<close>: wrap-around of int16, int32 and int64, durations, shared list lemmas.
  \<open>Go_Errors\<close>: error chains with \<open>errors.Is\<close>, results as sums, calls that panic or do not
  end (\<open>run\<close>), start-up code that may exit (\<open>boot\<close>).  \<open>Go_Strings\<close>, \<open>Go_Paths\<close>,
  \<open>Go_Time\<close>: what the code uses of \<open>strings\<close>, \<open>strconv\<close>, \<open>path/filepath\<close>,
  \<open>net\<close> and \<open>time\<close>; strings are byte strings, case and digit tests are those of ASCII.
  \<open>Entities\<close>: \<open>internal/domain/entities\<close> and \<open>dto\<close>.

  Libraries of the program.  \<open>Alias_Gen\<close>: \<open>internal/lib/alias\<close>, with the random words as a
  parameter.  \<open>Sizes\<close>: \<open>internal/lib/sizes\<close>.  \<open>Config\<close>: \<open>internal/config\<close>.

  Files.  \<open>Interfaces\<close>: the two interfaces of \<open>internal/domain/interfaces\<close> as records of
  operations, and their contracts as the locales \<open>repo_contract\<close> and \<open>storage_contract\<close>.
  \<open>World\<close>: the state below them - clock, table, copies of the open transactions, folders, open
  files - and the tape of what the environment does at each external call: time that passes, an error,
  and whether the call took effect all the same.  \<open>Local_Storage\<close>
  (\<open>internal/infrastructure/storage/local\<close>) and \<open>Mysql_Repo\<close>
  (\<open>internal/infrastructure/mysql\<close>, the SQL statements as functions on rows) interpret the
  contracts.  \<open>File_Service\<close> (\<open>internal/services/files\<close>) and \<open>File_Worker\<close>
  (\<open>internal/services/worker\<close>) are stated over the interfaces; \<open>File_Vault\<close> proves in the
  locale \<open>vault\<close> what each operation guarantees under the contracts, on every branch, and
  \<open>Deployment\<close> interprets it on the program.  \<open>System\<close>: runs of operations, worker ticks and
  changes of the environment as a step relation, the invariant and the count of served downloads.
  \<open>Calm_World\<close>: closed forms of the operations when no call fails.  \<open>Shelf\<close>: the abstract
  specification, a map from aliases to entries, and the simulation of each operation;
  \<open>Shelf_Runs\<close>: the simulation of whole runs, worker and passing time included.
  \<open>Concurrent_Downloads\<close>: the two statements of the counter as steps of two interleaved
  transactions.  \<open>Interleaving\<close>: downloads and deletions of one alias and ticks of the worker cut
  into their calls, any number of them in any order, with row lock, waiting and failing calls.
  \<open>Overlapping_Uploads\<close>: uploads cut between the check of the quota and the transaction.
  \<open>Failing_Calls\<close>: a storage whose folder cannot be removed and a repository whose commits are lost.

  Delivery.  \<open>Rate_Limiter\<close>: \<open>internal/infrastructure/redis\<close> over a Redis of counters with
  expiry times, interpreting the locale \<open>limiter\<close>.  \<open>Http\<close>: requests, responses and
  \<open>internal/delivery/util\<close>.  \<open>Middlewares\<close>, \<open>Handlers\<close>: the packages of these names.
  \<open>Grpc_Clients\<close>: \<open>internal/infrastructure/grpc\<close>, the generated stubs as parameters.
  \<open>Handler_Frames\<close>: the locale \<open>step_rel\<close>: a relation that the calls respect is respected by
  handlers and middlewares.  \<open>Routes\<close>: the routes of \<open>internal/app/app.go\<close>.  \<open>Validation\<close>: the
  \<open>validate\<close> tags of the request bodies and what passes them.  \<open>Server\<close>
  interprets \<open>step_rel\<close> with the runs of \<open>System\<close>.  \<open>Over_Http\<close>: the download and the upload
  route from the client's side.  \<open>Claimed_Addresses\<close>: guessing the admin secret from one address and from
  many.  \<open>Application\<close>: \<open>cmd/expire-share\<close>, \<open>cmd/migrate\<close> and the
  rest of \<open>internal/app\<close>: the construction of the application and its phases in a run.
  \<open>Demo\<close>: the concrete data of the instances below.

  What the theorems show.  How often a file is served when operations follow each other (C1, C2) and
  when their calls interleave (C3 to C7), to whom, and what is left when something fails (C8 to C10);
  that runs and operations implement the shelf (C11, C12); that requests on all routes are runs of
  the operations, and what a caller can see and change (C13 to C19); how the admin secret can be guessed
  (C20, C21); quotas, owners, the worker, pages (C22 to C28); limits, outages, odd arguments (C29 to
  C33); what one failing call does while everything else works (C34, C35); error tables, aliases, sizes,
  start-up (C36 to C40).  The properties of one component stand in its theory.

  Bounds.  Counters are int16, sizes and page offsets int64, and wrap; the columns refuse what they
  cannot hold (\<open>column_error\<close>, \<open>fits_columns\<close>); \<open>id\<close> columns and \<open>COUNT(*)\<close> are unbounded.  The
  loop of the alias generator is a partial function, with a theorem that it ends; no other definition
  needs fuel: the loops of worker and connection run over the list of the events they receive.

  Assumed of what is not in the repository, as parameters: collation, clock, character set, and
  rounding and range of timestamps of the database (\<open>db_env\<close>), bcrypt (only \<open>bcrypt_sound\<close> is ever
  asked of it), the gRPC stubs, JSON decoding and validation (C18 asks that the validator goes by the
  tags, \<open>goes_by_tags\<close>), the logarithm in floating point (\<open>log2_exact\<close>), MIME tables, the chi
  middlewares (C21 asks that \<open>RealIP\<close> does what its documentation says), the reading of the configuration.  In \<open>World\<close> a transaction reads the table as it was at its begin and replaces it on
  commit, and each operation runs to its end before the next begins.  \<open>Interleaving\<close> drops that for
  the downloads and deletions of one alias and for the worker: there the row is what the locks of
  InnoDB let a statement see, and C7 ties the two models together.  Uploads are interleaved at the
  start of their transaction only (C23).

  Not modelled: matching requests to routes and rendering JSON (chi), the log calls beside the entries of
  the request logger and the one that panics (\<open>sl_Error\<close>), the handlers that serve the pages of the
  documentation (parameters of \<open>swagger_routes\<close>), what the constructors of the libraries do with their options,
  generated documentation (\<open>docs\<close>) and mocks.
\<close>

section \<open>Downloads\<close>

text \<open>
  C1: A file that allows k downloads is served exactly k times: of m requests one after the other
  with the right password, when no call fails and the file has not expired, the first k return the
  stored name and bytes and every later one is answered "file does not exist".
\<close>

theorem exactly_as_often_as_allowed:
  assumes "calm w" "find (live_row E (w_clock w) a) (w_table w) = Some r"
    and "checkPassword B (row_file r) pwd = None"
    and "folder_of p w a = Some ((n, b) # rest)"
    and "f_DownloadsLeft (row_file r) = int (Suc k)" "int (Suc k) < 2 ^ 15"
  shows "fetch_times (app_service E p cfg B) \<lparr>df_Alias = a, df_Password = pwd\<rparr> m w =
    replicate (min m (Suc k))
      (Inr \<lparr>dr_File = b, dr_Name = n, dr_Size = int (length b), dr_fd = fresh (w_open w)\<rparr>) @
    replicate (m - Suc k) (Inl (Sentinel ErrFileNotFound))"
  using assms by (rule fetch_times_calm)

theorem exactly_as_often_as_allowed_witness:
  "map (\<lambda>r. case r of Inr d \<Rightarrow> dr_File d | Inl e \<Rightarrow> ''error'')
     (fetch_times (app_service demo_env ''files'' demo_cfg demo_bcrypt)
        \<lparr>df_Alias = ''abc'', df_Password = ''pw''\<rparr> 3 demo_world) = [''hello'', ''hello'', ''error'']"
proof -
  have "f_DownloadsLeft demo_file = int (Suc 1)" by (simp add: demo_file_def)
  with demo_facts exactly_as_often_as_allowed [of demo_world demo_env "''abc''"
      "\<lparr>row_id = 1, row_file = demo_file\<rparr>" demo_bcrypt "''pw''" "''files''" "''a.txt''" "''hello''" "[]" 1 demo_cfg 3]
  show ?thesis by (simp add: numeral_3_eq_3 replicate_app_Cons_same)
qed

text \<open>
  C2: However the environment behaves, and whatever other requests and worker ticks run in between,
  each to its end, a file is served at most as often as its counter allows: in a run in which no
  upload draws the alias again, the successful downloads of an alias number at most the downloads
  left at its start.
\<close>

theorem never_more_than_allowed:
  assumes "sys_run S w tr w'" "sys_inv S w" "list_all (upload_ok \<circ> fst) tr"
    and "list_all (\<lambda>x. \<not> may_create (sys_env S) a (fst x)) tr"
  shows "int (length (filter (served (sys_env S) a) tr)) \<le> left_for (sys_env S) a (rows_of w)"
proof -
  have "counters_ok (rows_of w')" using sys_run_inv [OF assms(1-3)] by (simp add: sys_inv_def)
  with sys_run_left [OF assms] left_for_nonneg [of "rows_of w'" "sys_env S" a] show ?thesis by linarith
qed

theorem never_more_than_allowed_witness:
  "\<exists>d w'. sys_run demo_system demo_world
     [(EvDownload \<lparr>df_Alias = ''abc'', df_Password = ''pw''\<rparr>, ReDownload (Inr d))] w' \<and>
   length (filter (served (sys_env demo_system) ''abc'')
     [(EvDownload \<lparr>df_Alias = ''abc'', df_Password = ''pw''\<rparr>, ReDownload (Inr d))]) = 1 \<and>
   1 \<le> left_for (sys_env demo_system) ''abc'' (rows_of demo_world)"
proof -
  let ?c = "\<lparr>df_Alias = ''abc'', df_Password = ''pw''\<rparr>"
  let ?d = "\<lparr>dr_File = ''hello'', dr_Name = ''a.txt'', dr_Size = 5, dr_fd = 1\<rparr>"
  let ?tr = "[(EvDownload ?c, ReDownload (Inr ?d))]"
  let ?w = "(downloaded demo_env ''files'' ''abc'' 1 demo_world)\<lparr>w_open := [1]\<rparr>"
  have run: "sys_run demo_system demo_world ?tr ?w"
    by (rule sys_run.cons [OF sys_step.download [OF demo_download] sys_run.nil])
  have "int (length (filter (served (sys_env demo_system) ''abc'') ?tr)) \<le>
      left_for (sys_env demo_system) ''abc'' (rows_of demo_world)"
    by (rule never_more_than_allowed [OF run demo_facts(5)]) (simp_all add: upload_ok_def may_create_def)
  with run show ?thesis by (intro exI conjI) (auto simp: served_def)
qed

text \<open>
  C8: The state stays well formed along every run: no two rows share an alias (under the database's
  comparison), every download counter is at least 1 and fits the int16 column, and no transaction
  is left open.
\<close>

theorem runs_keep_the_invariant:
  assumes "sys_run S w tr w'" "sys_inv S w" "list_all (upload_ok \<circ> fst) tr"
  shows "sys_inv S w'"
  using assms by (rule sys_run_inv)

theorem runs_keep_the_invariant_witness:
  "sys_inv demo_system ((downloaded demo_env ''files'' ''abc'' 1 demo_world)\<lparr>w_open := [1]\<rparr>)"
  by (rule runs_keep_the_invariant [OF sys_run.cons [OF sys_step.download [OF demo_download] sys_run.nil]
        demo_facts(5)]) (simp add: upload_ok_def)



text \<open>
  C10: Whatever fails, a download that returns an error leaves no transaction behind and at most one
  open file; every folder but that of its alias is untouched, and the table is either unchanged or
  counts exactly one download of a row that was live (a commit whose outcome was lost).
\<close>

theorem failed_download_settles:
  assumes "Service_DownloadFile (app_service E p cfg B) c w = (Inl e, w')"
    and "unique_aliases (collate E) (rows_of w)"
  shows "view_of w' = view_of w \<and> (\<exists>fds. w_open w' = fds @ w_open w \<and> length fds \<le> 1) \<and>
    (plain_name (df_Alias c) \<longrightarrow>
       (\<forall>b. plain_name b \<longrightarrow> b \<noteq> df_Alias c \<longrightarrow> folder_of p w' b = folder_of p w b)) \<and>
    (rows_of w' = rows_of w \<or>
     (\<exists>g \<in> set (rows_of w). same_alias (collate E) (df_Alias c) g \<and> f_DownloadsLeft g \<noteq> 0 \<and>
        rows_of w' = after_download (collate E) (df_Alias c) (wrap16 (f_DownloadsLeft g - 1)) (rows_of w)))"
  using app.download_err [OF assms]
  unfolding app.settled_def app.took_one_def apart_def by (fastforce dest: live_same)

theorem failed_download_settles_witness:
  "\<exists>e w'. Service_DownloadFile (app_service demo_env ''files'' demo_cfg demo_bcrypt)
       \<lparr>df_Alias = ''zzz'', df_Password = []\<rparr> demo_world = (Inl e, w') \<and> view_of w' = view_of demo_world"
proof -
  have "Service_DownloadFile (app_service demo_env ''files'' demo_cfg demo_bcrypt)
       \<lparr>df_Alias = ''zzz'', df_Password = []\<rparr> demo_world = (Inl (Sentinel ErrFileNotFound), demo_world)"
    by (rule calm_download_missing) (simp_all add: demo_defs calm_def live_row_def live_as_def same_alias_def)
  from this failed_download_settles [OF this demo_facts(6)] show ?thesis by blast
qed

section \<open>Uploads\<close>

text \<open>
  What is uploaded can be downloaded: when no call fails, an accepted upload returns an alias
  under which, until the file expires, a download with the same password returns the same bytes,
  the base name of the uploaded file and the size of the bytes.
\<close>

theorem upload_then_download:
  assumes "calm w" "sql_stat_by_user (ui_UserID (uf_User c)) (w_clock w) (w_table w) = Inr (n, z)"
    and "checkUploadQuote cfg \<lparr>fst_UserID = ui_UserID (uf_User c), fst_Count = n, fst_Size = z\<rparr>
      (uf_Filesize c) (ui_Roles (uf_User c)) = None"
    and "Gen rnd (AliasLength cfg) = Some (Inr a)" "hash_password B salt (uf_Password c) = Inr h"
    and "bcrypt_sound B" "free_alias E p a w" "valid_name (Base (uf_Filename c))"
    and "1 \<le> uf_MaxDownloads c" "uf_MaxDownloads c < 2 ^ 15"
    and "ts_col E (w_clock w + uf_TTL c) > sql_now E (w_clock w + int dt)" "fits_columns E c a h w"
  shows "\<exists>w1. Service_UploadFile rnd salt (app_service E p cfg B) c w = Returns (Inr a, w1) \<and>
    (\<exists>r w2. Service_DownloadFile (app_service E p cfg B) \<lparr>df_Alias = a, df_Password = uf_Password c\<rparr>
        (w1\<lparr>w_clock := w_clock w1 + int dt\<rparr>) = (Inr r, w2) \<and>
      dr_File r = uf_File c \<and> dr_Name r = Base (uf_Filename c) \<and> dr_Size r = int (length (uf_File c)))"
proof -
  let ?w1 = "uploaded E p c a h w"
  let ?w2 = "?w1\<lparr>w_clock := w_clock ?w1 + int dt\<rparr>"
  have up: "Service_UploadFile rnd salt (app_service E p cfg B) c w = Returns (Inr a, ?w1)"
    using assms(1-5,7,8,12) by (rule calm_upload)
  have row: "find (live_row E (w_clock ?w2) a) (w_table ?w2) = Some (new_row E c a h w)"
    using find_new_row [OF _ assms(11), of "w_table w" a h] assms(7) by (simp add: uploaded_def free_alias_def)
  have pw: "checkPassword B (row_file (new_row E c a h w)) (uf_Password c) = None"
    using assms(5,6) by (rule checkPassword_hashed) (simp add: new_row_def)
  have "calm ?w2" "folder_of p ?w2 a = Some ((Base (uf_Filename c), uf_File c) # [])"
    "f_DownloadsLeft (row_file (new_row E c a h w)) = uf_MaxDownloads c"
    using assms(1) by (simp_all add: calm_def uploaded_def folder_of_def new_row_def)
  from up calm_download [OF this(1) row pw this(2,3) assms(9,10), of cfg] show ?thesis by simp
qed

theorem upload_then_download_witness:
  "\<exists>w1. Service_UploadFile (\<lambda>_. 0) 0 (app_service demo_env ''files'' demo_cfg demo_bcrypt) demo_upload demo_world
      = Returns (Inr ''aa'', w1) \<and>
    (\<exists>r w2. Service_DownloadFile (app_service demo_env ''files'' demo_cfg demo_bcrypt)
        \<lparr>df_Alias = ''aa'', df_Password = uf_Password demo_upload\<rparr>
        (w1\<lparr>w_clock := w_clock w1 + int 5\<rparr>) = (Inr r, w2) \<and>
      dr_File r = uf_File demo_upload \<and> dr_Name r = Base (uf_Filename demo_upload) \<and>
      dr_Size r = int (length (uf_File demo_upload)))"
  by (rule upload_then_download [OF demo_facts(1) demo_upload_facts(1-5) demo_free demo_upload_facts(6) _ _ _ demo_fits])
    (simp_all add: demo_upload_def demo_defs)

section \<open>The specification of the shelf\<close>

text \<open>
  The download operation implements the specification: read as a shelf, the world after a
  request is the shelf after the specified download, the caller gets the bytes and the name the
  specification gives or is refused where it refuses, and table and storage still agree.
\<close>

theorem download_refines:
  assumes "calm w" "shelf_ok E p w" "plain_name (df_Alias c)"
    and "Service_DownloadFile (app_service E p cfg B) c w = (r, w')"
  shows "shelf_download B (df_Alias c) (df_Password c) (shelf_of E p w) = (answer r, shelf_of E p w') \<and>
    shelf_ok E p w' \<and> calm w'"
  using download_implements [OF assms] by blast

theorem download_refines_witness:
  "\<exists>w'. shelf_download demo_bcrypt ''abc'' ''pw'' (shelf_of demo_env ''files'' demo_world) =
    (Some (''a.txt'', ''hello''), shelf_of demo_env ''files'' w')"
  using download_refines [OF demo_facts(1) demo_shelf _ demo_download [unfolded demo_service]] demo_plain
  by (auto simp: answer_def)

text \<open>
  C12: An accepted upload implements putting a new entry on the shelf: alias, name, bytes, allowed
  downloads, password hash and owner are those of the request, and every other entry stays.  A
  time to live that is not positive leaves the shelf as it was.
\<close>

theorem upload_refines:
  assumes "calm w" "shelf_ok E p w"
    and "sql_stat_by_user (ui_UserID (uf_User c)) (w_clock w) (w_table w) = Inr (n, z)"
    and "checkUploadQuote cfg \<lparr>fst_UserID = ui_UserID (uf_User c), fst_Count = n, fst_Size = z\<rparr>
      (uf_Filesize c) (ui_Roles (uf_User c)) = None"
    and "Gen rnd (AliasLength cfg) = Some (Inr a)" "0 < AliasLength cfg"
    and "hash_password B salt (uf_Password c) = Inr h" "valid_name (Base (uf_Filename c))"
    and "\<forall>f \<in> set (rows_of w). \<not> same_alias (collate E) a f"
    and "1 \<le> uf_MaxDownloads c" "uf_MaxDownloads c < 2 ^ 15" "fits_columns E c a h w"
  shows "\<exists>w'. Service_UploadFile rnd salt (app_service E p cfg B) c w = Returns (Inr a, w') \<and>
    shelf_of E p w' =
      (if ts_col E (w_clock w + uf_TTL c) > sql_now E (w_clock w)
       then (shelf_of E p w)(a \<mapsto> shelf_entry E (w_clock w) c h) else shelf_of E p w) \<and>
    shelf_ok E p w' \<and> calm w'"
proof -
  note a = Gen_plain [OF assms(5,6)]
  note free = shelf_free_alias [OF assms(2) a assms(9)]
  from calm_upload [OF assms(1,3-5,7) free assms(8,12)] shelf_of_uploaded [OF assms(2) a assms(9)]
    shelf_ok_uploaded [OF assms(2) a assms(9-11)] assms(1)
  show ?thesis by auto
qed

theorem upload_refines_witness:
  "\<exists>w'. Service_UploadFile (\<lambda>_. 0) 0 (app_service demo_env ''files'' demo_cfg demo_bcrypt) demo_upload demo_world
      = Returns (Inr ''aa'', w') \<and>
    shelf_of demo_env ''files'' w' ''aa'' = Some (shelf_entry demo_env (w_clock demo_world) demo_upload ''$secret'')"
proof -
  have "\<exists>w'. Service_UploadFile (\<lambda>_. 0) 0 (app_service demo_env ''files'' demo_cfg demo_bcrypt) demo_upload demo_world
      = Returns (Inr ''aa'', w') \<and>
    shelf_of demo_env ''files'' w' =
      (if ts_col demo_env (w_clock demo_world + uf_TTL demo_upload) > sql_now demo_env (w_clock demo_world)
       then (shelf_of demo_env ''files'' demo_world)(''aa'' \<mapsto> shelf_entry demo_env (w_clock demo_world) demo_upload ''$secret'')
       else shelf_of demo_env ''files'' demo_world) \<and>
    shelf_ok demo_env ''files'' w' \<and> calm w'"
    by (rule upload_refines [OF demo_facts(1) demo_shelf demo_upload_facts(1-3) _ demo_upload_facts(4,6) _ _ _ demo_fits])
      (simp_all add: demo_upload_def demo_defs rows_of_def same_alias_def)
  then show ?thesis by (auto simp: demo_upload_def demo_defs)
qed

text \<open>
  Where no stored alias compares equal to the requested one without being the same, a deletion
  implements taking the entry off the shelf for its owner or an administrator, and refuses everyone
  else without any change.
\<close>

theorem delete_refines:
  assumes "calm w" "shelf_ok E p w" "plain_name (del_Alias c)"
    and "\<forall>f \<in> set (rows_of w). same_alias (collate E) (del_Alias c) f \<longrightarrow> f_Alias f = del_Alias c"
    and "Service_DeleteFile (app_service E p cfg B) c w = (r, w')"
  shows "shelf_delete (del_User c) (del_Alias c) (shelf_of E p w) = (r = None, shelf_of E p w') \<and>
    shelf_ok E p w' \<and> calm w'"
  using delete_implements [OF assms] by blast

theorem delete_refines_witness:
  "\<exists>w'. Service_DeleteFile (app_service demo_env ''files'' demo_cfg demo_bcrypt)
      \<lparr>del_Alias = ''abc'', del_User = \<lparr>ui_UserID = 7, ui_Roles = [RoleUser]\<rparr>\<rparr> demo_world = (None, w') \<and>
    (shelf_of demo_env ''files'' demo_world)(''abc'' := None) = shelf_of demo_env ''files'' w'"
proof -
  let ?u = "\<lparr>ui_UserID = 7, ui_Roles = [RoleUser]\<rparr>"
  have acc: "checkAccess (row_file \<lparr>row_id = 1, row_file = demo_file\<rparr>) (ui_UserID ?u) (ui_Roles ?u) = None"
    by (simp add: checkAccess_def checkOwner_def demo_file_def)
  note d = calm_service_delete [OF demo_facts(1,2) acc, of "''files''" demo_cfg demo_bcrypt]
  have "shelf_of demo_env ''files'' demo_world ''abc'' \<noteq> None"
    using demo_facts(2,4) demo_plain by (simp add: shelf_of_def)
  moreover have "\<forall>f \<in> set (rows_of demo_world). same_alias (collate demo_env) ''abc'' f \<longrightarrow> f_Alias f = ''abc''"
    by (simp add: demo_env_def same_alias_def)
  ultimately show ?thesis using delete_refines [OF demo_facts(1) demo_shelf _ _ d] demo_plain d
    by (auto simp: shelf_delete_def split: option.splits if_splits)
qed

section \<open>Overlapping requests\<close>

text \<open>
  C3: A link with one download is served once at most, however many downloads and deletions of it and
  ticks of the worker overlap, call by call, and whichever of their calls fail; and when its deletion
  is confirmed, or the worker has removed it, it has not been served and never will be.
\<close>

theorem single_download_is_served_once:
  assumes "interleaved faults (fresh_link 1) c"
  shows "ended {Served, Dropped, Purged} c \<le> 1"
  using taken_at_most_once [OF assms] by (simp add: taken_def)

text \<open>Two requests read the counter; one removes the row, the other then finds nothing to delete.\<close>

theorem single_download_is_served_once_witness:
  "\<exists>c. schedule ([Arrive (Fetch True), Arrive (Fetch True)] @ reads 2 @ replicate 4 (Go 0) @ replicate 3 (Go 1))
      (fresh_link 1, []) = Some c \<and> map snd (snd c) = [Finished Served, Finished Refused] \<and>
    ended {Served, Dropped, Purged} c \<le> 1"
proof -
  let ?ms = "[Arrive (Fetch True), Arrive (Fetch True)] @ reads 2 @ replicate 4 (Go 0) @ replicate 3 (Go 1)"
  obtain c where c: "schedule ?ms (fresh_link 1, []) = Some c" "map snd (snd c) = [Finished Served, Finished Refused]"
    using wrap_below [of 1 1]
    by (simp add: reads_def fresh_link_def solo_simps)
  from schedule_interleaved [OF interleaved.start c(1), of True] have i: "interleaved True (fresh_link 1) c" by simp
  show ?thesis by (intro exI [of _ c] conjI) (rule c single_download_is_served_once [OF i])+
qed

text \<open>
  C4: With two or more downloads allowed there is no bound at all: any number of requests that read
  the counter before one of them writes it are all served, no call fails, and the link then has one
  download less than before them.
\<close>

theorem overlapping_downloads_exceed_the_limit:
  assumes "2 \<le> k" "k < 2 ^ 15" "0 < m"
  shows "\<exists>c. interleaved False (fresh_link k) c \<and> all_done c \<and> ended {Served} c = m \<and> fst c = fresh_link (k - 1)"
proof -
  note s = crowd_served [OF assms]
  have "interleaved False (fresh_link k) (fresh_link (k - 1), replicate m (Fetch True, Finished Served))"
    using schedule_interleaved [OF interleaved.start s] crowd_faultless by blast
  then show ?thesis
    by (intro exI [of _ "(fresh_link (k - 1), replicate m (Fetch True, Finished Served))"])
      (auto simp: all_done_def ended_def)
qed

theorem overlapping_downloads_exceed_the_limit_witness:
  "\<exists>c. interleaved False (fresh_link 2) c \<and> ended {Served} c = 1000 \<and> fst c = fresh_link 1"
  using overlapping_downloads_exceed_the_limit [of 2 1000] by auto

text \<open>
  C5: What holds in every interleaving of downloads and deletions of an alias and of ticks of the
  worker, faults included: the counter in the table stays between 1 and the number allowed, a row that
  is gone has left no file behind, the worker has removed the row only when it had expired, and when
  all requests have ended no lock is held.  If no call failed, the row that is still there then has
  its file.
\<close>

theorem overlapping_requests_leave_no_orphans:
  assumes "interleaved faults (fresh_link k) c" "1 \<le> k" "k < 2 ^ 15"
  shows "(\<forall>n. l_row (fst c) = Some n \<longrightarrow> 1 \<le> n \<and> n \<le> k) \<and> (l_row (fst c) = None \<longrightarrow> \<not> l_file (fst c)) \<and>
    (ended {Purged} c \<noteq> 0 \<longrightarrow> \<not> l_live (fst c)) \<and>
    (all_done c \<longrightarrow> l_lock (fst c) = None \<and> (faults \<or> l_row (fst c) = None \<or> l_file (fst c)))"
proof -
  note ok = interleaved_ok [OF assms]
  have "faults \<or> l_row (fst c) = None \<or> l_file (fst c)" if "all_done c"
    using interleaved_whole [OF assms(1) _ assms(2,3)] done_unlocked [OF ok that] by (auto simp: whole_def)
  with ok done_unlocked [OF ok] purged_due [OF interleaved_timely [OF assms]] show ?thesis
    by (auto simp: traffic_ok_def row_ok_def split: option.splits)
qed

theorem overlapping_requests_leave_no_orphans_witness:
  "\<exists>c. interleaved False (fresh_link 3) c \<and> all_done c \<and> l_row (fst c) = Some 2 \<and> l_file (fst c)"
proof -
  let ?c = "(fresh_link 2, [(Fetch True, Finished Served)])"
  have "schedule (crowd 1) (fresh_link 3, []) = Some ?c" using crowd_served [of 3 1] by simp
  from schedule_interleaved [OF interleaved.start this] crowd_faultless have "interleaved False (fresh_link 3) ?c" by blast
  moreover have "all_done ?c" by (simp add: all_done_def)
  ultimately show ?thesis
    using overlapping_requests_leave_no_orphans [of False 3 ?c] by (intro exI [of _ ?c]) (simp add: fresh_link_def)
qed



text \<open>
  C7: The calls of the interleavings are those of the operations: a download, a deletion or a tick of
  the worker that runs alone, call after call, ends as the operation does, and leaves the row of an
  alias, its counter and its file as the operation leaves them.
\<close>

theorem alone_requests_are_the_operations:
  assumes "calm w" "shelf_ok (sys_env S) (sys_path S) w" "plain_name (df_Alias c)" "plain_name (del_Alias d)" "plain_name a"
    and "Service_DownloadFile (sys_service S) c w = (r, w1)"
    and "Service_DeleteFile (sys_service S) d w = (x, w2)"
    and "FileWorker_tick (sys_worker S) w = (go, w3)"
  shows "alone (Fetch (fits (sys_bcrypt S) (sys_env S) c w)) (link_of (sys_env S) (sys_path S) (df_Alias c) w)
      (case r of Inl e \<Rightarrow> Refused | Inr f \<Rightarrow> Served) (link_of (sys_env S) (sys_path S) (df_Alias c) w1) \<and>
    alone (Drop (may_drop (sys_env S) d w)) (link_of (sys_env S) (sys_path S) (del_Alias d) w)
      (case x of Some e \<Rightarrow> Refused | None \<Rightarrow> Dropped) (link_of (sys_env S) (sys_path S) (del_Alias d) w2) \<and>
    alone (Purge (in_batch (sys_env S) a w)) (link_of (sys_env S) (sys_path S) a w)
      (if in_batch (sys_env S) a w then Purged else Refused) (link_of (sys_env S) (sys_path S) a w3)"
  using solo_download [OF assms(1-3) assms(6) [unfolded sys_service_def]]
    solo_delete [OF assms(1,2,4) assms(7) [unfolded sys_service_def]] solo_tick [OF assms(1,2,5,8)] by blast

theorem alone_requests_are_the_operations_witness:
  "\<exists>w'. alone (Fetch True) (link_of demo_env ''files'' ''abc'' demo_world) Served (link_of demo_env ''files'' ''abc'' w')"
proof -
  let ?d = "\<lparr>del_Alias = ''abc'', del_User = \<lparr>ui_UserID = 7, ui_Roles = [RoleUser]\<rparr>\<rparr>"
  obtain x w2 where d: "Service_DeleteFile (sys_service demo_system) ?d demo_world = (x, w2)"
    by (cases "Service_DeleteFile (sys_service demo_system) ?d demo_world")
  obtain go w3 where t: "FileWorker_tick (sys_worker demo_system) demo_world = (go, w3)"
    by (cases "FileWorker_tick (sys_worker demo_system) demo_world")
  have "fits demo_bcrypt demo_env \<lparr>df_Alias = ''abc'', df_Password = ''pw''\<rparr> demo_world"
    using demo_facts(2,3) by (simp add: fits_def)
  with alone_requests_are_the_operations [OF demo_facts(1) _ _ _ _ demo_download d t, of "''abc''"] demo_plain demo_shelf
  show ?thesis by (auto simp: demo_system_def)
qed

text \<open>
  On the statements of the repository themselves: two downloads whose transactions overlap can be
  counted as one.  Both read the counter before either writes it, both commit, each is told the same
  number, and afterwards the file is served as often as if one of the two had not happened - one time
  more than its owner allowed.
\<close>

theorem overlapping_downloads_lose_count:
  assumes "calm w" "find (live_row E (w_clock w) a) (w_table w) = Some r"
    and "checkPassword B (row_file r) pwd = None" "folder_of p w a = Some ((n, b) # rest)"
    and "f_DownloadsLeft (row_file r) = int (Suc (Suc k))" "int (Suc (Suc k)) < 2 ^ 15"
  shows "\<exists>w'. overlapping_decrements E a w = Some ((int (Suc k), int (Suc k)), w') \<and>
    fetch_times (app_service E p cfg B) \<lparr>df_Alias = a, df_Password = pwd\<rparr> (Suc k + m) w' =
      replicate (Suc k) (Inr \<lparr>dr_File = b, dr_Name = n, dr_Size = int (length b), dr_fd = fresh (w_open w)\<rparr>) @
      replicate m (Inl (Sentinel ErrFileNotFound))"
proof -
  let ?w = "downloaded E p a (int (Suc k)) w"
  let ?r = "r\<lparr>row_file := (row_file r)\<lparr>f_DownloadsLeft := int (Suc k)\<rparr>\<rparr>"
  have ov: "overlapping_decrements E a w = Some ((int (Suc k), int (Suc k)), ?w)"
    using overlapping_lost [OF assms(1,2,5) _ assms(6), of p] by simp
  have "find (live_row E (w_clock ?w) a) (w_table ?w) = Some ?r" "folder_of p ?w a = Some ((n, b) # rest)"
    using assms(2,4) find_live_set_rows by (simp_all add: downloaded_def folder_of_def)
  with fetch_times_calm [of ?w E a ?r B pwd p n b rest k cfg "Suc k + m"] assms have
    "fetch_times (app_service E p cfg B) \<lparr>df_Alias = a, df_Password = pwd\<rparr> (Suc k + m) ?w =
      replicate (Suc k) (Inr \<lparr>dr_File = b, dr_Name = n, dr_Size = int (length b), dr_fd = fresh (w_open w)\<rparr>) @
      replicate m (Inl (Sentinel ErrFileNotFound))" by simp
  with ov show ?thesis by blast
qed

theorem overlapping_downloads_lose_count_witness:
  "\<exists>w'. overlapping_decrements demo_env ''abc'' demo_world = Some ((1, 1), w') \<and>
    map (\<lambda>r. case r of Inr d \<Rightarrow> dr_File d | Inl e \<Rightarrow> ''error'')
      (fetch_times (app_service demo_env ''files'' demo_cfg demo_bcrypt)
         \<lparr>df_Alias = ''abc'', df_Password = ''pw''\<rparr> 2 w') = [''hello'', ''error'']"
proof -
  have "f_DownloadsLeft (row_file \<lparr>row_id = 1, row_file = demo_file\<rparr>) = int (Suc (Suc 0))"
    by (simp add: demo_file_def)
  with overlapping_downloads_lose_count [OF demo_facts(1,2), of demo_bcrypt "''pw''" "''files''" "''a.txt''" "''hello''" "[]" 0 demo_cfg 1]
    demo_facts show ?thesis by (auto simp: numeral_2_eq_2)
qed

section \<open>Runs and the shelf\<close>

text \<open>
  C11: A whole run of operations, worker ticks and passing time, in which no call fails, is a run of the
  shelf: every download is answered with the name and the bytes the shelf holds, or refused when the
  shelf refuses, every deletion likewise, an accepted upload puts one entry under an alias that was
  free, time takes away the entries whose life has ended, and the worker does nothing a caller sees.
  The aliases of the run, and those stored, are not to be the same for the database without being
  the same.
\<close>

theorem calm_runs_follow_the_shelf:
  assumes "sys_run S w tr w'" "calm w" "shelf_ok (sys_env S) (sys_path S) w"
    and "list_all (calm_event \<circ> fst) tr" "mono (sql_now (sys_env S))" "0 < AliasLength (sys_cfg S)"
    and "inj_on (collate (sys_env S)) (f_Alias ` set (rows_of w) \<union> \<Union> (aliases_in ` set tr))"
  shows "shelf_run S (w_clock w) (shelf_of (sys_env S) (sys_path S) w) tr (shelf_of (sys_env S) (sys_path S) w') \<and>
    shelf_ok (sys_env S) (sys_path S) w' \<and> calm w'"
  using shelf_run_simulates [OF assms] by blast

theorem calm_runs_follow_the_shelf_witness:
  "\<exists>w' r. shelf_run demo_system 10 (shelf_of demo_env ''files'' demo_world)
     [(EvDownload \<lparr>df_Alias = ''abc'', df_Password = ''pw''\<rparr>, ReDownload (Inr r)), (EvTick, ReNone), (EvEnv [] 5, ReNone)]
     (shelf_of demo_env ''files'' w')"
proof -
  let ?r = "\<lparr>dr_File = ''hello'', dr_Name = ''a.txt'', dr_Size = 5, dr_fd = 1\<rparr>"
  let ?tr = "[(EvDownload \<lparr>df_Alias = ''abc'', df_Password = ''pw''\<rparr>, ReDownload (Inr ?r)), (EvTick, ReNone), (EvEnv [] 5, ReNone)]"
  obtain go w2 where t: "FileWorker_tick (sys_worker demo_system)
      ((downloaded demo_env ''files'' ''abc'' 1 demo_world)\<lparr>w_open := [1]\<rparr>) = (go, w2)"
    by (cases "FileWorker_tick (sys_worker demo_system) ((downloaded demo_env ''files'' ''abc'' 1 demo_world)\<lparr>w_open := [1]\<rparr>)")
  from sys_run.cons [OF sys_step.download [OF demo_download] sys_run.cons [OF sys_step.tick [OF t] sys_run.cons [OF sys_step.env [OF refl] sys_run.nil]]]
  have run: "sys_run demo_system demo_world ?tr (w2\<lparr>w_tape := [], w_clock := w_clock w2 + int 5\<rparr>)" .
  have ev: "list_all (calm_event \<circ> fst) ?tr" using demo_plain by (simp add: calm_event_def)
  have "shelf_run demo_system (w_clock demo_world) (shelf_of (sys_env demo_system) (sys_path demo_system) demo_world) ?tr
      (shelf_of (sys_env demo_system) (sys_path demo_system) (w2\<lparr>w_tape := [], w_clock := w_clock w2 + int 5\<rparr>))"
    by (rule calm_runs_follow_the_shelf [OF run demo_facts(1) _ ev, THEN conjunct1])
      (use demo_shelf in \<open>simp_all add: demo_system_def\<close>, simp_all add: demo_env_def demo_cfg_def mono_def inj_on_def)
  moreover have "w_clock demo_world = 10" "sys_env demo_system = demo_env" "sys_path demo_system = ''files''"
    by (simp_all add: demo_world_def demo_system_def)
  ultimately show ?thesis by (metis (no_types))
qed

section \<open>Quotas, owners and failures\<close>



text \<open>
  C23: Overlapping uploads are not held to the quota.  The quota is compared before the transaction of
  an upload begins, so any number of uploads of one user, each within the quota of its own, that are
  all checked before the first of them is stored, are all accepted: the user then has as many files
  more as there were uploads, with all their sizes, whatever the limits are.
\<close>

theorem overlapping_uploads_exceed_the_quota:
  assumes "calm w" "sql_stat_by_user u (w_clock w) (w_table w) = Inr (n, z)"
    and "\<forall>(rnd, salt, c) \<in> set us. ui_UserID (uf_User c) = u \<and>
      checkUploadQuote cfg \<lparr>fst_UserID = u, fst_Count = n, fst_Size = z\<rparr> (uf_Filesize c) (ui_Roles (uf_User c)) = None"
    and "list_all2 (storable E p cfg B w) us as" "distinct (map (collate E) as)"
  shows "\<exists>w'. overlapping_uploads (app_service E p cfg B) us w = Returns (map Inr as, w') \<and>
    int (length (filter (\<lambda>f. f_UserID f = u) (rows_of w'))) = n + int (length us) \<and>
    sum_list (map f_Size (filter (\<lambda>f. f_UserID f = u) (rows_of w'))) =
      z + sum_list (map (\<lambda>(rnd, salt, c). uf_Filesize c) us)"
proof -
  have own: "n = int (length (filter (\<lambda>f. f_UserID f = u) (rows_of w)))"
    "z = sum_list (map f_Size (filter (\<lambda>f. f_UserID f = u) (rows_of w)))"
    using assms(2) by (auto simp: sql_stat_by_user_def rows_of_def filter_map comp_def Let_def split: if_splits)
  have "\<forall>(rnd, salt, c) \<in> set us. ui_UserID (uf_User c) = u" using assms(3) by auto
  from store_all_calm [OF assms(4,5,1) this] obtain w' where w':
    "store_all (app_service E p cfg B) (map (\<lambda>u. (u, None)) us) w = Returns (map Inr as, w')"
    "map f_Size (filter (\<lambda>f. f_UserID f = u) (rows_of w')) =
      map f_Size (filter (\<lambda>f. f_UserID f = u) (rows_of w)) @ map (\<lambda>(rnd, salt, c). uf_Filesize c) us" by blast
  from arg_cong [OF w'(2), of length] arg_cong [OF w'(2), of sum_list] w'(1) own check_all_calm [OF assms(1-3)]
  show ?thesis by (auto simp: overlapping_uploads_def)
qed

text \<open>A user who may store one file stores two.\<close>

theorem overlapping_uploads_exceed_the_quota_witness:
  "\<exists>w'. MaxUploadedFiles (Permissions demo_narrow) = 1 \<and>
    overlapping_uploads (app_service demo_env ''files'' demo_narrow demo_bcrypt) demo_uploads demo_world =
      Returns ([Inr ''aa'', Inr ''bb''], w') \<and>
    length (filter (\<lambda>f. f_UserID f = 8) (rows_of w')) = 2"
proof -
  have "sql_stat_by_user 8 (w_clock demo_world) (w_table demo_world) = Inr (0, 0)"
    using demo_upload_facts(1) by (simp add: demo_upload_def)
  from overlapping_uploads_exceed_the_quota [OF demo_facts(1) this _ demo_storable] show ?thesis
    by (auto simp: demo_uploads_def demo_upload_def demo_narrow_def demo_cfg_def demo_env_def checkUploadQuote_def wrap64_id)
qed

text \<open>
  C24: Whatever fails, an upload that returns an error leaves no transaction and no open file behind,
  touches no folder but that of the alias it drew, and leaves the table as it was - or, when only the
  outcome of the commit was lost, with exactly the new row.
\<close>

theorem failed_upload_settles:
  assumes "Service_UploadFile rnd salt (app_service E p cfg B) c w = Returns (Inl e, w')"
  shows "view_of w' = view_of w \<and> w_open w' = w_open w \<and>
    (rows_of w' = rows_of w \<and> folder_of p w' = folder_of p w \<or>
     (\<exists>a. Gen rnd (AliasLength cfg) = Some (Inr a) \<and>
        (plain_name a \<longrightarrow> (\<forall>b. plain_name b \<longrightarrow> b \<noteq> a \<longrightarrow> folder_of p w' b = folder_of p w b)) \<and>
        (rows_of w' = rows_of w \<or>
         (\<exists>f d n. rows_of w' = rows_of w @ [f] \<and> f_Alias f = a \<and> f_DownloadsLeft f = uf_MaxDownloads c \<and>
            folder_of p w' a = Some d \<and> map_of d n = Some (uf_File c)))))"
proof -
  from app.upload_err [OF assms] obtain a where s: "app.settled p a [] w w'"
    and r: "rows_of w' = rows_of w \<and> folder_of p w' = folder_of p w \<or>
      Gen rnd (AliasLength cfg) = Some (Inr a) \<and>
      (rows_of w' = rows_of w \<or> (\<exists>h. app.added E c a h w w' \<and> app.stored p a (uf_File c) w'))"
    by (simp only: app_service_simps) blast
  then show ?thesis unfolding app.settled_def app.added_def app.stored_def apart_def by simp blast
qed

theorem failed_upload_settles_witness:
  "\<exists>e w'. Service_UploadFile (\<lambda>_. 0) 0 (app_service demo_env ''files'' demo_cfg demo_bcrypt)
       (demo_upload\<lparr>uf_Filesize := 5000\<rparr>) demo_world = Returns (Inl e, w') \<and> view_of w' = view_of demo_world"
proof -
  have "Service_UploadFile (\<lambda>_. 0) 0 (app_service demo_env ''files'' demo_cfg demo_bcrypt)
       (demo_upload\<lparr>uf_Filesize := 5000\<rparr>) demo_world =
    Returns (Inl (errorf ''services.file.Service.UploadFile: failed to upload quote: '' (Sentinel ErrFileSizeTooBig)),
      demo_world)"
    by (simp add: Service_UploadFile_def calm_stat [where n = 0 and z = 0] demo_defs demo_upload_def
        sql_stat_by_user_def int64_range_def checkUploadQuote_def wrap64_id)
  from this failed_upload_settles [OF this] show ?thesis by blast
qed

text \<open>
  C25: A file is deleted for its owner and for administrators only: if a deletion answers success, or
  if it changed the table or any folder at all, then at the time the alias named a live row and the
  caller owns it or has the admin role; the rows that are gone are those of the alias, the folder of
  the alias is gone on success, and no transaction or file is left open.
\<close>

theorem deleted_by_owner_or_admin:
  assumes d: "Service_DeleteFile (app_service E p cfg B) c w = (r, w')"
    and u: "unique_aliases (collate E) (rows_of w)"
  shows "view_of w' = view_of w \<and> w_open w' = w_open w \<and>
    (r = None \<or> rows_of w' \<noteq> rows_of w \<or> folder_of p w' \<noteq> folder_of p w \<longrightarrow>
      (\<exists>f t. f \<in> set (rows_of w) \<and> collate E (f_Alias f) = collate E (del_Alias c) \<and> f_ExpiresAt f > sql_now E t \<and>
         (f_UserID f = ui_UserID (del_User c) \<or> RoleAdmin \<in> set (ui_Roles (del_User c))))) \<and>
    (r = None \<longrightarrow> folder_of p w' (del_Alias c) = None) \<and>
    (rows_of w' = rows_of w \<and> r \<noteq> None \<or>
     rows_of w' = filter (\<lambda>g. collate E (f_Alias g) \<noteq> collate E (del_Alias c)) (rows_of w))"
proof -
  have acc: "\<exists>f t. f \<in> set (rows_of w) \<and> collate E (f_Alias f) = collate E (del_Alias c) \<and> f_ExpiresAt f > sql_now E t \<and>
      (f_UserID f = ui_UserID (del_User c) \<or> RoleAdmin \<in> set (ui_Roles (del_User c)))" if "app.delete_allowed E c w"
    using that unfolding app.delete_allowed_def
    by (fastforce simp: live_as_def same_alias_def checkAccess_def checkOwner_def split: if_split_asm)
  show ?thesis
  proof (cases r)
    case None
    from app.delete_ok [OF d [unfolded None] u] acc [OF app.delete_ok_allowed [OF d [unfolded None] u]] None
    show ?thesis by (simp add: app.settled_def app.dropped_def same_alias_def)
  next
    case (Some e)
    from app.delete_err [OF d [unfolded Some] u] acc Some show ?thesis
      by (auto simp: app.settled_def app.dropped_def same_alias_def)
  qed
qed

theorem deleted_by_owner_or_admin_witness:
  "\<exists>w'. Service_DeleteFile (app_service demo_env ''files'' demo_cfg demo_bcrypt)
      \<lparr>del_Alias = ''abc'', del_User = \<lparr>ui_UserID = 7, ui_Roles = [RoleUser]\<rparr>\<rparr> demo_world = (None, w') \<and>
    folder_of ''files'' w' ''abc'' = None"
proof -
  let ?u = "\<lparr>ui_UserID = 7, ui_Roles = [RoleUser]\<rparr>"
  have acc: "checkAccess (row_file \<lparr>row_id = 1, row_file = demo_file\<rparr>) (ui_UserID ?u) (ui_Roles ?u) = None"
    by (simp add: checkAccess_def checkOwner_def demo_file_def)
  note d = calm_service_delete [OF demo_facts(1,2) acc, of "''files''" demo_cfg demo_bcrypt]
  from d deleted_by_owner_or_admin [OF d demo_facts(6)] show ?thesis by simp
qed

text \<open>
  What is known about a file is told to its owner and to administrators only: an answer with
  details of a file describes a row of the alias that had not expired, owned by the caller unless the
  caller has the admin role, and asking changes nothing.
\<close>

theorem details_for_owner_or_admin:
  assumes "Service_GetFileByAlias (app_service E p cfg B) c w = (Inr g, w')"
  shows "(\<exists>f t. f \<in> set (rows_of w) \<and> w_clock w \<le> t \<and> t \<le> w_clock w' \<and>
      collate E (f_Alias f) = collate E (gf_Alias c) \<and> f_ExpiresAt f > sql_now E t \<and>
      (f_UserID f = ui_UserID (gf_User c) \<or> RoleAdmin \<in> set (ui_Roles (gf_User c))) \<and>
      gr_Alias g = f_Alias f \<and> gr_Filename g = f_Name f \<and> gr_Filesize g = f_Size f \<and>
      gr_DownloadsLeft g = f_DownloadsLeft f) \<and>
    rows_of w' = rows_of w \<and> view_of w' = view_of w \<and> w_open w' = w_open w \<and> folder_of p w' = folder_of p w"
proof (rule conjI)
  from app.get_ok_row [OF assms] show "\<exists>f t. f \<in> set (rows_of w) \<and> w_clock w \<le> t \<and> t \<le> w_clock w' \<and>
      collate E (f_Alias f) = collate E (gf_Alias c) \<and> f_ExpiresAt f > sql_now E t \<and>
      (f_UserID f = ui_UserID (gf_User c) \<or> RoleAdmin \<in> set (ui_Roles (gf_User c))) \<and>
      gr_Alias g = f_Alias f \<and> gr_Filename g = f_Name f \<and> gr_Filesize g = f_Size f \<and>
      gr_DownloadsLeft g = f_DownloadsLeft f"
    by (fastforce simp: moment_def live_as_def same_alias_def checkAccess_def checkOwner_def file_result_def
        split: if_split_asm)
qed (use app.get_keeps [OF assms] in \<open>simp add: app.settled_def\<close>)

theorem details_for_owner_or_admin_witness:
  "\<exists>g w'. Service_GetFileByAlias (app_service demo_env ''files'' demo_cfg demo_bcrypt)
      \<lparr>gf_Alias = ''abc'', gf_User = \<lparr>ui_UserID = 7, ui_Roles = [RoleUser]\<rparr>\<rparr> demo_world = (Inr g, w') \<and>
    rows_of w' = rows_of demo_world \<and> (\<exists>f. f \<in> set (rows_of demo_world) \<and> gr_DownloadsLeft g = f_DownloadsLeft f)"
proof -
  let ?c = "\<lparr>gf_Alias = ''abc'', gf_User = \<lparr>ui_UserID = 7, ui_Roles = [RoleUser]\<rparr>\<rparr>"
  have "Service_GetFileByAlias (app_service demo_env ''files'' demo_cfg demo_bcrypt) ?c demo_world =
      (Inr (file_result (w_clock demo_world) demo_file), demo_world)"
    using demo_facts(1,2)
    by (simp add: Service_GetFileByAlias_def calm_get calm_def checkAccess_def checkOwner_def demo_file_def)
  from this details_for_owner_or_admin [OF this] show ?thesis by blast
qed

section \<open>The worker and the pages\<close>

text \<open>
  C26: Whatever fails, a tick of the worker takes nothing out of the table but rows that had expired
  at some moment of the tick, at most a hundred of them, and leaves nothing open.
\<close>

theorem tick_purges_only_expired:
  assumes "FileWorker_tick (sys_worker S) w = (go, w')" "unique_aliases (collate (sys_env S)) (rows_of w)"
  shows "view_of w' = view_of w \<and> w_open w' = w_open w \<and>
    (\<exists>P t. rows_of w' = filter P (rows_of w) \<and> w_clock w \<le> t \<and> t \<le> w_clock w' \<and>
       (\<forall>f \<in> set (rows_of w). \<not> P f \<longrightarrow> f_ExpiresAt f < sql_now (sys_env S) t) \<and>
       int (length (rows_of w)) - 100 \<le> int (length (rows_of w')))"
proof -
  have "FileWorker_tick (app.worker_of (sys_env S) (sys_path S) (sys_cfg S) (sys_bcrypt S) world_sleep (sys_cfg S)) w = (go, w')"
    using assms(1) sys_worker_of by metis
  from app.tick_effect [OF this] sleep_frame have end_: "app.tick_end (sys_env S) w w'" by blast
  have "rows_of w' = rows_of w \<or> (\<exists>t. moment (w_clock w) t (w_clock w') \<and>
      purged (collate (sys_env S)) batchLimit (sql_now (sys_env S) t) (rows_of w) (rows_of w'))"
    using end_ unfolding app.tick_end_def by blast
  then have "\<exists>P t. rows_of w' = filter P (rows_of w) \<and> w_clock w \<le> t \<and> t \<le> w_clock w' \<and>
       (\<forall>f \<in> set (rows_of w). \<not> P f \<longrightarrow> f_ExpiresAt f < sql_now (sys_env S) t) \<and>
       int (length (rows_of w)) - 100 \<le> int (length (rows_of w'))"
  proof
    assume "rows_of w' = rows_of w"
    with end_ show ?thesis by (intro exI [of _ "\<lambda>_. True"] exI [of _ "w_clock w"]) (simp add: app.tick_end_def)
  next
    assume "\<exists>t. moment (w_clock w) t (w_clock w') \<and>
      purged (collate (sys_env S)) batchLimit (sql_now (sys_env S) t) (rows_of w) (rows_of w')"
    with purged_unique [OF _ assms(2)] show ?thesis unfolding moment_def batchLimit_def by blast
  qed
  with end_ show ?thesis by (simp add: app.tick_end_def)
qed

theorem tick_purges_only_expired_witness:
  "\<exists>P t. rows_of (swept demo_env ''files'' demo_world) = filter P (rows_of demo_world) \<and>
     (\<forall>f \<in> set (rows_of demo_world). \<not> P f \<longrightarrow> f_ExpiresAt f < t)"
  using tick_purges_only_expired [OF calm_tick [OF demo_facts(1)], of demo_system] demo_facts(6)
  by (simp add: demo_system_def) blast

text \<open>
  C27: When no call fails, the worker clears every backlog: after n ticks at least 100 n expired rows
  are gone, so a backlog of at most 100 n rows is gone entirely, and every row that has not expired is
  still there, in its order.
\<close>

theorem worker_clears_backlog:
  assumes "calm w" "unique_aliases (collate (sys_env S)) (rows_of w)"
    and "length (filter (expired (sys_env S) (w_clock w)) (w_table w)) \<le> 100 * n"
  shows "\<exists>w'. FileWorker_Start (sys_worker S) (replicate n TickerC) w = (True, w') \<and> calm w' \<and>
    w_table w' = filter (\<lambda>r. \<not> expired (sys_env S) (w_clock w) r) (w_table w)"
  using assms by (rule calm_worker)

theorem worker_clears_backlog_witness:
  "\<exists>w'. FileWorker_Start (sys_worker demo_system) (replicate 1 TickerC) (demo_world\<lparr>w_clock := 200\<rparr>) = (True, w') \<and>
    w_table w' = []"
proof -
  let ?w = "demo_world\<lparr>w_clock := 200\<rparr>"
  have "filter (\<lambda>r. \<not> expired (sys_env demo_system) (w_clock ?w) r) (w_table ?w) = []"
    "length (filter (expired (sys_env demo_system) (w_clock ?w)) (w_table ?w)) \<le> 100 * 1"
    by (simp_all add: demo_defs expired_def)
  moreover have "calm ?w" "unique_aliases (collate (sys_env demo_system)) (rows_of ?w)"
    using demo_facts(1,6) by (simp_all add: calm_def rows_of_def demo_system_def)
  ultimately show ?thesis using worker_clears_backlog [of ?w demo_system 1] by metis
qed



section \<open>The server\<close>

text \<open>
  C13: Every request on every route of the server, whatever it contains and whatever fails, does to
  database and storage what some run of the service's operations does, each with arguments the
  operation is specified for; so the invariant of the state holds after every answered request.
\<close>

theorem requests_refine_runs:
  assumes "cfg_ok (srv_cfg D)" "MustMountHandlers D = Built rts" "rt \<in> set rts"
    and "rt_Handler rt r w s = Returns (w', s')"
  shows "\<exists>tr. sys_run (dp_sys D) (sv_world s) tr (sv_world s') \<and> list_all (upload_ok \<circ> fst) tr \<and>
    (sys_inv (dp_sys D) (sv_world s) \<longrightarrow> sys_inv (dp_sys D) (sv_world s'))"
proof -
  from route_moves [OF assms] obtain tr where tr: "sys_run (dp_sys D) (sv_world s) tr (sv_world s')"
    "list_all (\<lambda>x. upload_ok (fst x) \<and> anything (fst x)) tr" unfolding moves_def by blast
  then have "list_all (upload_ok \<circ> fst) tr" by (auto simp: list_all_iff)
  with tr(1) sys_run_inv show ?thesis by blast
qed

text \<open>What the client gets, in the calm deployment.\<close>

lemma demo_budget: "below_budget demo_deployment (demo_request m t) demo_server"
  by (simp add: demo_server_defs demo_ip redis_ok_def hits_of_def rd_get_def)

text \<open>
  C15: Over HTTP a download is answered 200 with exactly the bytes of the file and its length in the
  header, when the caller is below its budget, no call fails, the file is live and the password is
  right; afterwards the download is counted (the last one removes row and folder), no file is left
  open, and nothing else in database and storage has changed but the clock.
\<close>

theorem download_over_http:
  assumes "below_budget D r s" "calm (sv_world s)"
    and "find (live_row (sys_env (dp_sys D)) (w_clock (sv_world s)) (rq_URLParam r ''alias'')) (w_table (sv_world s)) = Some x"
    and "checkPassword (sys_bcrypt (dp_sys D)) (row_file x) (rq_Header r ''X-Resource-Password'') = None"
    and "folder_of (sys_path (dp_sys D)) (sv_world s) (rq_URLParam r ''alias'') = Some ((n, content) # rest)"
    and "f_DownloadsLeft (row_file x) = k" "1 \<le> k" "k < 2 ^ 15"
    and "\<And>s'. dp_copy D content s' = ((length content, None), dt s')"
  shows "\<exists>w' s' lag. rt_Handler (download_route D) r [] s = Returns (w', s') \<and> sent_status w' = 200 \<and>
    sent_body w' = content \<and> HeaderSet ''Content-Length'' (decInt (int (length content))) \<in> set w' \<and>
    sv_world s' = (downloaded (sys_env (dp_sys D)) (sys_path (dp_sys D)) (rq_URLParam r ''alias'') (k - 1) (sv_world s))
      \<lparr>w_clock := w_clock (sv_world s) + int lag\<rparr>"
  using assms by (rule calm_download_route)

lemma demo_server_simps:
  "sv_world demo_server = demo_world" "sys_env demo_system = demo_env" "sys_path demo_system = ''files''"
  "sys_bcrypt demo_system = demo_bcrypt" "dp_sys demo_deployment = demo_system"
  "rq_URLParam (demo_request m t) ''alias'' = ''abc''"
  "rq_Header (demo_request m t) ''X-Resource-Password'' = ''pw''"
  "rq_Header (demo_request m t) ''Authorization'' = ''Bearer '' @ t"
  by (simp_all add: demo_server_def demo_deployment_def demo_system_def demo_request_def)

theorem download_over_http_witness:
  "\<exists>w' s'. rt_Handler (download_route demo_deployment) (demo_request ''GET'' []) [] demo_server = Returns (w', s') \<and>
    sent_status w' = 200 \<and> sent_body w' = ''hello''"
proof -
  have "\<exists>w' s' lag. rt_Handler (download_route demo_deployment) (demo_request ''GET'' []) [] demo_server = Returns (w', s') \<and>
      sent_status w' = 200 \<and> sent_body w' = ''hello'' \<and>
      HeaderSet ''Content-Length'' (decInt (int (length ''hello''))) \<in> set w' \<and>
      sv_world s' = (downloaded (sys_env (dp_sys demo_deployment)) (sys_path (dp_sys demo_deployment))
        (rq_URLParam (demo_request ''GET'' []) ''alias'') (2 - 1) (sv_world demo_server))
        \<lparr>w_clock := w_clock (sv_world demo_server) + int lag\<rparr>"
    by (rule download_over_http [OF demo_budget, where n = "''a.txt''" and rest = "[]" and dt = "\<lambda>s. 1"
          and x = "\<lparr>row_id = 1, row_file = demo_file\<rparr>"])
      (simp_all only: demo_server_simps demo_facts row.simps, simp_all add: demo_file_def demo_deployment_def)
  then show ?thesis by blast
qed

theorem requests_refine_runs_witness:
  "\<exists>w' s'. rt_Handler (download_route demo_deployment) (demo_request ''GET'' []) [] demo_server = Returns (w', s') \<and>
    sys_inv demo_system (sv_world s')"
proof -
  from demo_routes obtain rts where rts: "MustMountHandlers demo_deployment = Built rts" by blast
  then have in_: "download_route demo_deployment \<in> set rts" by (auto simp: MustMountHandlers_def bind_boot_Built)
  obtain w' s' where h: "rt_Handler (download_route demo_deployment) (demo_request ''GET'' []) [] demo_server = Returns (w', s')"
    using calm_download_route [OF demo_budget, of "''GET''" "[]" "\<lparr>row_id = 1, row_file = demo_file\<rparr>" "''a.txt''" "''hello''" "[]" 2 "\<lambda>s. 1"]
      demo_facts by (auto simp: demo_server_simps demo_file_def demo_deployment_def)
  from requests_refine_runs [OF demo_cfg_ok rts in_ h] demo_facts(5) h show ?thesis
    by (auto simp: demo_server_simps)
qed

text \<open>
  C16: A refused download is answered with the reason and changes nothing in database and storage:
  404 when no live file has the alias, 401 when a password is needed and none was sent, 403 when the
  password is wrong.
\<close>

theorem refused_download_over_http:
  assumes b: "below_budget D r s" and w: "calm (sv_world s)"
    and row: "row = find (live_row (sys_env (dp_sys D)) (w_clock (sv_world s)) (rq_URLParam r ''alias'')) (w_table (sv_world s))"
    and no: "row = None \<or>
      (\<exists>x. row = Some x \<and> f_PasswordHash (row_file x) \<noteq> [] \<and>
         \<not> (rq_Header r ''X-Resource-Password'' \<noteq> [] \<and>
            bcrypt_Compare (sys_bcrypt (dp_sys D)) (f_PasswordHash (row_file x)) (rq_Header r ''X-Resource-Password'')))"
  shows "\<exists>w' s'. rt_Handler (download_route D) r [] s = Returns (w', s') \<and> sent_body w' = [] \<and>
    sv_world s' = sv_world s \<and> sv_auth s' = sv_auth s \<and>
    sent_status w' = (if row = None then 404 else if rq_Header r ''X-Resource-Password'' = [] then 401 else 403)"
proof -
  let ?pwd = "rq_Header r ''X-Resource-Password''" and ?v = "sv_world s"
  let ?sv = "app_service (sys_env (dp_sys D)) (sys_path (dp_sys D)) (sys_cfg (dp_sys D)) (sys_bcrypt (dp_sys D))"
  define why where "why = (if row = None then ErrFileNotFound
    else if ?pwd = [] then ErrFilePasswordRequired else ErrFilePasswordInvalid)"
  have "\<exists>err. Service_DownloadFile ?sv (download_command r) ?v = (Inl err, ?v) \<and> leaf_of err = Sentinel why"
  proof (cases row)
    case None
    with calm_download_missing [OF w, of "sys_env (dp_sys D)" "download_command r"] row show ?thesis
      by (auto simp: why_def)
  next
    case (Some x)
    with no have "checkPassword (sys_bcrypt (dp_sys D)) (row_file x) ?pwd = Some (Sentinel why)"
      by (auto simp: checkPassword_def why_def)
    with Some row w show ?thesis
      by (simp add: Service_DownloadFile_def calm_rules calm_def Let_def)
  qed
  then obtain err where e: "Service_DownloadFile ?sv (download_command r) ?v = (Inl err, ?v)"
    and l: "leaf_of err = Sentinel why" by blast
  from download_route_failure [OF b e [folded sys_service_def], of "[]"] obtain t1 t2 s' where
    a: "rt_Handler (download_route D) r [] s = Returns (file_failure err [ReadDeadline t1, WriteDeadline t2], s')"
      "sv_world s' = ?v" "sv_auth s' = sv_auth s" by auto
  have "\<exists>j. file_failure err [ReadDeadline t1, WriteDeadline t2] =
      [ReadDeadline t1, WriteDeadline t2, Rendered (if row = None then 404 else if ?pwd = [] then 401 else 403) j]"
    using file_failure_status [of err "[ReadDeadline t1, WriteDeadline t2]"] l
    by (auto simp: failure_status_def leaf_status_def why_def split: if_split_asm)
  with a show ?thesis by auto
qed

theorem refused_download_over_http_witness:
  "\<exists>w' s'. rt_Handler (download_route demo_deployment)
       ((demo_request ''GET'' [])\<lparr>rq_Header := \<lambda>h. if h = ''X-Resource-Password'' then ''guess'' else []\<rparr>) [] demo_server =
      Returns (w', s') \<and> sent_status w' = 403 \<and> sv_world s' = demo_world"
proof -
  let ?r = "(demo_request ''GET'' [])\<lparr>rq_Header := \<lambda>h. if h = ''X-Resource-Password'' then ''guess'' else []\<rparr>"
  have "below_budget demo_deployment ?r demo_server" using demo_budget [of "''GET''" "[]"] by simp
  from refused_download_over_http [OF this _ refl] show ?thesis
    using demo_facts(1,2) by (auto simp: demo_server_simps demo_file_def demo_bcrypt_def)
qed

text \<open>
  Over HTTP an upload is answered 201 with the alias when the token is accepted, the form parses
  and the user is within its quota; the row that is added belongs to the user of the token, and the
  bytes of the form are what is stored for it.
\<close>

theorem upload_over_http:
  assumes "extractBearerToken (rq_Header r ''Authorization'') = t" "t \<noteq> []"
    and "AuthClient_ValidateToken (dp_authStub D) t (sv_auth s) = Returns (Inr info, a)"
    and "rq_ParseForm r (MaxFilesSizeForVipInBytes (Permissions (srv_cfg D)))"
    and "getRequestFromForm (srv_cfg D) r = Inr q" "rq_FormFile r ''file'' = Some (name, content)"
    and "calm (sv_world s)"
    and "sql_stat_by_user (vr_UserID info) (w_clock (sv_world s)) (w_table (sv_world s)) = Inr (n, z)"
    and "checkUploadQuote (srv_cfg D) \<lparr>fst_UserID = vr_UserID info, fst_Count = n, fst_Size = z\<rparr>
      (int (length content)) (vr_Roles info) = None"
    and "Gen (dp_rnd D (s\<lparr>sv_auth := a\<rparr>)) (AliasLength (srv_cfg D)) = Some (Inr al)"
    and "hash_password (sys_bcrypt (dp_sys D)) (dp_salt D (s\<lparr>sv_auth := a\<rparr>)) (ur_Password q) = Inr h"
    and "free_alias (sys_env (dp_sys D)) (sys_path (dp_sys D)) al (sv_world s)" "valid_name (Base name)"
    and "fits_columns (sys_env (dp_sys D)) (upload_command r info q name content) al h (sv_world s)"
  shows "\<exists>w' s'. rt_Handler (hd (user_routes D)) r [] s = Returns (w', s') \<and> sent_status w' = 201 \<and>
    last w' = Rendered 201 (JObj (str_field ''alias'' al)) \<and>
    sv_world s' = uploaded (sys_env (dp_sys D)) (sys_path (dp_sys D)) (upload_command r info q name content) al h (sv_world s)"
proof -
  have "Service_UploadFile (dp_rnd D (s\<lparr>sv_auth := a\<rparr>)) (dp_salt D (s\<lparr>sv_auth := a\<rparr>)) (sys_service (dp_sys D))
      (upload_command r info q name content) (sv_world s) =
    Returns (Inr al, uploaded (sys_env (dp_sys D)) (sys_path (dp_sys D)) (upload_command r info q name content) al h (sv_world s))"
    unfolding sys_service_def
    by (rule calm_upload [where n = n and z = z]) (use assms(7-14) in \<open>simp_all add: srv_cfg_def\<close>)
  from upload_route_runs [OF assms(1-6) this, of "[]"] show ?thesis by auto
qed

lemma demo_token:
  "AuthClient_ValidateToken (dp_authStub demo_deployment) ''tok'' (sv_auth demo_server) =
     Returns (Inr \<lparr>vr_UserID = 7, vr_Roles = [RoleUser], vr_ExpiresAt = 90\<rparr>, ())"
  by (simp add: AuthClient_ValidateToken_def demo_server_defs pbRolesToDomain_def)

text \<open>The upload of the demonstration, request and deployment.\<close>

lemma demo_post:
  "getRequestFromForm (srv_cfg demo_deployment) (demo_request ''POST'' ''tok'') =
     Inr \<lparr>ur_MaxDownloads = 1, ur_TTL = hour, ur_Password = ''secret''\<rparr>"
  "extractBearerToken (rq_Header (demo_request ''POST'' ''tok'') ''Authorization'') = ''tok''"
  "rq_ParseForm (demo_request ''POST'' ''tok'') (MaxFilesSizeForVipInBytes (Permissions (srv_cfg demo_deployment)))"
  "rq_FormFile (demo_request ''POST'' ''tok'') ''file'' = Some (''b.txt'', ''data'')"
  "calm (sv_world demo_server)"
  "sql_stat_by_user 7 (w_clock (sv_world demo_server)) (w_table (sv_world demo_server)) = Inr (1, 5)"
  "checkUploadQuote (srv_cfg demo_deployment) \<lparr>fst_UserID = 7, fst_Count = 1, fst_Size = 5\<rparr> 4 [RoleUser] = None"
  "Gen (dp_rnd demo_deployment (demo_server\<lparr>sv_auth := ()\<rparr>)) (AliasLength (srv_cfg demo_deployment)) = Some (Inr ''aa'')"
  "hash_password (sys_bcrypt (dp_sys demo_deployment)) (dp_salt demo_deployment (demo_server\<lparr>sv_auth := ()\<rparr>)) ''secret'' = Inr ''$secret''"
  "free_alias (sys_env (dp_sys demo_deployment)) (sys_path (dp_sys demo_deployment)) ''aa'' (sv_world demo_server)"
  "valid_name (Base ''b.txt'')"
  "fits_columns (sys_env (dp_sys demo_deployment)) (upload_command (demo_request ''POST'' ''tok'')
     \<lparr>vr_UserID = 7, vr_Roles = [RoleUser], vr_ExpiresAt = 90\<rparr>
     \<lparr>ur_MaxDownloads = 1, ur_TTL = hour, ur_Password = ''secret''\<rparr> ''b.txt'' ''data'') ''aa'' ''$secret'' (sv_world demo_server)"
proof -
  show "getRequestFromForm (srv_cfg demo_deployment) (demo_request ''POST'' ''tok'') =
     Inr \<lparr>ur_MaxDownloads = 1, ur_TTL = hour, ur_Password = ''secret''\<rparr>"
    by (simp add: getRequestFromForm_def srv_cfg_def demo_server_defs demo_system_def demo_cfg_def)
  show "free_alias (sys_env (dp_sys demo_deployment)) (sys_path (dp_sys demo_deployment)) ''aa'' (sv_world demo_server)"
    using demo_free by (simp add: demo_server_simps)
  show "calm (sv_world demo_server)" using demo_facts(1) by (simp add: demo_server_simps)
  show "Gen (dp_rnd demo_deployment (demo_server\<lparr>sv_auth := ()\<rparr>)) (AliasLength (srv_cfg demo_deployment)) = Some (Inr ''aa'')"
    using Gen_zeros by (simp add: demo_deployment_def srv_cfg_def demo_system_def demo_cfg_def)
qed (simp_all add: demo_server_simps demo_bearer, simp_all add: demo_deployment_def demo_request_def
    demo_defs srv_cfg_def sql_stat_by_user_def int64_range_def checkUploadQuote_def wrap64_id hash_password_def
    valid_name_def plain_name_def Base_def fits_columns_def)

theorem upload_over_http_witness:
  "\<exists>w' s'. rt_Handler (hd (user_routes demo_deployment)) (demo_request ''POST'' ''tok'') [] demo_server = Returns (w', s') \<and>
    sent_status w' = 201 \<and> last w' = Rendered 201 (JObj [(''alias'', JStr ''aa'')])"
  using upload_over_http [OF demo_post(2) _ demo_token demo_post(3,1,4,5), where n = 1 and z = 5 and al = "''aa''" and h = "''$secret''"]
    demo_post by (auto simp: str_field_def)

text \<open>
  C17: What is uploaded over HTTP comes back over HTTP.  With an accepted token, a form that parses and
  a user within its quota the upload is answered 201 with an alias, and adds one row, which belongs
  to the user of the token, and one folder; a download request for that alias with the password of the
  form is then answered 200 with exactly the bytes of the form, as long as the time to live has not
  passed, whoever asks.
\<close>

theorem uploaded_bytes_come_back:
  assumes "extractBearerToken (rq_Header r ''Authorization'') = t" "t \<noteq> []"
    and "AuthClient_ValidateToken (dp_authStub D) t (sv_auth s) = Returns (Inr info, a)"
    and "rq_ParseForm r (MaxFilesSizeForVipInBytes (Permissions (srv_cfg D)))"
    and "getRequestFromForm (srv_cfg D) r = Inr q" "rq_FormFile r ''file'' = Some (name, content)"
    and "calm (sv_world s)"
    and "sql_stat_by_user (vr_UserID info) (w_clock (sv_world s)) (w_table (sv_world s)) = Inr (n, z)"
    and "checkUploadQuote (srv_cfg D) \<lparr>fst_UserID = vr_UserID info, fst_Count = n, fst_Size = z\<rparr>
      (int (length content)) (vr_Roles info) = None"
    and "Gen (dp_rnd D (s\<lparr>sv_auth := a\<rparr>)) (AliasLength (srv_cfg D)) = Some (Inr al)"
    and h: "hash_password (sys_bcrypt (dp_sys D)) (dp_salt D (s\<lparr>sv_auth := a\<rparr>)) (ur_Password q) = Inr h"
    and free: "free_alias (sys_env (dp_sys D)) (sys_path (dp_sys D)) al (sv_world s)" and "valid_name (Base name)"
    and "fits_columns (sys_env (dp_sys D)) (upload_command r info q name content) al h (sv_world s)"
    and k: "1 \<le> ur_MaxDownloads q" "ur_MaxDownloads q < 2 ^ 15" and B: "bcrypt_sound (sys_bcrypt (dp_sys D))"
    and c: "\<And>s'. dp_copy D content s' = ((length content, None), dt s')"
    and g: "rq_URLParam g ''alias'' = al" "rq_Header g ''X-Resource-Password'' = ur_Password q" "below_budget D g s"
    and ttl: "ts_col (sys_env (dp_sys D)) (w_clock (sv_world s) + ur_TTL q) > sql_now (sys_env (dp_sys D)) (w_clock (sv_world s) + lag)"
  shows "\<exists>w1 s1 w2 s2. rt_Handler (hd (user_routes D)) r [] s = Returns (w1, s1) \<and>
    sent_status w1 = 201 \<and> last w1 = Rendered 201 (JObj (str_field ''alias'' al)) \<and>
    sv_world s1 = uploaded (sys_env (dp_sys D)) (sys_path (dp_sys D)) (upload_command r info q name content) al h (sv_world s) \<and>
    rt_Handler (download_route D) g [] (s1\<lparr>sv_world := (sv_world s1)\<lparr>w_clock := w_clock (sv_world s1) + lag\<rparr>\<rparr>) = Returns (w2, s2) \<and>
    sent_status w2 = 200 \<and> sent_body w2 = content"
proof -
  let ?E = "sys_env (dp_sys D)" and ?p = "sys_path (dp_sys D)"
  let ?c = "upload_command r info q name content"
  let ?v = "uploaded ?E ?p ?c al h (sv_world s)"
  have "Service_UploadFile (dp_rnd D (s\<lparr>sv_auth := a\<rparr>)) (dp_salt D (s\<lparr>sv_auth := a\<rparr>)) (sys_service (dp_sys D)) ?c (sv_world s) =
      Returns (Inr al, ?v)"
    unfolding sys_service_def by (rule calm_upload [where n = n and z = z]) (use assms(7-14) in \<open>simp_all add: srv_cfg_def\<close>)
  from upload_route_runs [OF assms(1-6) this, of "[]"] obtain w1 s1 where
    up: "rt_Handler (hd (user_routes D)) r [] s = Returns (w1, s1)"
      "sent_status w1 = 201" "last w1 = Rendered 201 (JObj (str_field ''alias'' al))"
      "sv_world s1 = ?v" "sv_redis s1 = sv_redis s" by auto
  let ?s = "s1\<lparr>sv_world := ?v\<lparr>w_clock := w_clock (sv_world s) + lag\<rparr>\<rparr>"
  have b: "below_budget D g ?s" using g(3) up(5) by simp
  have x: "find (live_row ?E (w_clock (sv_world s) + lag) al) (w_table ?v) = Some (new_row ?E ?c al h (sv_world s))"
    using free ttl by (simp add: find_new_row free_alias_def)
  have "calm (sv_world ?s)" using assms(7) by (simp add: uploaded_def calm_def)
  moreover have "folder_of ?p (sv_world ?s) al = Some [(Base name, content)]"
    by (simp add: uploaded_def folder_of_def)
  moreover have "checkPassword (sys_bcrypt (dp_sys D)) (row_file (new_row ?E ?c al h (sv_world s))) (ur_Password q) = None"
    by (rule checkPassword_hashed [OF h B]) (simp add: new_row_def)
  ultimately have "\<exists>w2 s2. rt_Handler (download_route D) g [] ?s = Returns (w2, s2) \<and> sent_status w2 = 200 \<and> sent_body w2 = content"
    using calm_download_route [OF b, where dt = dt and content = content and x = "new_row ?E ?c al h (sv_world s)"] x k c g
    by (fastforce simp: new_row_def)
  with up show ?thesis by (auto simp: uploaded_def)
qed

theorem uploaded_bytes_come_back_witness:
  "\<exists>w1 s1 w2 s2. rt_Handler (hd (user_routes demo_deployment)) (demo_request ''POST'' ''tok'') [] demo_server = Returns (w1, s1) \<and>
    sent_status w1 = 201 \<and>
    rt_Handler (download_route demo_deployment)
      ((demo_request ''GET'' [])\<lparr>rq_URLParam := \<lambda>_. ''aa'', rq_Header := \<lambda>_. ''secret''\<rparr>) []
      (s1\<lparr>sv_world := (sv_world s1)\<lparr>w_clock := w_clock (sv_world s1) + 5\<rparr>\<rparr>) = Returns (w2, s2) \<and>
    sent_status w2 = 200 \<and> sent_body w2 = ''data''"
proof -
  let ?g = "(demo_request ''GET'' [])\<lparr>rq_URLParam := \<lambda>_. ''aa'', rq_Header := \<lambda>_. ''secret''\<rparr>"
  have "below_budget demo_deployment ?g demo_server" using demo_budget [of "''GET''" "[]"] by simp
  then show ?thesis
    using uploaded_bytes_come_back [OF demo_post(2) _ demo_token demo_post(3,1,4,5), where n = 1 and z = 5 and al = "''aa''"
        and h = "''$secret''" and g = ?g and lag = 5 and dt = "\<lambda>s. 1"] demo_post demo_upload_facts(5)
    by (auto simp: demo_server_simps demo_deployment_def demo_env_def)
qed

text \<open>
  C18: A login request with a JSON body is sent to the authentication service exactly when the login
  has 3 to 64 characters and the password 6 to 128; then the client gets the tokens or the status of
  the error.  Otherwise it is answered 422 with one message for each of the two fields that is wrong,
  and the authentication service is not asked.
\<close>

theorem login_is_checked_before_it_is_sent:
  assumes "goes_by_tags (dp_validate D) chars mail" "rq_Method r = ''POST''" "0 < rq_ContentLength r"
    and "dp_decode D LoginT (take maxBytes (rq_Body r)) = Some (LoginRequest l p)"
  shows "rt_Handler (login_route D) r w s =
    (if l \<noteq> [] \<and> 3 \<le> chars l \<and> chars l \<le> 64 \<and> p \<noteq> [] \<and> 6 \<le> chars p \<and> chars p \<le> 128
     then bind_run (AuthClient_Login (dp_authStub D) \<lparr>lc_Login = l, lc_Password = p\<rparr> (sv_auth s)) (\<lambda>(res, a). Returns
        (case res of Inl err \<Rightarrow> auth_failure err w | Inr result \<Rightarrow> w @ [Rendered 200 (login_Response result)],
         s\<lparr>sv_auth := a\<rparr>))
     else Returns (w @ [Rendered 422 (ValidationError (struct_errors chars mail (LoginRequest l p)))], s))"
  unfolding login_route_runs [OF assms] login_kept by (simp add: RenderValidationError_def)

theorem login_is_checked_before_it_is_sent_witness:
  "rt_Handler (login_route (demo_deployment\<lparr>dp_decode := \<lambda>T b. Some (LoginRequest ''ab'' ''secret''),
        dp_validate := struct_errors length (\<lambda>m. CHR 0x40 \<in> set m)\<rparr>))
      ((demo_request ''POST'' [])\<lparr>rq_ContentLength := 9\<rparr>) [] demo_server =
    Returns ([Rendered 422 (JObj [(''errors'', JArr [JStr ''Login must be greater or equal than 3''])])], demo_server)"
proof -
  let ?D = "demo_deployment\<lparr>dp_decode := \<lambda>T b. Some (LoginRequest ''ab'' ''secret''),
        dp_validate := struct_errors length (\<lambda>m. CHR 0x40 \<in> set m)\<rparr>"
  have "goes_by_tags (dp_validate ?D) length (\<lambda>m. CHR 0x40 \<in> set m)" by (simp add: goes_by_tags_def)
  from login_is_checked_before_it_is_sent [OF this, of "(demo_request ''POST'' [])\<lparr>rq_ContentLength := 9\<rparr>" "''ab''" "''secret''"]
  show ?thesis
    by (simp add: demo_request_def struct_errors_def login_tags_def field_errors_def ValidationError_def
        errors_field_def validation_message_def decInt_def dec.simps digitChar_def char_of_def bit_numeral_rec bit_0)
qed

text \<open>
  C14: A request on a user route whose bearer token the authentication service gives to a user without
  the admin role leaves the rows of all other users as they were, however the calls go.
\<close>

theorem other_users_untouched:
  assumes "cfg_ok (srv_cfg D)" "rt \<in> set (user_routes D)" "rt_Handler rt r w s = Returns (w', s')"
    and "sys_inv (dp_sys D) (sv_world s)"
    and "\<And>info a. AuthClient_ValidateToken (dp_authStub D) (extractBearerToken (rq_Header r ''Authorization'')) (sv_auth s) =
        Returns (Inr info, a) \<Longrightarrow> vr_UserID info = uid \<and> RoleAdmin \<notin> set (vr_Roles info)"
  shows "filter (\<lambda>f. f_UserID f \<noteq> uid) (rows_of (sv_world s')) = filter (\<lambda>f. f_UserID f \<noteq> uid) (rows_of (sv_world s))"
proof -
  from user_route_effect [OF assms(1-3)] consider "sv_world s' = sv_world s"
    | info a where "AuthClient_ValidateToken (dp_authStub D) (extractBearerToken (rq_Header r ''Authorization'')) (sv_auth s) =
        Returns (Inr info, a)"
      "moves (dp_sys D) (acts_as \<lparr>uc_UserID = vr_UserID info, uc_Roles = vr_Roles info\<rparr>) (sv_world s) (sv_world s')"
    by blast
  then show ?thesis
  proof cases
    case 2
    from others_kept [OF 2(2) _ assms(4)] assms(5) [OF 2(1)] show ?thesis by (simp add: others_def)
  qed simp
qed

theorem other_users_untouched_witness:
  "\<exists>w' s'. rt_Handler (user_routes demo_deployment ! 2) (demo_request ''GET'' ''tok8'') [] demo_server = Returns (w', s') \<and>
    sent_status w' = 200 \<and> filter (\<lambda>f. f_UserID f \<noteq> 8) (rows_of (sv_world s')) = [demo_file]"
proof -
  let ?r = "demo_request ''GET'' ''tok8''" and ?rt = "user_routes demo_deployment ! 2"
  have v: "AuthClient_ValidateToken (dp_authStub demo_deployment) ''tok8'' (sv_auth demo_server) =
      Returns (Inr \<lparr>vr_UserID = 8, vr_Roles = [RoleUser], vr_ExpiresAt = 90\<rparr>, ())"
    by (simp add: AuthClient_ValidateToken_def demo_server_defs pbRolesToDomain_def)
  have "sql_stat_by_user 8 (w_clock demo_world) (w_table demo_world) = Inr (0, 0)"
    by (simp add: demo_defs sql_stat_by_user_def int64_range_def)
  with demo_facts(1) have st: "repo_GetFilesStatByUserID (NewFileRepo demo_env) 8 demo_world =
      (Inr \<lparr>fst_UserID = 8, fst_Count = 0, fst_Size = 0\<rparr>, demo_world)"
    by (simp add: calm_stat calm_def)
  have "\<exists>w' s'. rt_Handler ?rt ?r [] demo_server = Returns (w', s') \<and> sent_status w' = 200"
    using v st by (simp add: user_routes_def mount_def authorized_def NewAuth_def demo_server_simps demo_bearer in_auth_run_def
        file_stat_def stat_New_def GetUserClaims_def in_world_def Service_GetFilesStat_def demo_service requesting_user_def Let_def)
  then obtain w' s' where w': "rt_Handler ?rt ?r [] demo_server = Returns (w', s')" "sent_status w' = 200" by blast
  have "filter (\<lambda>f. f_UserID f \<noteq> 8) (rows_of (sv_world s')) = filter (\<lambda>f. f_UserID f \<noteq> 8) (rows_of (sv_world demo_server))"
    by (rule other_users_untouched [OF demo_cfg_ok _ w'(1)])
      (use demo_facts(5) v in \<open>auto simp: demo_server_simps demo_bearer user_routes_def\<close>)
  with w' show ?thesis by (auto simp: demo_server_simps demo_world_def demo_file_def rows_of_def)
qed

text \<open>
  C19: Behind the admin routes nothing but the counter of the limiter changes, and nobody else is
  asked, for a request whose bearer token does not decode to the secret of the environment; and an
  environment without a decodable, non-empty secret has no admin routes, and no routes at all.
\<close>

theorem admin_routes_need_the_secret:
  assumes "MustMountHandlers D = Built rts"
  shows "\<exists>adm key. mount_admin D (admin_handlers D) = Built adm \<and> set adm \<subseteq> set rts \<and>
    b64_decode (dp_secret D) = Some key \<and> key \<noteq> [] \<and>
    (\<forall>rt \<in> set adm. \<forall>r w s w' s'. rt_Handler rt r w s = Returns (w', s') \<longrightarrow>
       b64_decode (extractBearerToken (rq_Header r ''Authorization'')) \<noteq> Some key \<longrightarrow>
       sv_world s' = sv_world s \<and> sv_auth s' = sv_auth s)"
proof -
  from assms obtain adm where adm: "mount_admin D (admin_handlers D) = Built adm"
    and rts: "rts = swagger_routes D @ download_route D # adm @ user_routes D @ auth_routes D"
    by (auto simp: MustMountHandlers_def bind_boot_Built)
  from adm obtain h h' where "admin_only D h = Built h'"
    by (auto simp: admin_handlers_def bind_boot_Built)
  then obtain key where key: "b64_decode (dp_secret D) = Some key" "key \<noteq> []"
    by (auto simp: admin_only_def NewAdminAuth_Built)
  have "sv_world s' = sv_world s \<and> sv_auth s' = sv_auth s"
    if "rt \<in> set adm" "rt_Handler rt r w s = Returns (w', s')"
      "b64_decode (extractBearerToken (rq_Header r ''Authorization'')) \<noteq> Some key" for rt r w s w' s'
    using admin_route_effect [OF adm that(1,2)] that(3) key(1) by simp
  moreover have "set adm \<subseteq> set rts" unfolding rts by auto
  ultimately show ?thesis using adm key by blast
qed

theorem admin_routes_need_the_secret_witness:
  "\<exists>rts adm. MustMountHandlers demo_deployment = Built rts \<and> mount_admin demo_deployment (admin_handlers demo_deployment) = Built adm \<and>
    (\<forall>rt \<in> set adm. \<forall>w s w' s'. rt_Handler rt (demo_request ''GET'' ''bad='') w s = Returns (w', s') \<longrightarrow>
       sv_world s' = sv_world s)"
proof -
  from demo_routes obtain rts where rts: "MustMountHandlers demo_deployment = Built rts" by blast
  have "dp_secret demo_deployment = ''a2V5''" by (simp add: demo_deployment_def)
  with admin_routes_need_the_secret [OF rts] obtain adm where
    adm: "mount_admin demo_deployment (admin_handlers demo_deployment) = Built adm"
    and eff: "\<forall>rt \<in> set adm. \<forall>r w s w' s'. rt_Handler rt r w s = Returns (w', s') \<longrightarrow>
       b64_decode (extractBearerToken (rq_Header r ''Authorization'')) \<noteq> Some ''key'' \<longrightarrow>
       sv_world s' = sv_world s \<and> sv_auth s' = sv_auth s"
    by (auto simp: demo_secret(1))
  have "b64_decode (extractBearerToken (rq_Header (demo_request ''GET'' ''bad='') ''Authorization'')) \<noteq> Some ''key''"
    using demo_secret(2) by (simp add: demo_server_simps demo_bearer)
  with rts adm eff show ?thesis by blast
qed


lemma demo_callers:
  "caller (demo_request m t) = ''10.0.0.1''" "guess (demo_request m ''a2V5'') = Some ''key''" "guess (demo_request m ''bad='') \<noteq> Some ''key''"
  using demo_secret by (simp_all add: caller_def guess_def demo_ip demo_server_simps demo_bearer) (simp add: demo_request_def demo_ip)

lemma demo_admin: "\<exists>h. admin_only demo_deployment next = Built h" "b64_decode (dp_secret demo_deployment) = Some ''key''"
  using demo_secret(1) by (simp_all add: admin_only_def NewAdminAuth_cases demo_deployment_def)


text \<open>
  C21: The addresses of \<open>middleware.RealIP\<close> take that protection away.  When the address of a request
  is what the client claims in a header, any number of wrong guesses, each with an address of its own,
  are all compared and answered 401, none of them 429, whatever fails; and the right secret after them
  reaches the handler.
\<close>

theorem claimed_addresses_evade_the_limit:
  assumes "takes_claims realIP claimed" "admin_only D next = Built h" "redis_ok (sv_redis s)"
    and "distinct (map (\<lambda>r. caller (address_of claimed r)) (rs @ [q]))"
    and "\<forall>r \<in> set (rs @ [q]). caller (address_of claimed r) \<noteq> [] \<and>
      hits_of (dp_Admin D) (sv_redis s) (caller (address_of claimed r)) < rp_MaxAttempts (dp_Admin D)"
    and "\<forall>r \<in> set rs. guess r \<noteq> b64_decode (dp_secret D)" "guess q = b64_decode (dp_secret D)"
  shows "\<exists>ws rd. served_in_turn (realIP h) rs s = Returns (ws, s\<lparr>sv_redis := rd\<rparr>) \<and>
    map sent_status ws = replicate (length rs) 401 \<and>
    (\<forall>w. \<exists>rd'. realIP h q w (s\<lparr>sv_redis := rd\<rparr>) = next (address_of claimed q) w (s\<lparr>sv_redis := rd'\<rparr>))"
proof -
  from guesses_pass [OF assms(1-3), of rs] assms(4-6) obtain ws rd where
    s1: "served_in_turn (realIP h) rs s = Returns (ws, s\<lparr>sv_redis := rd\<rparr>)"
    "map sent_status ws = replicate (length rs) 401" "redis_ok rd"
    "\<forall>u. u \<notin> (\<lambda>r. caller (address_of claimed r)) ` set rs \<longrightarrow> hits_of (dp_Admin D) rd u \<le> hits_of (dp_Admin D) (sv_redis s) u"
    by auto
  have q: "caller (address_of claimed q) \<noteq> []"
    "hits_of (dp_Admin D) rd (caller (address_of claimed q)) < rp_MaxAttempts (dp_Admin D)"
    using s1(4) assms(4,5) by fastforce+
  from last_guess [OF assms(1,2) s1(3) q(1) assms(7) q(2)] s1(1,2) show ?thesis by blast
qed

definition claiming :: "string \<Rightarrow> string \<Rightarrow> request" where
  "claiming token a = (demo_request ''GET'' token)\<lparr>rq_Header :=
     \<lambda>h. if h = ''Authorization'' then ''Bearer '' @ token else if h = ''X-Real-IP'' then a else []\<rparr>"

theorem claimed_addresses_evade_the_limit_witness:
  "\<exists>h ws s1. admin_only demo_deployment (file_getAll demo_deployment) = Built h \<and>
    served_in_turn (\<lambda>r. h (address_of (\<lambda>r. rq_Header r ''X-Real-IP'') r))
      (map (claiming ''bad='') [''1'', ''2'', ''3'', ''4'']) demo_server = Returns (ws, s1) \<and>
    map sent_status ws = [401, 401, 401, 401] \<and>
    (\<exists>rd'. h (address_of (\<lambda>r. rq_Header r ''X-Real-IP'') (claiming ''a2V5'' ''5'')) [] s1 =
      file_getAll demo_deployment (address_of (\<lambda>r. rq_Header r ''X-Real-IP'') (claiming ''a2V5'' ''5'')) [] (demo_server\<lparr>sv_redis := rd'\<rparr>))"
proof -
  let ?c = "\<lambda>r. rq_Header r ''X-Real-IP''"
  let ?rs = "map (claiming ''bad='') [''1'', ''2'', ''3'', ''4'']" and ?q = "claiming ''a2V5'' ''5''"
  from demo_admin(1) obtain h where h: "admin_only demo_deployment (file_getAll demo_deployment) = Built h" by blast
  have c: "caller (address_of ?c (claiming t a)) = a" if "a \<in> set [''1'', ''2'', ''3'', ''4'', ''5'']" for t a
    using that by (auto simp: caller_def address_of_def claiming_def ExtractIP_def SplitHostPort_def)
  have g: "guess (claiming t a) = guess (demo_request ''GET'' t)" for t a
    by (simp add: guess_def claiming_def demo_request_def)
  have "takes_claims (\<lambda>h r. h (address_of ?c r)) ?c" by (simp add: takes_claims_def)
  note claimed_addresses_evade_the_limit [OF this h, of demo_server ?rs ?q]
  moreover have "redis_ok (sv_redis demo_server)" by (simp add: redis_ok_def demo_server_def)
  moreover have "hits_of (dp_Admin demo_deployment) (sv_redis demo_server) u < rp_MaxAttempts (dp_Admin demo_deployment)" for u
    by (simp add: demo_server_defs hits_of_def rd_get_def)
  ultimately show ?thesis using h c g demo_callers(2,3) demo_admin(2) by (fastforce simp: numeral_eq_Suc)
qed

text \<open>
  A client that has used its budget up is answered 429 and reaches neither service nor database:
  when its counter is alive and at the limit, the request only raises the counter, and the wait of
  the block duration begins anew with it.
\<close>

theorem spent_budget_is_refused:
  assumes "ExtractIP (rq_RemoteAddr r) \<noteq> []" "rd_tape (sv_redis s) = []"
    and "rd_get (sv_redis s) (limiter_key (dp_Files D) (ExtractIP (rq_RemoteAddr r))) = Some (n, Some e)"
    and "1 \<le> n" "rp_MaxAttempts (dp_Files D) \<le> n" "n < 2 ^ 62"
    and "0 < whole_seconds (rp_Window (dp_Files D))" "0 < whole_seconds (rp_BlockDuration (dp_Files D))"
  shows "\<exists>w' s'. rt_Handler (download_route D) r [] s = Returns (w', s') \<and> sent_status w' = 429 \<and>
    sv_world s' = sv_world s \<and> sv_auth s' = sv_auth s \<and>
    rd_keys (sv_redis s') (limiter_key (dp_Files D) (ExtractIP (rq_RemoteAddr r))) =
      Some (n + 1, Some (rd_clock (sv_redis s) + whole_seconds (rp_BlockDuration (dp_Files D)) * second))"
proof -
  let ?h = "timed (download_New (\<lambda>c. in_world (Service_DownloadFile (sys_service (dp_sys D)) c))
        (\<lambda>fd. in_world (st_Close (NewFileStorage (sys_path (dp_sys D))) fd)) (dp_mime D) (srv_copy D))"
  from limited_refuses [OF assms, of ?h "[]"] show ?thesis
    by (auto simp: download_route_def mount_def RenderError_def)
qed

theorem spent_budget_is_refused_witness:
  "\<exists>w' s'. rt_Handler (download_route demo_deployment) (demo_request ''GET'' [])
       [] (demo_server\<lparr>sv_redis := \<lparr>rd_clock = 0, rd_tape = [], rd_keys = [''rate:files:10.0.0.1'' \<mapsto> (3, Some 5)]\<rparr>\<rparr>) =
      Returns (w', s') \<and> sent_status w' = 429 \<and> sv_world s' = demo_world"
proof -
  let ?s = "demo_server\<lparr>sv_redis := \<lparr>rd_clock = 0, rd_tape = [], rd_keys = [''rate:files:10.0.0.1'' \<mapsto> (3, Some 5)]\<rparr>\<rparr>"
  let ?r = "demo_request ''GET'' []"
  have ip: "ExtractIP (rq_RemoteAddr ?r) = ''10.0.0.1''" by (simp add: demo_request_def demo_ip)
  have lim: "dp_Files demo_deployment = demo_limit ''files'' 3" by (simp add: demo_deployment_def)
  have "rd_get (sv_redis ?s) (limiter_key (demo_limit ''files'' 3) ''10.0.0.1'') = Some (3, Some 5)"
    by (simp add: rd_get_def limiter_key_def prefix_def demo_limit_def)
  with spent_budget_is_refused [of ?r ?s demo_deployment 3 5] show ?thesis
    by (auto simp: ip lim demo_limit_def seconds_of_minute demo_server_simps)
qed

text \<open>
  C31: When the authentication service is out of order - it answers with a gRPC status such as
  Unavailable - every user route leaves the response unwritten, so the client is told 200 with an empty
  body although nothing was done.
\<close>

theorem auth_outage_is_answered_200:
  assumes "rt \<in> set (user_routes D)" "extractBearerToken (rq_Header r ''Authorization'') = t" "t \<noteq> []"
    and "stub_ValidateToken (dp_authStub D) t (sv_auth s) = (Inl (Ext (GrpcStatus (OtherCode n) m)), a')" "n \<noteq> 0"
  shows "rt_Handler rt r [] s = Returns ([], s\<lparr>sv_auth := a'\<rparr>) \<and> sent_status [] = 200"
proof -
  from assms(1) obtain h where "rt_Handler rt = authorized D h" by (auto simp: user_routes_def mount_def)
  with outage_unanswered [OF assms(2-5)] show ?thesis by simp
qed

theorem auth_outage_is_answered_200_witness:
  "rt_Handler (hd (user_routes demo_deployment)) (demo_request ''POST'' ''down'') [] demo_server = Returns ([], demo_server)"
  using auth_outage_is_answered_200 [OF upload_route_in, of "demo_request ''POST'' ''down''" "''down''" demo_deployment demo_server 14
      "''unavailable''" "()"]
  by (simp add: demo_server_simps demo_bearer demo_server_defs)

section \<open>Odd times to live\<close>

lemma minus_one_hour: "ParseDuration ''-1h'' = Inr (- hour)"
proof -
  have "parse_units [] d = Inr d" for d by (simp add: parse_units.simps)
  moreover have "parse_unit ''1h'' = Inr (3600000000000, [])"
    by (simp add: parse_unit_def isDigit_def digitVal_def code_def unitMap_def Let_def)
  ultimately have "parse_units ''1h'' 0 = Inr 3600000000000" by (simp add: parse_units.simps [of "''1h''"])
  then show ?thesis by (simp add: ParseDuration_def wrap64_id)
qed

text \<open>
  C32: The upload form accepts a negative time to live.  The upload is answered with an alias, the row
  is stored and counts against the quota of its user, and yet no download of it ever succeeds, with
  whatever password and however much later.
\<close>

theorem negative_ttl_never_served:
  assumes form: "rq_FormValue r ''ttl'' = ''-1h''" "rq_FormValue r ''max_downloads'' = []"
    and c: "uf_TTL c = (case getRequestFromForm cfg r of Inl e \<Rightarrow> 0 | Inr q \<Rightarrow> ur_TTL q)"
    and w: "calm w" "sql_stat_by_user (ui_UserID (uf_User c)) (w_clock w) (w_table w) = Inr (n, z)"
      "checkUploadQuote cfg \<lparr>fst_UserID = ui_UserID (uf_User c), fst_Count = n, fst_Size = z\<rparr>
        (uf_Filesize c) (ui_Roles (uf_User c)) = None"
      "Gen rnd (AliasLength cfg) = Some (Inr a)" "hash_password B salt (uf_Password c) = Inr h"
      "free_alias E p a w" "valid_name (Base (uf_Filename c))" "fits_columns E c a h w"
    and past: "ts_col E (w_clock w - hour) \<le> sql_now E (w_clock w + int dt)"
  shows "(\<exists>q. getRequestFromForm cfg r = Inr q \<and> ur_TTL q = - hour) \<and>
    (\<exists>w1 f. Service_UploadFile rnd salt (app_service E p cfg B) c w = Returns (Inr a, w1) \<and>
      rows_of w1 = rows_of w @ [f] \<and> f_UserID f = ui_UserID (uf_User c) \<and>
      Service_DownloadFile (app_service E p cfg B) \<lparr>df_Alias = a, df_Password = pwd\<rparr> (w1\<lparr>w_clock := w_clock w1 + int dt\<rparr>) =
        (Inl (Sentinel ErrFileNotFound), w1\<lparr>w_clock := w_clock w1 + int dt\<rparr>))"
proof -
  obtain q where q: "getRequestFromForm cfg r = Inr q" "ur_TTL q = - hour"
    using form minus_one_hour by (auto simp: getRequestFromForm_def)
  with c have ttl: "uf_TTL c = - hour" by simp
  let ?w1 = "uploaded E p c a h w"
  let ?w2 = "?w1\<lparr>w_clock := w_clock ?w1 + int dt\<rparr>"
  have up: "Service_UploadFile rnd salt (app_service E p cfg B) c w = Returns (Inr a, ?w1)"
    using w by (rule calm_upload)
  have "\<forall>x \<in> set (w_table ?w1). \<not> live_row E (w_clock w + int dt) a x"
    using w(6) past ttl by (auto simp: uploaded_def free_alias_def new_row_def live_row_def live_as_def)
  then have none: "find (live_row E (w_clock ?w2) a) (w_table ?w2) = None" by (simp add: find_None_iff uploaded_simps del: not_ex) blast
  have "Service_DownloadFile (app_service E p cfg B) \<lparr>df_Alias = a, df_Password = pwd\<rparr> ?w2 = (Inl (Sentinel ErrFileNotFound), ?w2)"
    by (rule calm_download_missing) (use w(1) none in \<open>simp_all add: calm_def uploaded_def\<close>)
  with q up show ?thesis by (auto simp: uploaded_def rows_of_def new_row_def)
qed

theorem negative_ttl_never_served_witness:
  "\<exists>w1. Service_UploadFile (\<lambda>_. 0) 0 (app_service demo_env ''files'' demo_cfg demo_bcrypt) (demo_upload\<lparr>uf_TTL := - hour\<rparr>) demo_world
      = Returns (Inr ''aa'', w1) \<and>
    fst (Service_DownloadFile (app_service demo_env ''files'' demo_cfg demo_bcrypt) \<lparr>df_Alias = ''aa'', df_Password = ''secret''\<rparr>
      (w1\<lparr>w_clock := w_clock w1 + int 0\<rparr>)) = Inl (Sentinel ErrFileNotFound)"
proof -
  let ?r = "(demo_request ''POST'' ''tok'')\<lparr>rq_FormValue := \<lambda>n. if n = ''ttl'' then ''-1h'' else []\<rparr>"
  have form: "rq_FormValue ?r ''ttl'' = ''-1h''" "rq_FormValue ?r ''max_downloads'' = []" by simp_all
  have ttl: "uf_TTL (demo_upload\<lparr>uf_TTL := - hour\<rparr>) = (case getRequestFromForm demo_cfg ?r of Inl e \<Rightarrow> 0 | Inr q \<Rightarrow> ur_TTL q)"
    by (simp add: getRequestFromForm_def minus_one_hour)
  from negative_ttl_never_served [OF form ttl demo_facts(1), of 0 0 "\<lambda>_. 0" "''aa''" demo_bcrypt 0 "''$secret''" demo_env "''files''" 0 "''secret''"]
    demo_upload_facts demo_free demo_fits show ?thesis
    by (auto simp: demo_env_def demo_world_def fits_columns_def)
qed

text \<open>
  C33: What the columns of the table do not hold is an internal error.  The form takes times to live of
  up to 292 years; when the end of one lies outside the range of a TIMESTAMP, which ends in 2038, and
  with a configured alias length above 50 in every case, the upload passes the form and the quota,
  the database refuses the row, the client is answered 500, and nothing is stored.
\<close>

theorem unstorable_uploads_are_internal_errors:
  assumes "calm w" "sql_stat_by_user (ui_UserID (uf_User c)) (w_clock w) (w_table w) = Inr (n, z)"
    and "checkUploadQuote cfg \<lparr>fst_UserID = ui_UserID (uf_User c), fst_Count = n, fst_Size = z\<rparr>
      (uf_Filesize c) (ui_Roles (uf_User c)) = None"
    and "Gen rnd (AliasLength cfg) = Some (Inr a)" "hash_password B salt (uf_Password c) = Inr h"
    and "\<not> ts_fits E (w_clock w + uf_TTL c) \<or> 50 < AliasLength cfg"
  shows "\<exists>e j. Service_UploadFile rnd salt (app_service E p cfg B) c w = Returns (Inl e, w) \<and>
    file_failure e rs = rs @ [Rendered 500 j]"
proof -
  have "\<not> fits_columns E c a h w" using assms(6) Gen_letters [OF assms(4)] by (auto simp: fits_columns_def)
  from calm_not_fitting [OF assms(1,5) this, of p cfg] obtain e where
    up: "upload_with_alias (app_service E p cfg B) salt c a w = (Inl e, w)" and e: "\<forall>s. \<not> is_domain e s" "\<not> isCtxError e" by blast
  have "repo_GetFilesStatByUserID (NewFileRepo E) (ui_UserID (uf_User c)) w =
      (Inr \<lparr>fst_UserID = ui_UserID (uf_User c), fst_Count = n, fst_Size = z\<rparr>, w)"
    using assms(1,2) by (simp add: calm_stat calm_def)
  with up assms(3,4) have "Service_UploadFile rnd salt (app_service E p cfg B) c w = Returns (Inl e, w)"
    by (simp add: Service_UploadFile_def)
  moreover have "failure_status file_error_status e = Some 500"
    using e by (auto simp: failure_status_def leaf_status_def is_domain_leaf split: goerr.split option.split)
  ultimately show ?thesis using file_failure_status [of e rs] by auto
qed

lemma two_million_hours: "ParseDuration ''2000000h'' = Inr (2000000 * hour)"
proof -
  have "parse_units [] d = Inr d" for d by (simp add: parse_units.simps)
  moreover have "parse_unit ''2000000h'' = Inr (7200000000000000000, [])"
    by (simp add: parse_unit_def isDigit_def digitVal_def code_def unitMap_def Let_def)
  ultimately have "parse_units ''2000000h'' 0 = Inr 7200000000000000000" by (simp add: parse_units.simps [of "''2000000h''"])
  then show ?thesis by (simp add: ParseDuration_def)
qed

theorem unstorable_uploads_are_internal_errors_witness:
  "(\<exists>q. getRequestFromForm demo_cfg ((demo_request ''POST'' ''tok'')\<lparr>rq_FormValue := \<lambda>n. if n = ''ttl'' then ''2000000h'' else []\<rparr>) = Inr q \<and>
      ur_TTL q = 2000000 * hour) \<and>
    (\<exists>e j. Service_UploadFile (\<lambda>_. 0) 0 (app_service demo_env ''files'' demo_cfg demo_bcrypt) (demo_upload\<lparr>uf_TTL := 2000000 * hour\<rparr>) demo_world
      = Returns (Inl e, demo_world) \<and> file_failure e [] = [Rendered 500 j])"
proof (rule conjI)
  show "\<exists>q. getRequestFromForm demo_cfg ((demo_request ''POST'' ''tok'')\<lparr>rq_FormValue := \<lambda>n. if n = ''ttl'' then ''2000000h'' else []\<rparr>) = Inr q \<and>
      ur_TTL q = 2000000 * hour"
    by (simp add: getRequestFromForm_def two_million_hours)
  have "\<not> ts_fits demo_env (w_clock demo_world + uf_TTL (demo_upload\<lparr>uf_TTL := 2000000 * hour\<rparr>))"
    by (simp add: demo_env_def demo_world_def)
  from unstorable_uploads_are_internal_errors [OF demo_facts(1) _ _ _ _ disjI1 [OF this], of 0 0 demo_cfg "\<lambda>_. 0" "''aa''" demo_bcrypt 0 "''$secret''" "''files''" "[]"]
    demo_upload_facts
  show "\<exists>e j. Service_UploadFile (\<lambda>_. 0) 0 (app_service demo_env ''files'' demo_cfg demo_bcrypt) (demo_upload\<lparr>uf_TTL := 2000000 * hour\<rparr>) demo_world
      = Returns (Inl e, demo_world) \<and> file_failure e [] = [Rendered 500 j]"
    by simp
qed

text \<open>
  Far out the pages fail: the offset of a page is an int64 product, and for a page number that the
  handler accepts but whose offset reaches 2^63 it comes out negative, so the database refuses the
  query and a user who has files is answered with an internal error instead of an empty page.
\<close>

theorem far_pages_fail:
  assumes "calm w" "own_files E u w \<noteq> []" "1 \<le> page" "page < 2 ^ 63" "0 < limit"
    and "2 ^ 63 \<le> (page - 1) * limit" "(page - 1) * limit < 2 ^ 64"
  shows "\<exists>e. Service_GetAllFiles (app_service E p cfg B) \<lparr>ga_Page = page, ga_Limit = limit, ga_UserID = u\<rparr> w = (Inl e, w) \<and>
    (\<forall>s. \<not> is_domain e s) \<and> \<not> isCtxError e"
  using assms by (rule calm_far_page)

theorem far_pages_fail_witness:
  "\<exists>e. Service_GetAllFiles (app_service demo_env ''files'' demo_cfg demo_bcrypt)
      \<lparr>ga_Page = 2 ^ 60, ga_Limit = 10, ga_UserID = 7\<rparr> demo_world = (Inl e, demo_world)"
proof -
  have "own_files demo_env 7 demo_world \<noteq> []"
    by (simp add: own_files_def scan_def owned_live_def demo_defs)
  from far_pages_fail [OF demo_facts(1) this, of "2 ^ 60" 10 "''files''" demo_cfg demo_bcrypt] show ?thesis by auto
qed

section \<open>Calls that fail\<close>



text \<open>
  C35: When the commit after the last download fails and the server rolls back, the request fails, the
  row stays as it was and its file is gone: no later request for the alias succeeds, with any password
  at any time, while the row goes on counting against the quota of its owner until it expires.
\<close>

theorem lost_commit_loses_the_file:
  assumes "calm w" "find (live_row E (w_clock w) a) (w_table w) = Some r"
    and "checkPassword B (row_file r) pwd = None" "folder_of p w a = Some ((n, b) # rest)"
    and "f_DownloadsLeft (row_file r) = 1"
  shows "\<exists>e w'. Service_DownloadFile (NewService (lost_commits E err) (NewFileStorage p) cfg B w_clock)
      \<lparr>df_Alias = a, df_Password = pwd\<rparr> w = (Inl e, w') \<and>
    w_table w' = w_table w \<and> folder_of p w' a = None \<and> w_open w' = w_open w \<and>
    (\<forall>pwd' t. \<exists>e'. fst (Service_DownloadFile (app_service E p cfg B) \<lparr>df_Alias = a, df_Password = pwd'\<rparr>
      (w'\<lparr>w_clock := t\<rparr>)) = Inl e')"
proof -
  let ?w = "w\<lparr>w_dirs := remove_under (Join p a) (w_dirs w)\<rparr>"
  have gone: "folder_of p ?w a = None" by (simp add: folder_of_def remove_under_def)
  have "\<exists>e'. fst (Service_DownloadFile (app_service E p cfg B) \<lparr>df_Alias = a, df_Password = pwd'\<rparr> (?w\<lparr>w_clock := t\<rparr>)) = Inl e'"
    for pwd' t using fileless_download [of "?w\<lparr>w_clock := t\<rparr>" p a E cfg B pwd'] assms(1) gone
    by (simp add: calm_def folder_of_def)
  with lost_last_download [OF assms] gone show ?thesis by auto
qed

theorem lost_commit_loses_the_file_witness:
  "\<exists>e w'. Service_DownloadFile (NewService (lost_commits demo_env (Ext (OtherErr ''connection lost''))) (NewFileStorage ''files'')
        demo_cfg demo_bcrypt w_clock) \<lparr>df_Alias = ''abc'', df_Password = ''pw''\<rparr>
      (demo_world\<lparr>w_table := [\<lparr>row_id = 1, row_file = demo_file\<lparr>f_DownloadsLeft := 1\<rparr>\<rparr>]\<rparr>) = (Inl e, w') \<and>
    w_table w' \<noteq> [] \<and> folder_of ''files'' w' ''abc'' = None"
proof -
  let ?r = "\<lparr>row_id = 1, row_file = demo_file\<lparr>f_DownloadsLeft := 1\<rparr>\<rparr>"
  let ?w = "demo_world\<lparr>w_table := [?r]\<rparr>"
  have "calm ?w" "find (live_row demo_env (w_clock ?w) ''abc'') (w_table ?w) = Some ?r"
    "checkPassword demo_bcrypt (row_file ?r) ''pw'' = None"
    "folder_of ''files'' ?w ''abc'' = Some ((''a.txt'', ''hello'') # [])" "f_DownloadsLeft (row_file ?r) = 1"
    by (simp_all add: demo_defs calm_def live_row_def live_as_def same_alias_def checkPassword_def folder_of_def)
  from lost_commit_loses_the_file [OF this, of "Ext (OtherErr ''connection lost'')" demo_cfg] show ?thesis by fastforce
qed

section \<open>Start-up\<close>


lemmas start_defs = main_run_def MustLoad_def log_MustLoad_def log_Load_def EnvLocal_def next_phase_def must_def
  Migrate_def must_defs app_New_def new_app_def mysql_New_def mysql_Connect_def redis_Connect_def auth_Connect_def




end
